(* ===== verification/Prelude.thy ===== *)
theory Prelude
  imports Main "HOL-Library.Sublist"
begin

section \<open>Prelude: the Go standard library the program uses\<close>

text \<open>
  Go strings are byte strings; the model writes them as \<^typ>\<open>string\<close>.  This theory
  holds the functions of Go's standard library that the program calls
  (\<open>strings.HasPrefix\<close>, \<open>strings.Split\<close>, \<open>strings.ReplaceAll\<close>, \<open>strings.TrimSpace\<close>,
  \<open>slices.Contains\<close>, \<open>cmp.Or\<close>, \<open>%q\<close>, indexing of a \<open>map[string]string\<close>), the generic lemmas
  the component theories share, and the collections of facts they add to.
\<close>

named_theorems reason_defs \<open>the decision-reason constants, unfolded\<close>
named_theorems config_defs \<open>the configuration constants, unfolded\<close>
named_theorems frame_simps \<open>what an operation leaves unchanged\<close>

type_synonym string_map = "string \<rightharpoonup> string"

subsection \<open>Definitions\<close>

text \<open>\<open>m[k]\<close> of a \<open>map[string]string\<close>: the zero value for a missing key.\<close>

definition str_at :: "string_map \<Rightarrow> string \<Rightarrow> string" where
  "str_at m k = (case m k of None \<Rightarrow> [] | Some v \<Rightarrow> v)"

definition slices_Contains :: "'a list \<Rightarrow> 'a \<Rightarrow> bool" where
  "slices_Contains xs x = List.member xs x"

definition HasPrefix :: "string \<Rightarrow> string \<Rightarrow> bool" where
  "HasPrefix s p = prefix p s"

text \<open>\<open>cmp.Or\<close> on two arguments; the first argument is the zero value of the type.\<close>

definition cmp_Or :: "'a \<Rightarrow> 'a \<Rightarrow> 'a \<Rightarrow> 'a" where
  "cmp_Or zero a b = (if a = zero then b else a)"

text \<open>\<open>strings.Split\<close> with a one-byte separator.\<close>

fun Split :: "string \<Rightarrow> char \<Rightarrow> string list" where
  "Split [] sep = [[]]"
| "Split (c # s) sep =
     (if c = sep then [] # Split s sep
      else (case Split s sep of [] \<Rightarrow> [[c]] | p # ps \<Rightarrow> (c # p) # ps))"

fun Join :: "string list \<Rightarrow> char \<Rightarrow> string" where
  "Join [] sep = []"
| "Join [p] sep = p"
| "Join (p # q # ps) sep = p @ sep # Join (q # ps) sep"

text \<open>\<open>strings.ReplaceAll\<close> with a non-empty old string: left to right, not overlapping.\<close>

function ReplaceAll :: "string \<Rightarrow> string \<Rightarrow> string \<Rightarrow> string" where
  "ReplaceAll [] old new = []"
| "ReplaceAll (c # s) old new =
     (if old \<noteq> [] \<and> prefix old (c # s)
      then new @ ReplaceAll (drop (length old) (c # s)) old new
      else c # ReplaceAll s old new)"
  by pat_completeness auto
termination
proof (relation "measure (\<lambda>(s, old, new). length s)", goal_cases)
  case (2 c s old new)
  then show ?case by (cases old) auto
qed auto

text \<open>
  \<open>strings.TrimSpace\<close>: the UTF-8 encodings of the code points \<open>unicode.IsSpace\<close> accepts.
\<close>

definition space_encodings :: "string list" where
  "space_encodings =
     [[CHR 0x09], [CHR 0x0A], [CHR 0x0B], [CHR 0x0C], [CHR 0x0D], [CHR 0x20],
      [CHR 0xC2, CHR 0x85], [CHR 0xC2, CHR 0xA0], [CHR 0xE1, CHR 0x9A, CHR 0x80],
      [CHR 0xE2, CHR 0x80, CHR 0x80], [CHR 0xE2, CHR 0x80, CHR 0x81],
      [CHR 0xE2, CHR 0x80, CHR 0x82], [CHR 0xE2, CHR 0x80, CHR 0x83],
      [CHR 0xE2, CHR 0x80, CHR 0x84], [CHR 0xE2, CHR 0x80, CHR 0x85],
      [CHR 0xE2, CHR 0x80, CHR 0x86], [CHR 0xE2, CHR 0x80, CHR 0x87],
      [CHR 0xE2, CHR 0x80, CHR 0x88], [CHR 0xE2, CHR 0x80, CHR 0x89],
      [CHR 0xE2, CHR 0x80, CHR 0x8A], [CHR 0xE2, CHR 0x80, CHR 0xA8],
      [CHR 0xE2, CHR 0x80, CHR 0xA9], [CHR 0xE2, CHR 0x80, CHR 0xAF],
      [CHR 0xE2, CHR 0x81, CHR 0x9F], [CHR 0xE3, CHR 0x80, CHR 0x80]]"

definition leading_space :: "string list \<Rightarrow> string \<Rightarrow> string option" where
  "leading_space encs s = List.find (\<lambda>e. prefix e s) encs"

function trim_leading :: "string list \<Rightarrow> string \<Rightarrow> string" where
  "trim_leading encs s =
     (case leading_space encs s of
        None \<Rightarrow> s
      | Some e \<Rightarrow> if e = [] \<or> s = [] then s else trim_leading encs (drop (length e) s))"
  by pat_completeness auto
termination
  by (relation "measure (\<lambda>(encs, s). length s)") auto

declare trim_leading.simps [simp del]

definition TrimSpace :: "string \<Rightarrow> string" where
  "TrimSpace s = rev (trim_leading (map rev space_encodings) (rev (trim_leading space_encodings s)))"

text \<open>
  \<open>%q\<close> (\<open>strconv.Quote\<close>): the escapes of ASCII; bytes from 128 on are copied, as in printable
  UTF-8.
\<close>

definition lowerhex :: "nat \<Rightarrow> char" where
  "lowerhex n = ''0123456789abcdef'' ! n"

definition hex_byte :: "char \<Rightarrow> string" where
  "hex_byte c =
     (let b = of_char c :: nat in [CHR 0x5C, CHR ''x'', lowerhex (b div 16), lowerhex (b mod 16)])"

definition escape_letters :: "(char \<times> char) list" where
  "escape_letters =
     [(CHR 0x22, CHR 0x22), (CHR 0x5C, CHR 0x5C), (CHR 0x07, CHR ''a''), (CHR 0x08, CHR ''b''),
      (CHR 0x0C, CHR ''f''), (CHR 0x0A, CHR ''n''), (CHR 0x0D, CHR ''r''), (CHR 0x09, CHR ''t''),
      (CHR 0x0B, CHR ''v'')]"

definition quoted_char :: "char \<Rightarrow> string" where
  "quoted_char c =
     (case map_of escape_letters c of
        Some k \<Rightarrow> [CHR 0x5C, k]
      | None \<Rightarrow>
          if (of_char c :: nat) < 32 \<or> (of_char c :: nat) = 127 then hex_byte c else [c])"

definition Quote :: "string \<Rightarrow> string" where
  "Quote s = ''\"'' @ concat (map quoted_char s) @ ''\"''"

subsection \<open>Lemmas\<close>

lemma slices_Contains_iff [simp]: "slices_Contains xs x \<longleftrightarrow> x \<in> set xs"
  by (simp add: slices_Contains_def)

lemma str_at_Some [simp]: "m k = Some v \<Longrightarrow> str_at m k = v"
  by (simp add: str_at_def)

lemma str_at_None [simp]: "m k = None \<Longrightarrow> str_at m k = []"
  by (simp add: str_at_def)

lemma str_at_nonempty: "str_at m k = v \<Longrightarrow> v \<noteq> [] \<Longrightarrow> m k = Some v"
  by (simp add: str_at_def split: option.splits)

lemma Split_not_Nil [simp]: "Split s sep \<noteq> []"
  by (induction s) (auto split: list.splits)

lemma Join_Cons: "ps \<noteq> [] \<Longrightarrow> Join (p # ps) sep = p @ sep # Join ps sep"
  by (cases ps) auto

lemma Split_Join_id: "Join (Split s sep) sep = s"
proof (induction s)
  case Nil
  then show ?case by simp
next
  case (Cons c s)
  obtain p ps where ps: "Split s sep = p # ps"
    using Split_not_Nil [of s sep] by (cases "Split s sep") auto
  with Cons have "Join (p # ps) sep = s" by simp
  then show ?case
    by (cases ps) (auto simp: ps)
qed

lemma Split_no_sep: "p \<in> set (Split s sep) \<Longrightarrow> sep \<notin> set p"
proof (induction s arbitrary: p)
  case Nil
  then show ?case by simp
next
  case (Cons c s)
  then show ?case
    by (cases "Split s sep") (auto split: if_splits)
qed

lemma Split_free: "sep \<notin> set p \<Longrightarrow> Split p sep = [p]"
  by (induction p) auto

lemma Split_append_sep: "sep \<notin> set p \<Longrightarrow> Split (p @ sep # s) sep = p # Split s sep"
  by (induction p) auto

lemma Split_Join:
  "ps \<noteq> [] \<Longrightarrow> (\<And>p. p \<in> set ps \<Longrightarrow> sep \<notin> set p) \<Longrightarrow> Split (Join ps sep) sep = ps"
proof (induction ps)
  case Nil
  then show ?case by simp
next
  case (Cons p ps)
  show ?case
  proof (cases ps)
    case Nil
    with Cons.prems show ?thesis by (simp add: Split_free)
  next
    case (Cons q qs)
    with Cons.IH Cons.prems show ?thesis
      by (simp add: Split_append_sep)
  qed
qed

lemma Split_inj: "Split s sep = Split t sep \<Longrightarrow> s = t"
  by (metis Split_Join_id)

lemma ReplaceAll_absent:
  "old \<noteq> [] \<Longrightarrow> hd old \<notin> set s \<Longrightarrow> ReplaceAll s old new = s"
proof (induction s)
  case Nil
  then show ?case by simp
next
  case (Cons c s)
  then have "\<not> prefix old (c # s)" by (cases old) auto
  with Cons show ?case by simp
qed

lemma HasPrefix_append [simp]: "HasPrefix (p @ s) p"
  by (simp add: HasPrefix_def)

lemma HasPrefix_iff: "HasPrefix s p \<longleftrightarrow> (\<exists>t. s = p @ t)"
  by (simp add: HasPrefix_def prefix_def)

subsection \<open>Quoting is injective\<close>

lemma lowerhex_inject: "m < 16 \<Longrightarrow> n < 16 \<Longrightarrow> lowerhex m = lowerhex n \<Longrightarrow> m = n"
  unfolding lowerhex_def by (subst (asm) nth_eq_iff_index_eq) simp_all

lemma hex_byte_inject: "hex_byte c = hex_byte d \<Longrightarrow> c = d"
proof -
  assume "hex_byte c = hex_byte d"
  then have 1: "lowerhex ((of_char c :: nat) div 16) = lowerhex (of_char d div 16)"
    "lowerhex ((of_char c :: nat) mod 16) = lowerhex (of_char d mod 16)"
    by (simp_all add: hex_byte_def Let_def)
  have "(of_char x :: nat) div 16 < 16" for x
  proof -
    have "(of_char x :: nat) mod 256 < 256" by (rule mod_less_divisor) simp
    then have "(of_char x :: nat) < 16 * 16" by simp
    then show ?thesis by (rule less_mult_imp_div_less)
  qed
  with 1 have "(of_char c :: nat) div 16 = of_char d div 16" "(of_char c :: nat) mod 16 = of_char d mod 16"
    using lowerhex_inject by simp_all
  then have "(of_char c :: nat) = of_char d" by (metis div_mult_mod_eq)
  then show ?thesis by simp
qed

lemma escape_letter_inject:
  "map_of escape_letters c = Some k \<Longrightarrow> map_of escape_letters d = Some k \<Longrightarrow> c = d"
  by (auto simp: escape_letters_def split: if_splits)

lemma escape_letter_not_x: "map_of escape_letters c \<noteq> Some (CHR ''x'')"
  by (auto simp: escape_letters_def)

lemma backslash_escaped: "map_of escape_letters CHR 0x5C = Some CHR 0x5C"
  by (simp add: escape_letters_def)

lemma quoted_char_prefix_free:
  assumes "quoted_char c @ s = quoted_char d @ t"
  shows "c = d \<and> s = t"
proof -
  have "c = d"
    using assms escape_letter_inject [of c _ d] escape_letter_not_x backslash_escaped
      hex_byte_inject [of c d]
    by (auto simp: quoted_char_def hex_byte_def Let_def split: option.splits if_splits)
  with assms show ?thesis by simp
qed

lemma Quote_inject: "Quote g = Quote h \<Longrightarrow> g = h"
proof -
  have ne: "quoted_char c \<noteq> []" for c
    by (auto simp: quoted_char_def hex_byte_def Let_def split: option.splits)
  have "concat (map quoted_char g) = concat (map quoted_char h) \<Longrightarrow> g = h"
  proof (induction g arbitrary: h)
    case Nil
    then show ?case using ne by (cases h) auto
  next
    case (Cons c g)
    then obtain d h' where h: "h = d # h'" using ne by (cases h) auto
    with Cons quoted_char_prefix_free [of c _ d] show ?case by auto
  qed
  then show "Quote g = Quote h \<Longrightarrow> g = h" by (simp add: Quote_def)
qed

subsection \<open>Lists without repetitions, and decimal numbers\<close>

text \<open>The list of first occurrences, which the program's \<open>append\<close>-unless-seen loops build.\<close>

definition keep_first :: "'a list \<Rightarrow> 'a list" where
  "keep_first xs = rev (remdups (rev xs))"

lemma keep_first_snoc: "y \<notin> set xs \<Longrightarrow> keep_first (xs @ [y]) = keep_first xs @ [y]"
  by (simp add: keep_first_def)

lemma keep_first_dup: "y \<in> set xs \<Longrightarrow> keep_first (xs @ y # ys) = keep_first (xs @ ys)"
proof (induction ys rule: rev_induct)
  case Nil
  then show ?case by (simp add: keep_first_def)
next
  case (snoc z ys)
  then show ?case by (auto simp: keep_first_def)
qed

lemma keep_first_distinct: "distinct xs \<Longrightarrow> keep_first xs = xs"
  by (simp add: keep_first_def distinct_remdups_id)

lemma set_keep_first [simp]: "set (keep_first xs) = set xs"
  by (simp add: keep_first_def)

lemma distinct_keep_first [simp]: "distinct (keep_first xs)"
  by (simp add: keep_first_def)

lemma keep_first_Nil [simp]: "keep_first [] = []"
  by (simp add: keep_first_def)

text \<open>\<open>%d\<close> of a length.\<close>

fun Itoa :: "nat \<Rightarrow> string" where
  "Itoa n = (if n < 10 then [char_of (48 + n)] else Itoa (n div 10) @ [char_of (48 + n mod 10)])"

declare Itoa.simps [simp del]

end
