(* ===== verification/Config.thy ===== *)
theory Config
  imports Prelude
begin

section \<open>Configuration constants (\<open>internal/config/config.go\<close>)\<close>

text \<open>
  The label keys, annotation keys and allow-lists of \<open>internal/config/config.go\<close>, by
  the names the source gives them.  A \<open>time.Duration\<close> is its \<open>int64\<close> number of
  nanoseconds, written as an \<^typ>\<open>int\<close> (no code of the program computes with it).
  The accessor functions of the source return package variables nobody writes, so they
  are constants here.
\<close>

definition WebhookName :: string where
  [config_defs]: "WebhookName = ''flux-drift-webhook.fluxcd.io''"

definition WebhookPath :: string where
  [config_defs]: "WebhookPath = ''/validate''"

definition DefaultWebhookPort :: int where
  [config_defs]: "DefaultWebhookPort = 9443"

definition DefaultMetricsPort :: int where
  [config_defs]: "DefaultMetricsPort = 8080"

definition DefaultHealthPort :: int where
  [config_defs]: "DefaultHealthPort = 8081"

definition DefaultCertDir :: string where
  [config_defs]: "DefaultCertDir = ''/certs''"

definition KustomizeLabelName :: string where
  [config_defs]: "KustomizeLabelName = ''kustomize.toolkit.fluxcd.io/name''"

definition KustomizeLabelNamespace :: string where
  [config_defs]: "KustomizeLabelNamespace = ''kustomize.toolkit.fluxcd.io/namespace''"

definition HelmLabelName :: string where
  [config_defs]: "HelmLabelName = ''helm.toolkit.fluxcd.io/name''"

definition HelmLabelNamespace :: string where
  [config_defs]: "HelmLabelNamespace = ''helm.toolkit.fluxcd.io/namespace''"

definition BypassAnnotation :: string where
  [config_defs]: "BypassAnnotation = ''fluxcd.io/drift-prevention-bypass''"

definition BypassValue :: string where
  [config_defs]: "BypassValue = ''disabled''"

definition KustomizeReconcileAnnotation :: string where
  [config_defs]: "KustomizeReconcileAnnotation = ''kustomize.toolkit.fluxcd.io/reconcile''"

definition ReconcileDisabledValue :: string where
  [config_defs]: "ReconcileDisabledValue = ''disabled''"

definition FluxNamespaceDefault :: string where
  [config_defs]: "FluxNamespaceDefault = ''flux-system''"

text \<open>\<open>5 * time.Minute\<close>\<close>

definition DefaultVWCResyncInterval :: int where
  [config_defs]: "DefaultVWCResyncInterval = 5 * 60 * 1000000000"

definition ExcludedGroupAdmission :: string where
  [config_defs]: "ExcludedGroupAdmission = ''admissionregistration.k8s.io''"

definition FluxServiceAccounts :: "string list" where
  [config_defs]: "FluxServiceAccounts =
     [''kustomize-controller'',
      ''helm-controller'',
      ''source-controller'',
      ''notification-controller'',
      ''image-reflector-controller'',
      ''image-automation-controller'']"

definition FluxReconcilerServiceAccounts :: "string list" where
  [config_defs]: "FluxReconcilerServiceAccounts = [''flux-reconciler'']"

definition DefaultSystemControllerServiceAccounts :: "string list" where
  [config_defs]: "DefaultSystemControllerServiceAccounts =
     [''kube-system:generic-garbage-collector'',
      ''kube-system:endpoint-controller'',
      ''kube-system:endpointslice-controller'',
      ''kube-system:endpointslicemirroring-controller'',
      ''kube-system:ttl-after-finished-controller'',
      ''kube-system:cronjob-controller'',
      ''system:apiserver'',
      ''system:kube-controller-manager'']"

definition ExcludedNamespaces :: "string list" where
  [config_defs]: "ExcludedNamespaces =
     [''kube-system'',
      ''kube-public'',
      ''kube-node-lease'',
      ''flux-system'']"

definition ExcludedGroups :: "string list" where
  [config_defs]: "ExcludedGroups = [ExcludedGroupAdmission]"

text \<open>The label and annotation keys are pairwise different.\<close>

lemma label_keys_distinct [simp]:
  "distinct [KustomizeLabelName, KustomizeLabelNamespace, HelmLabelName, HelmLabelNamespace]"
  "BypassAnnotation \<noteq> KustomizeReconcileAnnotation"
  by (simp_all add: config_defs)

lemma config_nonempty [simp]:
  "BypassValue \<noteq> []" "ReconcileDisabledValue \<noteq> []"
  by (simp_all add: config_defs)

end
