(* ===== verification/Reasons.thy ===== *)
theory Reasons
  imports Config
begin

section \<open>Decision reasons (\<open>internal/webhook/reasons.go\<close>)\<close>

text \<open>
  The values of the \<open>decision\<close> label of \<open>flux_drift_webhook_requests_total\<close>, one
  constant each as in the source, and \<open>AllDecisionReasons\<close>, the operator contract.
  The names of the admission operations (\<open>k8s.io/api/admission/v1\<close>) stand here too, as
  the strings the API server sends.
\<close>

definition Create :: string where "Create = ''CREATE''"
definition Update :: string where "Update = ''UPDATE''"
definition Delete :: string where "Delete = ''DELETE''"

definition ReasonAllowedNotManaged :: string where
  [reason_defs]: "ReasonAllowedNotManaged = ''allowed_not_managed''"

definition ReasonAllowedNamespaceFilter :: string where
  [reason_defs]: "ReasonAllowedNamespaceFilter = ''allowed_namespace_filter''"

definition ReasonAllowedOwningFluxController :: string where
  [reason_defs]: "ReasonAllowedOwningFluxController = ''allowed_owning_flux_controller''"

definition ReasonAllowedBypassAnnotation :: string where
  [reason_defs]: "ReasonAllowedBypassAnnotation = ''allowed_bypass_annotation''"

definition ReasonAllowedReconcileDisabled :: string where
  [reason_defs]: "ReasonAllowedReconcileDisabled = ''allowed_reconcile_disabled''"

definition ReasonAllowedDeletionInProgress :: string where
  [reason_defs]: "ReasonAllowedDeletionInProgress = ''allowed_deletion_in_progress''"

definition ReasonAllowedNamespaceTerminating :: string where
  [reason_defs]: "ReasonAllowedNamespaceTerminating = ''allowed_namespace_terminating''"

definition ReasonAllowedNoFluxManagedFields :: string where
  [reason_defs]: "ReasonAllowedNoFluxManagedFields = ''allowed_no_flux_managed_fields''"

definition ReasonAllowedNoFieldConflict :: string where
  [reason_defs]: "ReasonAllowedNoFieldConflict = ''allowed_no_field_conflict''"

definition ReasonAllowedDriftIgnoredField :: string where
  [reason_defs]: "ReasonAllowedDriftIgnoredField = ''allowed_drift_ignored_field''"

definition ReasonAllowedOwnedResource :: string where
  [reason_defs]: "ReasonAllowedOwnedResource = ''allowed_owned_resource''"

definition ReasonAllowedSystemController :: string where
  [reason_defs]: "ReasonAllowedSystemController = ''allowed_system_controller''"

definition ReasonAllowedNotInOwnerInventory :: string where
  [reason_defs]: "ReasonAllowedNotInOwnerInventory = ''allowed_not_in_owner_inventory''"

definition ReasonAllowedSubresource :: string where
  [reason_defs]: "ReasonAllowedSubresource = ''allowed_subresource''"

definition ReasonAllowedExcludedGroup :: string where
  [reason_defs]: "ReasonAllowedExcludedGroup = ''allowed_excluded_group''"

definition ReasonAllowedUnknownOperation :: string where
  [reason_defs]: "ReasonAllowedUnknownOperation = ''allowed_unknown_operation''"

definition ReasonDeniedMetadataError :: string where
  [reason_defs]: "ReasonDeniedMetadataError = ''denied_metadata_error''"

definition ReasonDeniedParseError :: string where
  [reason_defs]: "ReasonDeniedParseError = ''denied_parse_error''"

definition ReasonDeniedManagedFieldsError :: string where
  [reason_defs]: "ReasonDeniedManagedFieldsError = ''denied_managed_fields_error''"

definition ReasonDeniedManagedFieldsTampered :: string where
  [reason_defs]: "ReasonDeniedManagedFieldsTampered = ''denied_managed_fields_tampered''"

definition ReasonDeniedBypassAnnotationAdded :: string where
  [reason_defs]: "ReasonDeniedBypassAnnotationAdded = ''denied_bypass_annotation_added''"

definition ReasonDeniedCreateFluxLabels :: string where
  [reason_defs]: "ReasonDeniedCreateFluxLabels = ''denied_create_flux_labels''"

definition ReasonDeniedCreateInventoryUnavail :: string where
  [reason_defs]: "ReasonDeniedCreateInventoryUnavail = ''denied_create_inventory_unavailable''"

definition ReasonDeniedDeleteFluxManaged :: string where
  [reason_defs]: "ReasonDeniedDeleteFluxManaged = ''denied_delete_flux_managed''"

definition ReasonDeniedUpdateFluxManaged :: string where
  [reason_defs]: "ReasonDeniedUpdateFluxManaged = ''denied_update_flux_managed_fields''"

definition ReasonDeniedWrongFluxController :: string where
  [reason_defs]: "ReasonDeniedWrongFluxController = ''denied_wrong_flux_controller''"

definition AllDecisionReasons :: "string list" where
  "AllDecisionReasons =
     [ReasonAllowedNotManaged,
      ReasonAllowedNamespaceFilter,
      ReasonAllowedOwningFluxController,
      ReasonAllowedBypassAnnotation,
      ReasonAllowedReconcileDisabled,
      ReasonAllowedDeletionInProgress,
      ReasonAllowedNamespaceTerminating,
      ReasonAllowedNoFluxManagedFields,
      ReasonAllowedNoFieldConflict,
      ReasonAllowedDriftIgnoredField,
      ReasonAllowedOwnedResource,
      ReasonAllowedSystemController,
      ReasonAllowedNotInOwnerInventory,
      ReasonAllowedSubresource,
      ReasonAllowedExcludedGroup,
      ReasonAllowedUnknownOperation,
      ReasonDeniedMetadataError,
      ReasonDeniedParseError,
      ReasonDeniedManagedFieldsError,
      ReasonDeniedManagedFieldsTampered,
      ReasonDeniedBypassAnnotationAdded,
      ReasonDeniedCreateFluxLabels,
      ReasonDeniedCreateInventoryUnavail,
      ReasonDeniedDeleteFluxManaged,
      ReasonDeniedUpdateFluxManaged,
      ReasonDeniedWrongFluxController]"

text \<open>A reason of the contract is an allow or a deny reason, told apart by its prefix.\<close>

definition allow_reason :: "string \<Rightarrow> bool" where
  "allow_reason r = HasPrefix r ''allowed_''"

definition deny_reason :: "string \<Rightarrow> bool" where
  "deny_reason r = HasPrefix r ''denied_''"

lemma operations_distinct [simp]:
  "Create \<noteq> Update" "Create \<noteq> Delete" "Update \<noteq> Delete"
  "Update \<noteq> Create" "Delete \<noteq> Create" "Delete \<noteq> Update"
  by (simp_all add: Create_def Update_def Delete_def)

lemma allow_not_deny: "allow_reason r \<Longrightarrow> \<not> deny_reason r"
  by (auto simp: allow_reason_def deny_reason_def HasPrefix_def prefix_def)

lemma allow_reasons [simp]:
  "allow_reason ReasonAllowedNotManaged"
  "allow_reason ReasonAllowedNamespaceFilter"
  "allow_reason ReasonAllowedOwningFluxController"
  "allow_reason ReasonAllowedBypassAnnotation"
  "allow_reason ReasonAllowedReconcileDisabled"
  "allow_reason ReasonAllowedDeletionInProgress"
  "allow_reason ReasonAllowedNamespaceTerminating"
  "allow_reason ReasonAllowedNoFluxManagedFields"
  "allow_reason ReasonAllowedNoFieldConflict"
  "allow_reason ReasonAllowedDriftIgnoredField"
  "allow_reason ReasonAllowedOwnedResource"
  "allow_reason ReasonAllowedSystemController"
  "allow_reason ReasonAllowedNotInOwnerInventory"
  "allow_reason ReasonAllowedSubresource"
  "allow_reason ReasonAllowedExcludedGroup"
  "allow_reason ReasonAllowedUnknownOperation"
  by (simp_all add: allow_reason_def reason_defs HasPrefix_def)

lemma deny_reasons [simp]:
  "deny_reason ReasonDeniedMetadataError"
  "deny_reason ReasonDeniedParseError"
  "deny_reason ReasonDeniedManagedFieldsError"
  "deny_reason ReasonDeniedManagedFieldsTampered"
  "deny_reason ReasonDeniedBypassAnnotationAdded"
  "deny_reason ReasonDeniedCreateFluxLabels"
  "deny_reason ReasonDeniedCreateInventoryUnavail"
  "deny_reason ReasonDeniedDeleteFluxManaged"
  "deny_reason ReasonDeniedUpdateFluxManaged"
  "deny_reason ReasonDeniedWrongFluxController"
  by (simp_all add: deny_reason_def reason_defs HasPrefix_def)

lemma in_AllDecisionReasons [simp]:
  "ReasonAllowedNotManaged \<in> set AllDecisionReasons"
  "ReasonAllowedNamespaceFilter \<in> set AllDecisionReasons"
  "ReasonAllowedOwningFluxController \<in> set AllDecisionReasons"
  "ReasonAllowedBypassAnnotation \<in> set AllDecisionReasons"
  "ReasonAllowedReconcileDisabled \<in> set AllDecisionReasons"
  "ReasonAllowedDeletionInProgress \<in> set AllDecisionReasons"
  "ReasonAllowedNamespaceTerminating \<in> set AllDecisionReasons"
  "ReasonAllowedNoFluxManagedFields \<in> set AllDecisionReasons"
  "ReasonAllowedNoFieldConflict \<in> set AllDecisionReasons"
  "ReasonAllowedDriftIgnoredField \<in> set AllDecisionReasons"
  "ReasonAllowedOwnedResource \<in> set AllDecisionReasons"
  "ReasonAllowedSystemController \<in> set AllDecisionReasons"
  "ReasonAllowedNotInOwnerInventory \<in> set AllDecisionReasons"
  "ReasonAllowedSubresource \<in> set AllDecisionReasons"
  "ReasonAllowedExcludedGroup \<in> set AllDecisionReasons"
  "ReasonAllowedUnknownOperation \<in> set AllDecisionReasons"
  "ReasonDeniedMetadataError \<in> set AllDecisionReasons"
  "ReasonDeniedParseError \<in> set AllDecisionReasons"
  "ReasonDeniedManagedFieldsError \<in> set AllDecisionReasons"
  "ReasonDeniedManagedFieldsTampered \<in> set AllDecisionReasons"
  "ReasonDeniedBypassAnnotationAdded \<in> set AllDecisionReasons"
  "ReasonDeniedCreateFluxLabels \<in> set AllDecisionReasons"
  "ReasonDeniedCreateInventoryUnavail \<in> set AllDecisionReasons"
  "ReasonDeniedDeleteFluxManaged \<in> set AllDecisionReasons"
  "ReasonDeniedUpdateFluxManaged \<in> set AllDecisionReasons"
  "ReasonDeniedWrongFluxController \<in> set AllDecisionReasons"
  by (simp_all add: AllDecisionReasons_def)

lemma AllDecisionReasons_cases:
  "r \<in> set AllDecisionReasons \<Longrightarrow> allow_reason r \<or> deny_reason r"
  by (auto simp: AllDecisionReasons_def)

lemma distinct_AllDecisionReasons: "distinct AllDecisionReasons"
  by (simp add: AllDecisionReasons_def reason_defs)

end
