(* ===== verification/Kube_Types.thy ===== *)
theory Kube_Types
  imports Complex_Main Reasons
begin

section \<open>Kubernetes data and the third-party code\<close>

text \<open>
  The data the handler receives (an admission request, object metadata, decoded JSON), the
  code outside the repository as one record of functions (\<open>deps\<close>), and the effects: calls
  into the Prometheus vectors and reads through the controller-runtime client.

  JSON values are what \<open>encoding/json\<close> decodes into \<open>interface{}\<close>: a number is a finite
  \<open>float64\<close>, compared by value, hence a rational; an object is a Go map, written as the list
  of its entries in the order one iteration over it visits them (\<open>wf_json\<close>: keys are unique).
\<close>

subsection \<open>JSON values\<close>

datatype json =
    JNull
  | JBool bool
  | JNum rat
  | JStr string
  | JArr "json list"
  | JObj "(string \<times> json) list"

type_synonym json_map = "(string \<times> json) list"

fun wf_json :: "json \<Rightarrow> bool" where
  "wf_json (JArr xs) = list_all wf_json xs"
| "wf_json (JObj m) = (distinct (map fst m) \<and> list_all (\<lambda>kv. wf_json (snd kv)) m)"
| "wf_json _ = True"

abbreviation wf_map :: "json_map \<Rightarrow> bool" where
  "wf_map m \<equiv> wf_json (JObj m)"

subsection \<open>Object metadata and admission requests\<close>

record group_version_kind =
  gvk_Group :: string
  gvk_Version :: string
  gvk_Kind :: string

record group_version_resource =
  gvr_Group :: string
  gvr_Version :: string
  gvr_Resource :: string

record user_info =
  Username :: string
  Groups :: "string list"

record owner_reference =
  or_APIVersion :: string
  or_Kind :: string
  or_Name :: string
  or_Controller :: "bool option"

record managed_fields_entry =
  mf_Manager :: string
  mf_Operation :: string
  mf_FieldsV1 :: "string option"

text \<open>\<open>metav1.ObjectMeta\<close>, the fields the program reads.\<close>

record object_meta =
  om_Name :: string
  om_Namespace :: string
  om_Labels :: string_map
  om_Annotations :: string_map
  om_DeletionTimestamp :: "int option"
  om_OwnerReferences :: "owner_reference list"
  om_ManagedFields :: "managed_fields_entry list"

text \<open>The zero value of \<open>metav1.ObjectMeta\<close>.\<close>

definition zero_object_meta :: object_meta where
  "zero_object_meta =
     \<lparr>om_Name = [], om_Namespace = [], om_Labels = Map.empty, om_Annotations = Map.empty,
      om_DeletionTimestamp = None, om_OwnerReferences = [], om_ManagedFields = []\<rparr>"

text \<open>\<open>admission.Request\<close>; the two objects are their raw bytes.\<close>

record request =
  req_Operation :: string
  req_SubResource :: string
  req_Namespace :: string
  req_Name :: string
  req_Kind :: group_version_kind
  req_Resource :: group_version_resource
  req_UserInfo :: user_info
  req_Object :: string
  req_OldObject :: string

text \<open>
  \<open>admission.Response\<close>: which of controller-runtime's constructors \<open>admission.Allowed\<close>
  and \<open>admission.Denied\<close> built it, the message passed, and the warnings set on it.
\<close>

record response =
  resp_Allowed :: bool
  resp_Message :: string
  resp_Warnings :: "string list"

definition admission_Allowed :: "string \<Rightarrow> response" where
  "admission_Allowed msg = \<lparr>resp_Allowed = True, resp_Message = msg, resp_Warnings = []\<rparr>"

definition admission_Denied :: "string \<Rightarrow> response" where
  "admission_Denied msg = \<lparr>resp_Allowed = False, resp_Message = msg, resp_Warnings = []\<rparr>"

subsection \<open>Third-party code\<close>

text \<open>
  An element of a \<open>fieldpath.Path\<close>.  The program builds field-name elements only; the other
  kinds (list keys, values, indices) occur in sets read from \<open>fieldsV1\<close> and are opaque.
\<close>

datatype 'k path_element = FieldName string | OtherElement 'k

type_synonym 'k field_path = "'k path_element list"

text \<open>
  The functions of code outside the repository, as parameters.  \<open>'s\<close> is the type
  \<open>*fieldpath.Set\<close> of structured-merge-diff.  An error return is \<^const>\<open>None\<close>.
\<close>

record ('s, 'k) fieldset_ops =
  fs_NewSet :: 's
  fs_Insert :: "'k field_path \<Rightarrow> 's \<Rightarrow> 's"
  fs_Union :: "'s \<Rightarrow> 's \<Rightarrow> 's"
  fs_Difference :: "'s \<Rightarrow> 's \<Rightarrow> 's"
  fs_RecursiveDifference :: "'s \<Rightarrow> 's \<Rightarrow> 's"
  fs_Empty :: "'s \<Rightarrow> bool"
  fs_FromJSON :: "string \<Rightarrow> 's option"
  fs_String :: "'s \<Rightarrow> string"

text \<open>
  \<^item> \<open>unmarshal_metadata\<close>, \<open>unmarshal_object\<close>: \<open>json.Unmarshal\<close> into a struct with an
    \<open>ObjectMeta\<close>, and into a \<open>map[string]interface{}\<close>;
  \<^item> \<open>GetControllerOf\<close>: \<open>metav1.GetControllerOf\<close> on the owner references;
  \<^item> \<open>NestedString\<close>, \<open>NestedStringSlice\<close>, \<open>NestedMap\<close>: apimachinery's \<open>unstructured\<close>
    accessors, whose found flag and error every caller discards; \<open>NestedSlice\<close>, where the
    error is looked at;
  \<^item> \<open>regexp_Compile\<close>, \<open>labels_Parse\<close>: a compiled pattern or selector as its match function;
  \<^item> \<open>pattern_order\<close>: the order in which Go's \<open>range\<close> visits the pattern map of the
    \<open>i\<close>-th ignore rule (Go leaves it open).
\<close>

record ('s, 'k) deps = "('s, 'k) fieldset_ops" +
  unmarshal_metadata :: "string \<Rightarrow> object_meta option"
  unmarshal_object :: "string \<Rightarrow> json_map option"
  GetControllerOf :: "owner_reference list \<Rightarrow> owner_reference option"
  NestedString :: "json_map \<Rightarrow> string list \<Rightarrow> string"
  NestedStringSlice :: "json_map \<Rightarrow> string list \<Rightarrow> string list"
  NestedMap :: "json_map \<Rightarrow> string list \<Rightarrow> json_map"
  NestedSlice :: "json_map \<Rightarrow> string list \<Rightarrow> json list option"
  regexp_Compile :: "string \<Rightarrow> (string \<Rightarrow> bool) option"
  labels_Parse :: "string \<Rightarrow> (string_map \<Rightarrow> bool) option"
  pattern_order :: "nat \<Rightarrow> string list"

subsection \<open>The client and the effects of a request\<close>

text \<open>\<open>metav1.PartialObjectMetadata\<close> of a namespace, the two fields the handler reads.\<close>

record namespace_metadata =
  ns_Labels :: string_map
  ns_DeletionTimestamp :: "int option"

text \<open>
  \<open>client.Client\<close>: what the \<open>n\<close>-th \<open>Get\<close> answers for a key under a timeout, \<^const>\<open>None\<close>
  for an error.  The answer may change between two reads: the cache is updated concurrently.
\<close>

record client =
  get_namespace :: "nat \<Rightarrow> int \<Rightarrow> string \<Rightarrow> namespace_metadata option"
  get_unstructured ::
    "nat \<Rightarrow> int \<Rightarrow> group_version_kind \<Rightarrow> string \<Rightarrow> string \<Rightarrow> json_map option"

text \<open>A call on a Prometheus vector: the metric name and the label values.\<close>

datatype metric_event =
    CounterInc string "string list"
  | HistogramObserve string "string list"

record world =
  w_metrics :: "metric_event list"
  w_reads :: nat

end
