(* ===== verification/Field_Sets.thy ===== *)
theory Field_Sets
  imports Kube_Types
begin

section \<open>Field sets: Flux ownership and conflicts (\<open>internal/webhook/fields.go\<close>)\<close>

text \<open>
  The half of \<open>fields.go\<close> that works on \<open>*fieldpath.Set\<close>: the fields a Flux manager
  applied, the conflict of a modified set with them, and the waiver of ignored fields.  The
  set operations belong to structured-merge-diff; the locale \<open>fieldpath_set\<close> states their
  documented behaviour over the set of member paths, and every fact below is proved from it.
  A pointer that may be nil is an \<open>option\<close>.  No set is modified after it has been combined,
  so the sharing between the results of \<open>Union\<close> and its arguments is not observable.
\<close>

subsection \<open>Definitions\<close>

definition FluxKustomizeManager :: string where
  "FluxKustomizeManager = ''kustomize-controller''"

definition FluxHelmManager :: string where
  "FluxHelmManager = ''helm-controller''"

definition fluxManagerPrefixes :: "string list" where
  "fluxManagerPrefixes = [FluxKustomizeManager @ ''/'', FluxHelmManager @ ''/'']"

definition isFluxFieldManager :: "string \<Rightarrow> bool" where
  "isFluxFieldManager manager =
     (manager = FluxKustomizeManager \<or>
      manager = FluxHelmManager \<or>
      HasPrefix manager (fluxManagerPrefixes ! 0) \<or>
      HasPrefix manager (fluxManagerPrefixes ! 1))"

text \<open>\<open>metav1.ManagedFieldsOperationApply\<close>\<close>

definition ManagedFieldsOperationApply :: string where
  "ManagedFieldsOperationApply = ''Apply''"

fun flux_fields_loop ::
    "('s, 'k, 'z) fieldset_ops_scheme \<Rightarrow> managed_fields_entry list \<Rightarrow> 's \<Rightarrow> 's option" where
  "flux_fields_loop D [] result = Some result"
| "flux_fields_loop D (mf # managedFields) result =
     (if mf_Operation mf \<noteq> ManagedFieldsOperationApply then flux_fields_loop D managedFields result
      else if \<not> isFluxFieldManager (mf_Manager mf) then flux_fields_loop D managedFields result
      else
        (case mf_FieldsV1 mf of
           None \<Rightarrow> flux_fields_loop D managedFields result
         | Some raw \<Rightarrow>
             (case fs_FromJSON D raw of
                None \<Rightarrow> None
              | Some fieldSet \<Rightarrow> flux_fields_loop D managedFields (fs_Union D result fieldSet))))"

definition FluxManagedFields ::
    "('s, 'k, 'z) fieldset_ops_scheme \<Rightarrow> managed_fields_entry list \<Rightarrow> 's option" where
  "FluxManagedFields D managedFields = flux_fields_loop D managedFields (fs_NewSet D)"

definition GetConflictingFields ::
    "('s, 'k, 'z) fieldset_ops_scheme \<Rightarrow> 's option \<Rightarrow> 's option \<Rightarrow> 's" where
  "GetConflictingFields D modifiedFields fluxManagedFields =
     (case (modifiedFields, fluxManagedFields) of
        (Some modified, Some flux) \<Rightarrow>
          let fluxUnderModified =
                fs_Difference D flux (fs_RecursiveDifference D flux modified);
              modifiedUnderFlux =
                fs_Difference D modified (fs_RecursiveDifference D modified flux)
          in fs_Union D fluxUnderModified modifiedUnderFlux
      | _ \<Rightarrow> fs_NewSet D)"

definition HasFluxManagedFieldConflict ::
    "('s, 'k, 'z) fieldset_ops_scheme \<Rightarrow> 's option \<Rightarrow> 's option \<Rightarrow> bool" where
  "HasFluxManagedFieldConflict D modifiedFields fluxManagedFields =
     (\<not> fs_Empty D (GetConflictingFields D modifiedFields fluxManagedFields))"

definition WaiveIgnoredConflicts ::
    "('s, 'k, 'z) fieldset_ops_scheme \<Rightarrow> 's option \<Rightarrow> 's option \<Rightarrow> 's" where
  "WaiveIgnoredConflicts D conflict ignoreSet =
     (case conflict of
        None \<Rightarrow> fs_NewSet D
      | Some c \<Rightarrow>
          (case ignoreSet of
             None \<Rightarrow> c
           | Some ig \<Rightarrow> fs_RecursiveDifference D c ig))"

text \<open>The entries \<open>FluxManagedFields\<close> reads, and what it reads from each.\<close>

definition flux_entry :: "managed_fields_entry \<Rightarrow> bool" where
  "flux_entry mf =
     (mf_Operation mf = ManagedFieldsOperationApply \<and> isFluxFieldManager (mf_Manager mf))"

definition covered :: "'k field_path set \<Rightarrow> 'k field_path \<Rightarrow> bool" where
  "covered S p = (\<exists>q\<in>S. prefix q p)"

subsection \<open>The documented behaviour of \<open>fieldpath.Set\<close>\<close>

text \<open>
  \<open>members\<close> reads the paths of a set.  The empty path identifies the whole object and is
  never tracked.  \<open>RecursiveDifference\<close> also removes what lies below a removed path.
\<close>

locale fieldpath_set =
  fixes D :: "('s, 'k, 'z) fieldset_ops_scheme"
    and members :: "'s \<Rightarrow> 'k field_path set"
  assumes members_NewSet: "members (fs_NewSet D) = {}"
    and members_Insert: "p \<noteq> [] \<Longrightarrow> members (fs_Insert D p s) = insert p (members s)"
    and members_Insert_root: "members (fs_Insert D [] s) = members s"
    and members_Union: "members (fs_Union D a b) = members a \<union> members b"
    and members_Difference: "members (fs_Difference D a b) = members a - members b"
    and members_RecursiveDifference:
      "members (fs_RecursiveDifference D a b) = {p \<in> members a. \<not> covered (members b) p}"
    and Empty_iff: "fs_Empty D s \<longleftrightarrow> members s = {}"
begin

lemmas members_simps = members_NewSet members_Insert members_Insert_root members_Union
  members_Difference members_RecursiveDifference Empty_iff

text \<open>A conflict: Flux paths at or below a modified path, modified paths at or below a Flux path.\<close>

lemma members_GetConflictingFields:
  "members (GetConflictingFields D (Some m) (Some f)) =
     {p \<in> members f. covered (members m) p} \<union> {p \<in> members m. covered (members f) p}"
  by (auto simp: GetConflictingFields_def members_simps Let_def)

lemma no_conflict_iff:
  "fs_Empty D (GetConflictingFields D (Some m) (Some f)) \<longleftrightarrow>
     (\<forall>p\<in>members m. \<forall>q\<in>members f. \<not> prefix p q \<and> \<not> prefix q p)"
  by (auto simp: Empty_iff members_GetConflictingFields covered_def)

lemma HasFluxManagedFieldConflict_iff:
  "HasFluxManagedFieldConflict D (Some m) (Some f) \<longleftrightarrow>
     (\<exists>p\<in>members m. \<exists>q\<in>members f. prefix p q \<or> prefix q p)"
  by (auto simp: HasFluxManagedFieldConflict_def no_conflict_iff)

lemma members_WaiveIgnoredConflicts:
  "members (WaiveIgnoredConflicts D (Some c) (Some ig)) =
     {p \<in> members c. \<not> covered (members ig) p}"
  by (simp add: WaiveIgnoredConflicts_def members_RecursiveDifference)

text \<open>Only the empty set waives nothing; a larger ignore set waives more.\<close>

lemma WaiveIgnoredConflicts_antimono:
  "members ig \<subseteq> members ig' \<Longrightarrow>
     members (WaiveIgnoredConflicts D (Some c) (Some ig')) \<subseteq>
     members (WaiveIgnoredConflicts D (Some c) (Some ig))"
  by (auto simp: members_WaiveIgnoredConflicts covered_def)

lemma flux_fields_loop_None:
  "flux_fields_loop D mfs r = None \<longleftrightarrow>
     (\<exists>mf\<in>set mfs. flux_entry mf \<and> (\<exists>raw. mf_FieldsV1 mf = Some raw \<and> fs_FromJSON D raw = None))"
  by (induction D mfs r rule: flux_fields_loop.induct)
    (auto simp: flux_entry_def split: option.splits if_splits)

lemma flux_fields_loop_Some:
  "flux_fields_loop D mfs r = Some r' \<Longrightarrow>
     members r' = members r \<union>
       {p. \<exists>mf\<in>set mfs. flux_entry mf \<and>
          (\<exists>raw fieldSet. mf_FieldsV1 mf = Some raw \<and> fs_FromJSON D raw = Some fieldSet \<and>
             p \<in> members fieldSet)}"
  by (induction mfs arbitrary: r)
    (auto simp: flux_entry_def members_Union split: option.splits if_splits)

end

subsection \<open>A reference implementation of the interface\<close>

text \<open>
  Lists of paths implement the documented behaviour; the set's own parser and printer and the
  rest of the third-party code stay parameters.  Witnesses evaluate the model on it.
\<close>

definition list_insert :: "'k field_path \<Rightarrow> 'k field_path list \<Rightarrow> 'k field_path list" where
  "list_insert p s = (if p = [] then s else List.insert p s)"

definition list_recdiff :: "'k field_path list \<Rightarrow> 'k field_path list \<Rightarrow> 'k field_path list" where
  "list_recdiff a b = filter (\<lambda>p. \<not> list_ex (\<lambda>q. prefix q p) b) a"

definition list_fieldset ::
    "(string \<Rightarrow> 'k field_path list option) \<Rightarrow> ('k field_path list \<Rightarrow> string) \<Rightarrow> 'z \<Rightarrow>
       ('k field_path list, 'k, 'z) fieldset_ops_scheme" where
  "list_fieldset fromJSON toString rest =
     \<lparr>fs_NewSet = [],
      fs_Insert = list_insert,
      fs_Union = List.union,
      fs_Difference = (\<lambda>a b. filter (\<lambda>p. \<not> List.member b p) a),
      fs_RecursiveDifference = list_recdiff,
      fs_Empty = List.null,
      fs_FromJSON = fromJSON,
      fs_String = toString,
      \<dots> = rest\<rparr>"

interpretation list_fs: fieldpath_set "list_fieldset fromJSON toString rest" set
  for fromJSON :: "string \<Rightarrow> 'k field_path list option" and toString rest
  by unfold_locales
    (auto simp: list_fieldset_def list_insert_def list_recdiff_def covered_def list_ex_iff)

subsection \<open>Lemmas\<close>

lemma isFluxFieldManager_iff:
  "isFluxFieldManager m \<longleftrightarrow>
     (\<exists>base\<in>{FluxKustomizeManager, FluxHelmManager}. m = base \<or> (\<exists>v. m = base @ ''/'' @ v))"
  by (auto simp: isFluxFieldManager_def fluxManagerPrefixes_def HasPrefix_iff)

text \<open>The same with the names spelled out.\<close>

definition applied_by_flux :: "managed_fields_entry \<Rightarrow> bool" where
  "applied_by_flux mf =
     (mf_Operation mf = ''Apply'' \<and>
      (\<exists>base\<in>{''kustomize-controller'', ''helm-controller''}.
         mf_Manager mf = base \<or> (\<exists>v. mf_Manager mf = base @ ''/'' @ v)))"

lemma flux_entry_iff: "flux_entry mf \<longleftrightarrow> applied_by_flux mf"
  by (simp add: flux_entry_def applied_by_flux_def isFluxFieldManager_iff ManagedFieldsOperationApply_def
      FluxKustomizeManager_def FluxHelmManager_def)

lemma covered_mono: "S \<subseteq> T \<Longrightarrow> covered S p \<Longrightarrow> covered T p"
  by (auto simp: covered_def)

lemma covered_prefix: "covered S p \<Longrightarrow> prefix p q \<Longrightarrow> covered S q"
  unfolding covered_def using prefix_order.trans by blast

lemma covered_self [intro]: "p \<in> S \<Longrightarrow> covered S p"
  by (auto simp: covered_def)

lemma covered_empty [simp]: "\<not> covered {} p"
  by (simp add: covered_def)

end
