(* ===== verification/Json_Diff.thy ===== *)
theory Json_Diff
  imports Field_Sets "HOL-Library.Finite_Map"
begin

section \<open>The schema-blind value diff (\<open>internal/webhook/fields.go\<close>)\<close>

text \<open>
  \<open>ComputeFieldDiff\<close> and its helpers.  The set is threaded through in place of the
  mutated \<open>*fieldpath.Set\<close>.  The two \<open>range\<close> loops of \<open>diffMaps\<close> are
  \<open>diff_new_entries\<close> and \<open>diff_removed_keys\<close>.

  In the default branches the source compares two interfaces with \<open>==\<close>.  There the left
  operand is never a map or a slice, so Go compares operands of different dynamic types as
  unequal and never panics on an uncomparable type; structural equality is that comparison.
\<close>

definition maxDiffDepth :: nat where "maxDiffDepth = 50"

definition copyAppend :: "'k field_path \<Rightarrow> 'k path_element \<Rightarrow> 'k field_path" where
  "copyAppend pre elem = pre @ [elem]"

text \<open>\<open>valuesEqual\<close> and \<open>slicesEqual\<close>, with their loops over elements and entries.\<close>

function (sequential) valuesEqual :: "json \<Rightarrow> json \<Rightarrow> bool"
  and slicesEqual :: "json list \<Rightarrow> json list \<Rightarrow> bool"
  and elements_equal :: "json list \<Rightarrow> json list \<Rightarrow> bool"
  and entries_equal :: "json_map \<Rightarrow> json_map \<Rightarrow> bool" where
  "valuesEqual (JObj a) b =
     (case b of
        JObj b' \<Rightarrow> if length a \<noteq> length b' then False else entries_equal a b'
      | _ \<Rightarrow> False)"
| "valuesEqual (JArr a) b = (case b of JArr b' \<Rightarrow> slicesEqual a b' | _ \<Rightarrow> False)"
| "valuesEqual a b = (a = b)"
| "slicesEqual a b = (if length a \<noteq> length b then False else elements_equal a b)"
| "elements_equal (x # a) (y # b) = (if \<not> valuesEqual x y then False else elements_equal a b)"
| "elements_equal a b = True"
| "entries_equal [] b = True"
| "entries_equal ((k, v) # a) b =
     (case map_of b k of
        None \<Rightarrow> False
      | Some bv \<Rightarrow> if \<not> valuesEqual v bv then False else entries_equal a b)"
  by pat_completeness auto
termination
  by (relation "measure (\<lambda>x. case x of
        Inl (Inl (a, b)) \<Rightarrow> 2 * size a
      | Inl (Inr (a, b)) \<Rightarrow> Suc (2 * size_list size a)
      | Inr (Inl (a, b)) \<Rightarrow> 2 * size_list size a
      | Inr (Inr (a, b)) \<Rightarrow> 2 * size_list (size_prod (\<lambda>_. 0) size) a)") auto

text \<open>\<open>diffMaps\<close>, its two loops, and \<open>diffValues\<close>.\<close>

fun diff_removed_keys ::
    "('s, 'k, 'z) fieldset_ops_scheme \<Rightarrow> json_map \<Rightarrow> json_map \<Rightarrow>
       'k field_path \<Rightarrow> 's \<Rightarrow> 's" where
  "diff_removed_keys D [] newMap pre acc = acc"
| "diff_removed_keys D ((key, _) # oldEntries) newMap pre acc =
     (case map_of newMap key of
        None \<Rightarrow>
          diff_removed_keys D oldEntries newMap pre
            (fs_Insert D (copyAppend pre (FieldName key)) acc)
      | Some _ \<Rightarrow> diff_removed_keys D oldEntries newMap pre acc)"

function (sequential) diffMaps ::
    "('s, 'k, 'z) fieldset_ops_scheme \<Rightarrow> json_map \<Rightarrow> json_map \<Rightarrow>
       'k field_path \<Rightarrow> 's \<Rightarrow> nat \<Rightarrow> 's"
  and diff_new_entries ::
    "('s, 'k, 'z) fieldset_ops_scheme \<Rightarrow> json_map \<Rightarrow> json_map \<Rightarrow>
       'k field_path \<Rightarrow> 's \<Rightarrow> nat \<Rightarrow> 's"
  and diffValues ::
    "('s, 'k, 'z) fieldset_ops_scheme \<Rightarrow> json \<Rightarrow> json \<Rightarrow>
       'k field_path \<Rightarrow> 's \<Rightarrow> nat \<Rightarrow> 's" where
  "diffMaps D oldMap newMap pre acc depth =
     (if depth \<ge> maxDiffDepth then acc
      else
        let acc = diff_new_entries D oldMap newMap pre acc depth in
        diff_removed_keys D oldMap newMap pre acc)"
| "diff_new_entries D oldMap [] pre acc depth = acc"
| "diff_new_entries D oldMap ((key, newVal) # newEntries) pre acc depth =
     (let currentPath = copyAppend pre (FieldName key) in
      case map_of oldMap key of
        None \<Rightarrow>
          diff_new_entries D oldMap newEntries pre (fs_Insert D currentPath acc) depth
      | Some oldVal \<Rightarrow>
          diff_new_entries D oldMap newEntries pre
            (diffValues D oldVal newVal currentPath acc (depth + 1)) depth)"
| "diffValues D (JObj oldTyped) (JObj newTyped) path acc depth =
     diffMaps D oldTyped newTyped path acc depth"
| "diffValues D (JArr oldTyped) (JArr newTyped) path acc depth =
     (if \<not> slicesEqual oldTyped newTyped then fs_Insert D path acc else acc)"
| "diffValues D (JObj _) newVal path acc depth = fs_Insert D path acc"
| "diffValues D (JArr _) newVal path acc depth = fs_Insert D path acc"
| "diffValues D oldVal newVal path acc depth =
     (if oldVal = newVal then acc else fs_Insert D path acc)"
  by pat_completeness auto
termination
  by (relation "measure (\<lambda>x. case x of
        Inl (D, a, b, p, s, d) \<Rightarrow> Suc (2 * size_list (size_prod (\<lambda>_. 0) size) b)
      | Inr (Inl (D, a, b, p, s, d)) \<Rightarrow> 2 * size_list (size_prod (\<lambda>_. 0) size) b
      | Inr (Inr (D, a, b, p, s, d)) \<Rightarrow> 2 * size b)") auto

text \<open>A nil operand is \<^const>\<open>None\<close>; otherwise the operand is the object's content.\<close>

definition ComputeFieldDiff ::
    "('s, 'k, 'z) fieldset_ops_scheme \<Rightarrow> json_map option \<Rightarrow> json_map option \<Rightarrow> 's" where
  "ComputeFieldDiff D oldObj newObj =
     (case (oldObj, newObj) of
        (Some oldMap, Some newMap) \<Rightarrow> diffMaps D oldMap newMap [] (fs_NewSet D) 0
      | _ \<Rightarrow> fs_NewSet D)"

subsection \<open>What the diff should say\<close>

text \<open>
  The value a decoded JSON tree stands for: objects as finite maps, so that the order in
  which a Go map is visited plays no role.
\<close>

datatype jvalue =
    VNull
  | VBool bool
  | VNum rat
  | VStr string
  | VArr "jvalue list"
  | VObj "(string, jvalue) fmap"

primrec abs_json :: "json \<Rightarrow> jvalue" where
  "abs_json JNull = VNull"
| "abs_json (JBool b) = VBool b"
| "abs_json (JNum n) = VNum n"
| "abs_json (JStr s) = VStr s"
| "abs_json (JArr xs) = VArr (map abs_json xs)"
| "abs_json (JObj m) = VObj (fmap_of_list (map (map_prod id abs_json) m))"

text \<open>
  \<open>differs a b ks\<close>: following the keys \<open>ks\<close> through objects on both sides ends at a field
  that only one side has, or at two values that are not both objects and are not equal.
\<close>

fun differs :: "json \<Rightarrow> json \<Rightarrow> string list \<Rightarrow> bool" where
  "differs (JObj a) (JObj b) ks =
     (case ks of
        [] \<Rightarrow> False
      | k # ks' \<Rightarrow>
          (case (map_of a k, map_of b k) of
             (Some x, Some y) \<Rightarrow> differs x y ks'
           | (None, None) \<Rightarrow> False
           | _ \<Rightarrow> ks' = []))"
| "differs a b ks = (ks = [] \<and> \<not> valuesEqual a b)"

abbreviation names :: "string list \<Rightarrow> 'k field_path" where
  "names ks \<equiv> map FieldName ks"

definition diff_paths :: "json \<Rightarrow> json \<Rightarrow> 'k field_path \<Rightarrow> nat \<Rightarrow> 'k field_path set" where
  "diff_paths a b pre depth =
     {pre @ names ks | ks. differs a b ks \<and> length ks + depth \<le> maxDiffDepth}"

definition entry_paths ::
    "json_map \<Rightarrow> string \<Rightarrow> json \<Rightarrow> 'k field_path \<Rightarrow> nat \<Rightarrow> 'k field_path set" where
  "entry_paths a k v pre depth =
     (case map_of a k of
        None \<Rightarrow> {copyAppend pre (FieldName k)}
      | Some x \<Rightarrow> diff_paths x v (copyAppend pre (FieldName k)) (Suc depth))"

definition removed_paths :: "json_map \<Rightarrow> json_map \<Rightarrow> 'k field_path \<Rightarrow> 'k field_path set" where
  "removed_paths a b pre =
     (\<lambda>k. copyAppend pre (FieldName k)) ` {k \<in> fst ` set a. map_of b k = None}"

text \<open>The value at a path of keys, and how deep objects are nested in each other.\<close>

fun get_path :: "json \<Rightarrow> string list \<Rightarrow> json option" where
  "get_path j [] = Some j"
| "get_path (JObj m) (k # ks) =
     (case map_of m k of None \<Rightarrow> None | Some v \<Rightarrow> get_path v ks)"
| "get_path j (k # ks) = None"

fun object_depth :: "json \<Rightarrow> nat" where
  "object_depth (JObj m) = Suc (foldr (\<lambda>kv n. max (object_depth (snd kv)) n) m 0)"
| "object_depth j = 0"

subsection \<open>Equality of values\<close>


lemma abs_json_JObj_lookup:
  "fmlookup (fmap_of_list (map (map_prod id abs_json) m)) k = map_option abs_json (map_of m k)"
  by (induction m) (auto simp: fmlookup_of_list)

lemma elements_equal_iff:
  "length xs = length ys \<Longrightarrow> elements_equal xs ys \<longleftrightarrow> list_all2 valuesEqual xs ys"
  by (induction xs ys rule: list_induct2) auto

lemma slicesEqual_iff: "slicesEqual xs ys \<longleftrightarrow> list_all2 valuesEqual xs ys"
  by (auto simp: elements_equal_iff list_all2_lengthD)

lemma entries_equal_iff:
  "entries_equal a b \<longleftrightarrow>
     (\<forall>(k, v)\<in>set a. \<exists>bv. map_of b k = Some bv \<and> valuesEqual v bv)"
  by (induction a) (auto split: option.splits if_splits)

text \<open>Two key-unique maps of the same size, one covered by the other, have the same keys.\<close>

lemma covered_same_keys:
  assumes "distinct (map fst a)" and "distinct (map fst b)" and "length a = length b"
    and "fst ` set a \<subseteq> fst ` set b"
  shows "fst ` set a = fst ` set b"
proof (rule card_subset_eq)
  show "card (fst ` set a) = card (fst ` set b)"
    using assms distinct_card [of "map fst a"] distinct_card [of "map fst b"] by simp
qed (use assms in auto)

lemma valuesEqual_abs:
  "wf_json a \<Longrightarrow> wf_json b \<Longrightarrow> valuesEqual a b \<longleftrightarrow> abs_json a = abs_json b"
proof (induction a arbitrary: b)
  case (JArr xs)
  show ?case
  proof (cases b)
    case (JArr ys)
    have "list_all2 valuesEqual xs ys \<longleftrightarrow> map abs_json xs = map abs_json ys"
      using JArr.IH JArr.prems JArr
      by (auto simp: list_all_iff list_all2_conv_all_nth list_eq_iff_nth_eq)
    then show ?thesis by (simp add: JArr slicesEqual_iff del: slicesEqual.simps)
  qed (simp_all)
next
  case (JObj m)
  show ?case
  proof (cases b)
    case b: (JObj m')
    have dist: "distinct (map fst m)" "distinct (map fst m')" using JObj.prems b by auto
    have IH: "valuesEqual v v' \<longleftrightarrow> abs_json v = abs_json v'"
      if "(k, v) \<in> set m" "(k', v') \<in> set m'" for k v k' v'
      using that JObj.prems b by (intro JObj.IH [of "(k, v)"]) (auto simp: list_all_iff snds.simps)
    have "length m = length m' \<and> entries_equal m m' \<longleftrightarrow>
        (\<forall>k. map_option abs_json (map_of m k) = map_option abs_json (map_of m' k))"
      (is "?L \<longleftrightarrow> ?R")
    proof
      assume L: ?L
      show ?R
      proof
        fix k
        have "fst ` set m \<subseteq> fst ` set m'"
          using L by (force simp: entries_equal_iff dest: map_of_SomeD)
        with dist L have keys: "fst ` set m = fst ` set m'" by (intro covered_same_keys) auto
        show "map_option abs_json (map_of m k) = map_option abs_json (map_of m' k)"
        proof (cases "map_of m k")
          case None
          then have "map_of m' k = None" using keys by (simp add: map_of_eq_None_iff)
          with None show ?thesis by simp
        next
          case (Some v)
          then obtain bv where "map_of m' k = Some bv" "valuesEqual v bv"
            using L by (force simp: entries_equal_iff dest: map_of_SomeD)
          with Some IH show ?thesis by (auto dest!: map_of_SomeD)
        qed
      qed
    next
      assume R: ?R
      have "dom (map_of m) = dom (map_of m')"
        using R by (auto simp: dom_def) (metis map_option_eq_Some option.distinct(1) option.exhaust)+
      then have "fst ` set m = fst ` set m'" by (simp add: dom_map_of_conv_image_fst)
      then have len: "length m = length m'"
        using dist distinct_card [of "map fst m"] distinct_card [of "map fst m'"] by simp
      have "\<exists>bv. map_of m' k = Some bv \<and> valuesEqual v bv" if kv: "(k, v) \<in> set m" for k v
      proof -
        from kv dist have "map_of m k = Some v" by simp
        with R obtain bv where "map_of m' k = Some bv" "abs_json v = abs_json bv"
          by (metis map_option_eq_Some option.simps(9))
        with IH kv show ?thesis by (auto dest: map_of_SomeD)
      qed
      with len show ?L by (auto simp: entries_equal_iff)
    qed
    then show ?thesis
      by (simp add: b) (metis abs_json_JObj_lookup fmap_ext)
  qed (simp_all)
qed (case_tac b; simp)+

subsection \<open>The paths a diff records\<close>


lemma copyAppend_not_Nil [simp]: "copyAppend pre e \<noteq> []"
  by (simp add: copyAppend_def)

lemma diff_paths_leaf:
  "\<not> (\<exists>a' b'. a = JObj a' \<and> b = JObj b') \<Longrightarrow> depth \<le> maxDiffDepth \<Longrightarrow>
     diff_paths a b path depth = (if valuesEqual a b then {} else {path})"
proof -
  assume "\<not> (\<exists>a' b'. a = JObj a' \<and> b = JObj b')"
  then have "differs a b ks \<longleftrightarrow> ks = [] \<and> \<not> valuesEqual a b" for ks
    by (cases a; cases b) auto
  moreover assume "depth \<le> maxDiffDepth"
  ultimately show ?thesis by (auto simp: diff_paths_def)
qed

lemma diff_paths_deep: "depth = maxDiffDepth \<Longrightarrow> diff_paths (JObj a) (JObj b) pre depth = {}"
  by (auto simp: diff_paths_def)

lemma differs_objects_Nil [simp]: "\<not> differs (JObj a) (JObj b) []"
  by simp

lemma differs_objects_Cons:
  "differs (JObj a) (JObj b) (k # ks) \<longleftrightarrow>
     (case (map_of a k, map_of b k) of
        (Some x, Some y) \<Rightarrow> differs x y ks
      | (None, None) \<Rightarrow> False
      | _ \<Rightarrow> ks = [])"
  by simp

declare differs.simps(1) [simp del]

lemma diff_paths_objects_iff:
  "p \<in> diff_paths (JObj a) (JObj b) pre depth \<longleftrightarrow>
     (\<exists>k ks. p = pre @ names (k # ks) \<and> differs (JObj a) (JObj b) (k # ks) \<and>
        Suc (length ks + depth) \<le> maxDiffDepth)"
  (is "?L \<longleftrightarrow> ?R")
proof
  assume ?L
  then obtain ks where ks: "p = pre @ names ks" "differs (JObj a) (JObj b) ks"
      "length ks + depth \<le> maxDiffDepth"
    by (auto simp: diff_paths_def)
  then show ?R by (cases ks) auto
next
  assume ?R
  then obtain k ks where "p = pre @ names (k # ks)" "differs (JObj a) (JObj b) (k # ks)"
      "Suc (length ks + depth) \<le> maxDiffDepth"
    by blast
  then show ?L unfolding diff_paths_def by (intro CollectI exI [of _ "k # ks"]) simp
qed

lemma diff_paths_objects:
  assumes "depth < maxDiffDepth" and "distinct (map fst b)"
  shows "diff_paths (JObj a) (JObj b) pre depth =
     (\<Union>(k, v)\<in>set b. entry_paths a k v pre depth) \<union> removed_paths a b pre"
    (is "?L = ?E \<union> ?R")
proof (intro equalityI subsetI)
  fix p assume "p \<in> ?L"
  then obtain k ks where p: "p = pre @ names (k # ks)"
    and d: "differs (JObj a) (JObj b) (k # ks)" and len: "Suc (length ks + depth) \<le> maxDiffDepth"
    by (auto simp: diff_paths_objects_iff)
  show "p \<in> ?E \<union> ?R"
  proof (cases "map_of b k")
    case None
    with d have "map_of a k \<noteq> None" "ks = []"
      by (auto simp: differs_objects_Cons split: option.splits)
    then show ?thesis using None p
      by (auto simp: removed_paths_def copyAppend_def map_of_eq_None_iff)
  next
    case (Some v)
    then have kv: "(k, v) \<in> set b" by (rule map_of_SomeD)
    have "p \<in> entry_paths a k v pre depth"
      using Some d p len
      by (auto simp: differs_objects_Cons entry_paths_def diff_paths_def copyAppend_def
          split: option.splits)
    with kv show ?thesis by blast
  qed
next
  fix p assume "p \<in> ?E \<union> ?R"
  then consider (E) k v where "(k, v) \<in> set b" "p \<in> entry_paths a k v pre depth"
    | (R) "p \<in> ?R" by blast
  then show "p \<in> ?L"
  proof cases
    case E
    with assms(2) have b: "map_of b k = Some v" by simp
    show ?thesis
    proof (cases "map_of a k")
      case None
      with E(2) b assms(1) show ?thesis
        unfolding diff_paths_objects_iff
        by (intro exI [of _ k] exI [of _ "[]"])
          (auto simp: differs_objects_Cons entry_paths_def copyAppend_def)
    next
      case (Some x)
      with E(2) obtain ks where "p = copyAppend pre (FieldName k) @ names ks" "differs x v ks"
          "length ks + Suc depth \<le> maxDiffDepth"
        by (auto simp: entry_paths_def diff_paths_def)
      with Some b show ?thesis
        unfolding diff_paths_objects_iff
        by (intro exI [of _ k] exI [of _ ks]) (auto simp: differs_objects_Cons copyAppend_def)
    qed
  next
    case R
    then obtain k where "p = pre @ names [k]" "map_of b k = None" "map_of a k \<noteq> None"
      by (auto simp: removed_paths_def copyAppend_def map_of_eq_None_iff)
    with assms(1) show ?thesis
      unfolding diff_paths_objects_iff
      by (intro exI [of _ k] exI [of _ "[]"]) (auto simp: differs_objects_Cons)
  qed
qed

context fieldpath_set
begin

lemma members_diff_removed_keys:
  "members (diff_removed_keys D a b pre acc) = members acc \<union> removed_paths a b pre"
proof (induction a arbitrary: acc)
  case Nil
  then show ?case by (simp add: removed_paths_def)
next
  case (Cons e a)
  obtain k v where e: "e = (k, v)" by (cases e)
  have "removed_paths (e # a) b pre =
      (if map_of b k = None then {copyAppend pre (FieldName k)} else {}) \<union> removed_paths a b pre"
    by (auto simp: removed_paths_def e)
  with Cons.IH show ?case by (auto simp: e members_simps split: option.splits)
qed

text \<open>
  The whole recursion: maps, the loop over the new entries, and values.  The set is rebound
  as \<open>D'\<close> only to keep it fixed in the induction.
\<close>

lemma members_diff_all:
  "D' = D \<Longrightarrow> wf_map a \<Longrightarrow> wf_map b \<Longrightarrow> depth \<le> maxDiffDepth \<Longrightarrow>
     members (diffMaps D' a b pre acc depth) =
       members acc \<union> diff_paths (JObj a) (JObj b) pre depth"
  "D' = D \<Longrightarrow> wf_map a \<Longrightarrow> wf_map es \<Longrightarrow> depth < maxDiffDepth \<Longrightarrow>
     members (diff_new_entries D' a es pre acc depth) =
       members acc \<union> (\<Union>(k, v)\<in>set es. entry_paths a k v pre depth)"
  "D' = D \<Longrightarrow> wf_json x \<Longrightarrow> wf_json y \<Longrightarrow> path \<noteq> [] \<Longrightarrow> depth \<le> maxDiffDepth \<Longrightarrow>
     members (diffValues D' x y path acc depth) =
       members acc \<union> diff_paths x y path depth"
proof (induction D' a b pre acc depth and D' a es pre acc depth and D' x y path acc depth
    rule: diffMaps_diff_new_entries_diffValues.induct)
  case (1 D' a b pre acc depth)
  show ?case
  proof (cases "maxDiffDepth \<le> depth")
    case True
    with 1 show ?thesis by (simp add: diff_paths_deep)
  next
    case False
    with 1 have "members (diff_new_entries D a b pre acc depth) =
        members acc \<union> (\<Union>(k, v)\<in>set b. entry_paths a k v pre depth)"
      by simp
    with False 1 show ?thesis
      by (auto simp: members_diff_removed_keys diff_paths_objects Let_def)
  qed
next
  case (2 D' a pre acc depth)
  then show ?case by simp
next
  case (3 D' a key newVal es pre acc depth)
  show ?case
  proof (cases "map_of a key")
    case None
    with 3 show ?thesis by (auto simp: entry_paths_def members_simps)
  next
    case (Some oldVal)
    with 3 have "wf_json oldVal" by (auto simp: list_all_iff dest!: map_of_SomeD)
    with Some 3 show ?thesis by (auto simp: entry_paths_def)
  qed
qed (auto simp: diff_paths_leaf members_simps simp del: slicesEqual.simps)

lemma members_ComputeFieldDiff:
  assumes "wf_map old" and "wf_map new"
  shows "members (ComputeFieldDiff D (Some old) (Some new)) =
     {names ks | ks. differs (JObj old) (JObj new) ks \<and> length ks \<le> maxDiffDepth}"
  using members_diff_all(1) [OF refl assms, of 0]
  by (simp add: ComputeFieldDiff_def members_NewSet diff_paths_def)

end

subsection \<open>Differences and values\<close>


lemma wf_map_of: "wf_map m \<Longrightarrow> map_of m k = Some v \<Longrightarrow> wf_json v"
  by (auto simp: list_all_iff dest!: map_of_SomeD)

lemma abs_json_objects:
  "abs_json (JObj a) = abs_json (JObj b) \<longleftrightarrow>
     (\<forall>k. map_option abs_json (map_of a k) = map_option abs_json (map_of b k))"
  by (simp add: abs_json_JObj_lookup [symmetric]) (metis fmap_ext)

text \<open>The difference depends on the values only, not on the order of map entries.\<close>

lemma differs_abs_cong:
  "wf_json a \<Longrightarrow> wf_json a' \<Longrightarrow> wf_json b \<Longrightarrow> wf_json b' \<Longrightarrow>
     abs_json a = abs_json a' \<Longrightarrow> abs_json b = abs_json b' \<Longrightarrow>
     differs a b ks = differs a' b' ks"
proof (induction ks arbitrary: a a' b b')
  case Nil
  have obj: "(\<exists>m. x = JObj m) \<longleftrightarrow> (\<exists>m. x' = JObj m)" if "abs_json x = abs_json x'" for x x'
    using that by (cases x; cases x') auto
  show ?case
  proof (cases "(\<exists>m. a = JObj m) \<and> (\<exists>m. b = JObj m)")
    case True
    with obj [OF Nil.prems(5)] obj [OF Nil.prems(6)] show ?thesis by auto
  next
    case False
    then have "differs a b [] \<longleftrightarrow> \<not> valuesEqual a b" by (cases a; cases b) auto
    moreover from False obj [OF Nil.prems(5)] obj [OF Nil.prems(6)]
    have "differs a' b' [] \<longleftrightarrow> \<not> valuesEqual a' b'" by (cases a'; cases b') auto
    ultimately show ?thesis using Nil.prems by (simp add: valuesEqual_abs)
  qed
next
  case (Cons k ks)
  show ?case
  proof (cases "(\<exists>m. a = JObj m) \<and> (\<exists>m. b = JObj m)")
    case True
    then obtain ma mb where ab: "a = JObj ma" "b = JObj mb" by auto
    with Cons.prems obtain ma' mb' where ab': "a' = JObj ma'" "b' = JObj mb'"
      by (cases a'; cases b') auto
    have look: "map_option abs_json (map_of ma k) = map_option abs_json (map_of ma' k)"
      "map_option abs_json (map_of mb k) = map_option abs_json (map_of mb' k)"
      using Cons.prems(5,6) unfolding ab ab' abs_json_objects by simp_all
    show ?thesis
    proof (cases "map_of ma k"; cases "map_of mb k")
      fix x y assume xy: "map_of ma k = Some x" "map_of mb k = Some y"
      with look obtain x' y' where xy': "map_of ma' k = Some x'" "map_of mb' k = Some y'"
        and eq: "abs_json x = abs_json x'" "abs_json y = abs_json y'"
        by (auto simp: map_option_eq_Some dest!: sym [of "Some _"])
      have "differs x y ks = differs x' y' ks"
        using Cons.prems(1-4) ab ab' xy xy' eq
        by (intro Cons.IH) (blast intro: wf_map_of)+
      with xy xy' show ?thesis by (simp add: ab ab' differs_objects_Cons)
    qed (use look in \<open>auto simp: ab ab' differs_objects_Cons map_option_eq_Some
        dest!: sym [of None] sym [of "Some _"]\<close>)
  next
    case False
    then have "\<not> differs a b (k # ks)" by (cases a; cases b) auto
    moreover have "\<not> differs a' b' (k # ks)"
      using False Cons.prems(5,6) by (cases a; cases a'; cases b; cases b') auto
    ultimately show ?thesis by simp
  qed
qed

text \<open>Two values differ somewhere exactly when they are not equal.\<close>

lemma differs_equal: "wf_json a \<Longrightarrow> wf_json b \<Longrightarrow> abs_json a = abs_json b \<Longrightarrow> \<not> differs a b ks"
proof (induction ks arbitrary: a b)
  case Nil
  then show ?case by (cases a; cases b) (auto simp: valuesEqual_abs simp del: valuesEqual.simps)
next
  case (Cons k ks)
  show ?case
  proof (cases "(\<exists>m. a = JObj m) \<and> (\<exists>m. b = JObj m)")
    case True
    then obtain ma mb where ab: "a = JObj ma" "b = JObj mb" by auto
    have look: "map_option abs_json (map_of ma k) = map_option abs_json (map_of mb k)"
      using Cons.prems(3) unfolding ab abs_json_objects by simp
    show ?thesis
    proof (cases "map_of ma k")
      case None
      with look show ?thesis by (simp add: ab differs_objects_Cons)
    next
      case (Some x)
      with look obtain y where y: "map_of mb k = Some y" "abs_json x = abs_json y"
        by (cases "map_of mb k") auto
      with Some Cons.prems Cons.IH [of x y] ab wf_map_of show ?thesis
        by (auto simp: differs_objects_Cons)
    qed
  next
    case False
    then show ?thesis by (cases a; cases b) auto
  qed
qed

lemma differs_ex:
  "wf_json a \<Longrightarrow> wf_json b \<Longrightarrow> abs_json a \<noteq> abs_json b \<Longrightarrow> \<exists>ks. differs a b ks"
proof (induction a arbitrary: b)
  case (JObj m)
  show ?case
  proof (cases b)
    case b: (JObj m')
    with JObj.prems obtain k where
      k: "map_option abs_json (map_of m k) \<noteq> map_option abs_json (map_of m' k)"
      unfolding b abs_json_objects by blast
    show ?thesis
    proof (cases "map_of m k"; cases "map_of m' k")
      fix x y assume xy: "map_of m k = Some x" "map_of m' k = Some y"
      have "wf_json x" "wf_json y" using JObj.prems b xy wf_map_of by auto
      with xy k have "\<exists>ks. differs x y ks"
        by (intro JObj.IH [of "(k, x)"]) (auto simp: snds.simps dest: map_of_SomeD)
      then obtain ks where "differs x y ks" ..
      with xy have "differs (JObj m) b (k # ks)" by (simp add: b differs_objects_Cons)
      then show ?thesis ..
    next
      fix x assume "map_of m k = Some x" "map_of m' k = None"
      then have "differs (JObj m) b [k]" by (simp add: b differs_objects_Cons)
      then show ?thesis ..
    next
      fix x assume "map_of m k = None" "map_of m' k = Some x"
      then have "differs (JObj m) b [k]" by (simp add: b differs_objects_Cons)
      then show ?thesis ..
    qed (use k in simp)
  qed (auto intro!: exI [of _ "[]"])
next
  case (JArr xs)
  then have "\<not> valuesEqual (JArr xs) b" by (simp add: valuesEqual_abs del: valuesEqual.simps)
  then show ?case by (intro exI [of _ "[]"]) (cases b; simp del: valuesEqual.simps)
qed (auto simp: valuesEqual_abs simp del: valuesEqual.simps intro!: exI [of _ "[]"])

lemma object_depth_entry:
  "map_of m k = Some v \<Longrightarrow> object_depth v < object_depth (JObj m)"
  by (induction m) (auto split: if_splits)

lemma differs_depth:
  "differs a b ks \<Longrightarrow> length ks \<le> max (object_depth a) (object_depth b)"
proof (induction ks arbitrary: a b)
  case Nil
  then show ?case by simp
next
  case (Cons k ks)
  then obtain m m' where ab: "a = JObj m" "b = JObj m'" by (cases a; cases b) auto
  show ?case
  proof (cases "map_of m k"; cases "map_of m' k")
    fix x y assume xy: "map_of m k = Some x" "map_of m' k = Some y"
    with Cons ab have "length ks \<le> max (object_depth x) (object_depth y)"
      by (simp add: differs_objects_Cons)
    with object_depth_entry [OF xy(1)] object_depth_entry [OF xy(2)] show ?thesis
      unfolding ab by (auto simp: max_def simp del: object_depth.simps split: if_splits)
  qed (use Cons ab in \<open>auto simp: differs_objects_Cons\<close>)
qed

text \<open>
  A path that no difference reaches, from above or from below, holds the same value on both
  sides.
\<close>

lemma unchanged_at:
  "wf_json a \<Longrightarrow> wf_json b \<Longrightarrow>
     (\<And>q. differs a b q \<Longrightarrow> \<not> prefix q ks \<and> \<not> prefix ks q) \<Longrightarrow>
     map_option abs_json (get_path a ks) = map_option abs_json (get_path b ks)"
proof (induction ks arbitrary: a b)
  case Nil
  then have "\<not> differs a b q" for q by auto
  with Nil differs_ex have "abs_json a = abs_json b" by blast
  then show ?case by simp
next
  case (Cons k ks)
  show ?case
  proof (cases "(\<exists>m. a = JObj m) \<and> (\<exists>m. b = JObj m)")
    case True
    then obtain ma mb where ab: "a = JObj ma" "b = JObj mb" by auto
    show ?thesis
    proof (cases "map_of ma k"; cases "map_of mb k")
      fix x y assume xy: "map_of ma k = Some x" "map_of mb k = Some y"
      have "map_option abs_json (get_path x ks) = map_option abs_json (get_path y ks)"
      proof (rule Cons.IH)
        show "wf_json x" "wf_json y" using Cons.prems(1,2) ab xy wf_map_of by auto
        fix q assume "differs x y q"
        with xy have "differs a b (k # q)" by (simp add: ab differs_objects_Cons)
        with Cons.prems(3) show "\<not> prefix q ks \<and> \<not> prefix ks q" by fastforce
      qed
      with xy show ?thesis by (simp add: ab)
    next
      fix x assume "map_of ma k = Some x" "map_of mb k = None"
      then have "differs a b [k]" by (simp add: ab differs_objects_Cons)
      with Cons.prems(3) show ?thesis by fastforce
    next
      fix x assume "map_of ma k = None" "map_of mb k = Some x"
      then have "differs a b [k]" by (simp add: ab differs_objects_Cons)
      with Cons.prems(3) show ?thesis by fastforce
    qed (simp add: ab)
  next
    case False
    have "\<not> differs a b []" using Cons.prems(3) by fastforce
    with False have "valuesEqual a b" by (cases a; cases b) auto
    with False have "get_path a (k # ks) = None" "get_path b (k # ks) = None"
      by (cases a; cases b; auto)+
    then show ?thesis by simp
  qed
qed

context fieldpath_set
begin

lemma ComputeFieldDiff_Empty_iff:
  assumes "wf_map old" and "wf_map new"
    and "object_depth (JObj old) \<le> maxDiffDepth" and "object_depth (JObj new) \<le> maxDiffDepth"
  shows "fs_Empty D (ComputeFieldDiff D (Some old) (Some new)) \<longleftrightarrow>
     abs_json (JObj old) = abs_json (JObj new)"
proof -
  have "differs (JObj old) (JObj new) ks \<Longrightarrow> length ks \<le> maxDiffDepth" for ks
    using differs_depth [of "JObj old" "JObj new" ks] assms(3,4)
    by (auto simp del: object_depth.simps)
  then have "fs_Empty D (ComputeFieldDiff D (Some old) (Some new)) \<longleftrightarrow>
      (\<forall>ks. \<not> differs (JObj old) (JObj new) ks)"
    using assms(1,2) by (auto simp: Empty_iff members_ComputeFieldDiff)
  with assms(1,2) differs_ex differs_equal show ?thesis by blast
qed

end

end
