(* ===== verification/Ignore.thy ===== *)
theory Ignore
  imports Json_Diff
begin

section \<open>Drift-ignore rules (\<open>internal/webhook/ignore.go\<close>)\<close>

text \<open>
  The \<open>.spec.ignore\<close> rules of a Kustomization: parsing, target matching and the set of
  ignored paths.  An error return is \<^const>\<open>None\<close>; where the source returns
  \<open>(bool, error)\<close>, \<^term>\<open>Some b\<close> is the boolean with a nil error.

  The target's five patterns sit in a Go map, which \<open>ruleMatchesObject\<close> ranges over: the
  order is open, and differs from run to run.  It is the parameter \<open>pattern_order\<close>.
\<close>

subsection \<open>Definitions\<close>

record ignore_rule =
  ir_paths :: "string list"
  ir_target :: json_map

fun parse_rules_loop :: "('s, 'k) deps \<Rightarrow> json list \<Rightarrow> ignore_rule list" where
  "parse_rules_loop D [] = []"
| "parse_rules_loop D (e # entries) =
     (case e of
        JObj entry \<Rightarrow>
          let paths = NestedStringSlice D entry [''paths''] in
          if paths = [] then parse_rules_loop D entries
          else
            let target = NestedMap D entry [''target''] in
            \<lparr>ir_paths = paths, ir_target = target\<rparr> # parse_rules_loop D entries
      | _ \<Rightarrow> parse_rules_loop D entries)"

definition parseIgnoreRules :: "('s, 'k) deps \<Rightarrow> json_map \<Rightarrow> ignore_rule list" where
  "parseIgnoreRules D owner =
     (case NestedSlice D owner [''spec'', ''ignore''] of
        None \<Rightarrow> []
      | Some entries \<Rightarrow> if entries = [] then [] else parse_rules_loop D entries)"

definition unescapeJSONPointer :: "string \<Rightarrow> string" where
  "unescapeJSONPointer seg =
     (let seg = ReplaceAll seg ''~1'' ''/'' in
      let seg = ReplaceAll seg ''~0'' ''~'' in seg)"

definition jsonPointerToPath :: "string \<Rightarrow> 'k field_path option" where
  "jsonPointerToPath ptr =
     (if ptr = [] then Some []
      else if \<not> HasPrefix ptr ''/'' then None
      else
        let segments = Split (drop 1 ptr) (CHR ''/'') in
        Some (map (\<lambda>seg. FieldName (unescapeJSONPointer seg)) segments))"

definition anchoredRegexMatch :: "('s, 'k) deps \<Rightarrow> string \<Rightarrow> string \<Rightarrow> bool option" where
  "anchoredRegexMatch D pat value =
     (if pat = [] then Some True
      else
        (case regexp_Compile D (''^(?:'' @ pat @ '')$'') of
           None \<Rightarrow> None
         | Some matchString \<Rightarrow> Some (matchString value)))"

definition selectorMatches ::
    "('s, 'k) deps \<Rightarrow> json_map \<Rightarrow> string \<Rightarrow> string_map \<Rightarrow> bool option" where
  "selectorMatches D target key objSet =
     (let expr = NestedString D target [key] in
      if expr = [] then Some True
      else
        (case labels_Parse D expr of
           None \<Rightarrow> None
         | Some sel \<Rightarrow> Some (sel objSet)))"

definition target_patterns :: "group_version_kind \<Rightarrow> string \<Rightarrow> string \<Rightarrow> string_map" where
  "target_patterns gvk name namespace =
     [''group'' \<mapsto> gvk_Group gvk, ''version'' \<mapsto> gvk_Version gvk, ''kind'' \<mapsto> gvk_Kind gvk,
      ''name'' \<mapsto> name, ''namespace'' \<mapsto> namespace]"

fun match_patterns_loop ::
    "('s, 'k) deps \<Rightarrow> json_map \<Rightarrow> string_map \<Rightarrow> string list \<Rightarrow> bool option" where
  "match_patterns_loop D target patterns [] = Some True"
| "match_patterns_loop D target patterns (key # keys) =
     (let pat = NestedString D target [key] in
      case anchoredRegexMatch D pat (str_at patterns key) of
        None \<Rightarrow> None
      | Some ok \<Rightarrow> if \<not> ok then Some False else match_patterns_loop D target patterns keys)"

text \<open>The argument \<open>i\<close> is the number of the rule, which selects the visiting order.\<close>

definition ruleMatchesObject ::
    "('s, 'k) deps \<Rightarrow> nat \<Rightarrow> json_map \<Rightarrow> group_version_kind \<Rightarrow> string \<Rightarrow> string \<Rightarrow>
       string_map \<Rightarrow> string_map \<Rightarrow> bool option" where
  "ruleMatchesObject D i target gvk name namespace objLabels objAnnotations =
     (if target = [] then Some True
      else
        (case match_patterns_loop D target (target_patterns gvk name namespace) (pattern_order D i) of
           None \<Rightarrow> None
         | Some False \<Rightarrow> Some False
         | Some True \<Rightarrow>
             (case selectorMatches D target ''labelSelector'' objLabels of
                None \<Rightarrow> None
              | Some False \<Rightarrow> Some False
              | Some True \<Rightarrow> selectorMatches D target ''annotationSelector'' objAnnotations)))"

fun insert_pointers_loop :: "('s, 'k) deps \<Rightarrow> string list \<Rightarrow> 's \<Rightarrow> 's option" where
  "insert_pointers_loop D [] acc = Some acc"
| "insert_pointers_loop D (ptr # ptrs) acc =
     (case jsonPointerToPath ptr of
        None \<Rightarrow> None
      | Some path \<Rightarrow> insert_pointers_loop D ptrs (fs_Insert D path acc))"

fun ignore_rules_loop ::
    "('s, 'k) deps \<Rightarrow> nat \<Rightarrow> ignore_rule list \<Rightarrow> group_version_kind \<Rightarrow> string \<Rightarrow> string \<Rightarrow>
       string_map \<Rightarrow> string_map \<Rightarrow> 's \<Rightarrow> 's option" where
  "ignore_rules_loop D i [] gvk name namespace objLabels objAnnotations acc = Some acc"
| "ignore_rules_loop D i (rule # rules) gvk name namespace objLabels objAnnotations acc =
     (case ruleMatchesObject D i (ir_target rule) gvk name namespace objLabels objAnnotations of
        None \<Rightarrow> None
      | Some False \<Rightarrow>
          ignore_rules_loop D (Suc i) rules gvk name namespace objLabels objAnnotations acc
      | Some True \<Rightarrow>
          (case insert_pointers_loop D (ir_paths rule) acc of
             None \<Rightarrow> None
           | Some acc' \<Rightarrow>
               ignore_rules_loop D (Suc i) rules gvk name namespace objLabels objAnnotations acc'))"

definition ignoreSetForObject ::
    "('s, 'k) deps \<Rightarrow> ignore_rule list \<Rightarrow> group_version_kind \<Rightarrow> string \<Rightarrow> string \<Rightarrow>
       string_map \<Rightarrow> string_map \<Rightarrow> 's option" where
  "ignoreSetForObject D rules gvk name namespace objLabels objAnnotations =
     ignore_rules_loop D 0 rules gvk name namespace objLabels objAnnotations (fs_NewSet D)"

subsection \<open>What the rules should mean\<close>

text \<open>RFC 6901 escaping, and the pointer of a list of keys.\<close>

fun escape_segment :: "string \<Rightarrow> string" where
  "escape_segment [] = []"
| "escape_segment (c # s) =
     (if c = CHR ''~'' then ''~0'' else if c = CHR ''/'' then ''~1'' else [c]) @ escape_segment s"

definition json_pointer :: "string list \<Rightarrow> string" where
  "json_pointer ks = concat (map (\<lambda>k. CHR ''/'' # escape_segment k) ks)"

definition pattern_keys :: "string list" where
  "pattern_keys = [''group'', ''version'', ''kind'', ''name'', ''namespace'']"

text \<open>Go visits every key of the pattern map exactly once, in some order.\<close>

definition pattern_order_ok :: "('s, 'k) deps \<Rightarrow> bool" where
  "pattern_order_ok D =
     (\<forall>i. distinct (pattern_order D i) \<and> set (pattern_order D i) = set pattern_keys)"

text \<open>One pattern of the target against the object: no result when it does not compile.\<close>

definition pattern_result ::
    "('s, 'k) deps \<Rightarrow> json_map \<Rightarrow> group_version_kind \<Rightarrow> string \<Rightarrow> string \<Rightarrow> string \<Rightarrow> bool option" where
  "pattern_result D target gvk name namespace key =
     anchoredRegexMatch D (NestedString D target [key])
       (str_at (target_patterns gvk name namespace) key)"

text \<open>The target's meaning, without an evaluation order: all patterns and both selectors match.\<close>

definition target_matches ::
    "('s, 'k) deps \<Rightarrow> json_map \<Rightarrow> group_version_kind \<Rightarrow> string \<Rightarrow> string \<Rightarrow>
       string_map \<Rightarrow> string_map \<Rightarrow> bool" where
  "target_matches D target gvk name namespace objLabels objAnnotations =
     (target = [] \<or>
      list_all (\<lambda>key. pattern_result D target gvk name namespace key = Some True) pattern_keys \<and>
      selectorMatches D target ''labelSelector'' objLabels = Some True \<and>
      selectorMatches D target ''annotationSelector'' objAnnotations = Some True)"

text \<open>
  The same meaning without the code's expressions: each of the five fields is empty or its pattern
  matches the object's value from end to end, each selector is empty or holds.  What a pattern
  and a selector mean is \<open>full_match\<close> and \<open>holds\<close>.
\<close>

definition target_selects ::
    "('s, 'k) deps \<Rightarrow> (string \<Rightarrow> string \<Rightarrow> bool) \<Rightarrow> (string \<Rightarrow> string_map \<Rightarrow> bool) \<Rightarrow> json_map \<Rightarrow>
       group_version_kind \<Rightarrow> string \<Rightarrow> string \<Rightarrow> string_map \<Rightarrow> string_map \<Rightarrow> bool" where
  "target_selects D full_match holds target gvk name namespace objLabels objAnnotations =
     (let field = (\<lambda>key. NestedString D target [key]);
          matched = (\<lambda>key value. field key = [] \<or> full_match (field key) value);
          selected = (\<lambda>key m. field key = [] \<or> holds (field key) m)
      in
      target = [] \<or>
      matched ''group'' (gvk_Group gvk) \<and> matched ''version'' (gvk_Version gvk) \<and>
      matched ''kind'' (gvk_Kind gvk) \<and> matched ''name'' name \<and>
      matched ''namespace'' namespace \<and>
      selected ''labelSelector'' objLabels \<and> selected ''annotationSelector'' objAnnotations)"

text \<open>The patterns and selectors of a target are well-formed expressions.\<close>

definition target_compiles :: "('s, 'k) deps \<Rightarrow> json_map \<Rightarrow> bool" where
  "target_compiles D target =
     (list_all (\<lambda>key. NestedString D target [key] = [] \<or>
         regexp_Compile D (NestedString D target [key]) \<noteq> None) pattern_keys \<and>
      list_all (\<lambda>key. NestedString D target [key] = [] \<or>
         labels_Parse D (NestedString D target [key]) \<noteq> None) [''labelSelector'', ''annotationSelector''])"

text \<open>
  The documented behaviour of the two expression languages.  A well-formed regular expression
  between \<open>^(?:\<close> and \<open>)$\<close> is well-formed and matches what it matches from end to end.
  (\<open>a)|(?:b\<close> is not well-formed, but becomes so between them: \<open>Findings\<close>.)
\<close>

locale target_language =
  fixes D :: "('s, 'k) deps"
    and full_match :: "string \<Rightarrow> string \<Rightarrow> bool"
    and holds :: "string \<Rightarrow> string_map \<Rightarrow> bool"
  assumes anchored: "regexp_Compile D pat \<noteq> None \<Longrightarrow>
      regexp_Compile D (''^(?:'' @ pat @ '')$'') = Some (full_match pat)"
    and selector: "labels_Parse D expr = Some sel \<Longrightarrow> sel ls \<longleftrightarrow> holds expr ls"
begin

lemma pattern_matched:
  "pat = [] \<or> regexp_Compile D pat \<noteq> None \<Longrightarrow>
     anchoredRegexMatch D pat value = Some (pat = [] \<or> full_match pat value)"
  using anchored [of pat] by (auto simp: anchoredRegexMatch_def)

lemma selector_selected:
  "NestedString D target [key] = [] \<or> labels_Parse D (NestedString D target [key]) \<noteq> None \<Longrightarrow>
     selectorMatches D target key ls =
       Some (NestedString D target [key] = [] \<or> holds (NestedString D target [key]) ls)"
  using selector by (auto simp: selectorMatches_def Let_def)

text \<open>On well-formed targets the code's reading is the documented one.\<close>

lemma target_matches_selects:
  assumes "target_compiles D target"
  shows "target_matches D target gvk name namespace ls as \<longleftrightarrow>
     target_selects D full_match holds target gvk name namespace ls as"
  using assms
  by (auto simp: target_matches_def target_selects_def target_compiles_def pattern_keys_def
      pattern_result_def target_patterns_def pattern_matched selector_selected Let_def)

end

subsection \<open>JSON pointers\<close>

lemma ReplaceAll_escape_1:
  "ReplaceAll (escape_segment s) ''~1'' ''/'' =
     concat (map (\<lambda>c. if c = CHR ''~'' then ''~0'' else [c]) s)"
proof (induction s)
  case Nil
  then show ?case by simp
next
  case (Cons c s)
  show ?case
    using Cons by (cases "escape_segment s") auto
qed

lemma ReplaceAll_escape_0:
  "ReplaceAll (concat (map (\<lambda>c. if c = CHR ''~'' then ''~0'' else [c]) s)) ''~0'' ''~'' = s"
  by (induction s) auto

lemma unescape_escape: "unescapeJSONPointer (escape_segment s) = s"
  by (simp only: unescapeJSONPointer_def Let_def ReplaceAll_escape_1 ReplaceAll_escape_0)

lemma escape_segment_no_slash: "CHR ''/'' \<notin> set (escape_segment s)"
  by (induction s) auto

lemma json_pointer_Cons:
  "ks \<noteq> [] \<Longrightarrow> json_pointer ks = CHR ''/'' # Join (map escape_segment ks) (CHR ''/'')"
proof (induction ks)
  case Nil
  then show ?case by simp
next
  case (Cons k ks)
  then show ?case by (cases ks) (auto simp: json_pointer_def)
qed

lemma jsonPointerToPath_json_pointer: "jsonPointerToPath (json_pointer ks) = Some (names ks)"
proof (cases "ks = []")
  case True
  then show ?thesis by (simp add: json_pointer_def jsonPointerToPath_def)
next
  case False
  have "Split (Join (map escape_segment ks) (CHR ''/'')) (CHR ''/'') = map escape_segment ks"
    using False escape_segment_no_slash by (intro Split_Join) auto
  with False show ?thesis
    by (simp add: json_pointer_Cons jsonPointerToPath_def HasPrefix_def unescape_escape)
qed

lemma jsonPointerToPath_None_iff:
  "jsonPointerToPath ptr = None \<longleftrightarrow> ptr \<noteq> [] \<and> \<not> HasPrefix ptr ''/''"
  by (simp add: jsonPointerToPath_def Let_def)

lemma jsonPointerToPath_root_iff: "jsonPointerToPath ptr = Some [] \<longleftrightarrow> ptr = []"
  by (auto simp: jsonPointerToPath_def Let_def)

subsection \<open>Matching a target\<close>

lemma match_patterns_loop_True_iff:
  "match_patterns_loop D target pats keys = Some True \<longleftrightarrow>
     (\<forall>key\<in>set keys.
        anchoredRegexMatch D (NestedString D target [key]) (str_at pats key) = Some True)"
  by (induction D target pats keys rule: match_patterns_loop.induct)
    (auto simp: Let_def split: option.splits)

lemma match_patterns_loop_result:
  "(\<And>key. key \<in> set keys \<Longrightarrow>
      anchoredRegexMatch D (NestedString D target [key]) (str_at pats key) \<noteq> None) \<Longrightarrow>
   match_patterns_loop D target pats keys \<noteq> None"
  by (induction D target pats keys rule: match_patterns_loop.induct)
    (auto simp: Let_def split: option.splits)

text \<open>A rule matches exactly when every part of its target does, whatever the order.\<close>

lemma ruleMatchesObject_True:
  "ruleMatchesObject D i target gvk name namespace ls as = Some True \<longleftrightarrow>
     target = [] \<or>
     match_patterns_loop D target (target_patterns gvk name namespace) (pattern_order D i) = Some True \<and>
     selectorMatches D target ''labelSelector'' ls = Some True \<and>
     selectorMatches D target ''annotationSelector'' as = Some True"
  by (auto simp: ruleMatchesObject_def split: option.splits bool.splits)

lemma ruleMatchesObject_True_iff:
  "pattern_order_ok D \<Longrightarrow>
     ruleMatchesObject D i target gvk name namespace ls as = Some True \<longleftrightarrow>
     target_matches D target gvk name namespace ls as"
  by (simp add: ruleMatchesObject_True target_matches_def pattern_order_ok_def
      match_patterns_loop_True_iff pattern_result_def list_all_iff)

text \<open>With patterns and selectors that compile there is an answer, the same in every order.\<close>

lemma ruleMatchesObject_total:
  assumes "pattern_order_ok D"
    and "\<And>key. key \<in> set pattern_keys \<Longrightarrow> pattern_result D target gvk name namespace key \<noteq> None"
    and "selectorMatches D target ''labelSelector'' ls \<noteq> None"
    and "selectorMatches D target ''annotationSelector'' as \<noteq> None"
  shows "ruleMatchesObject D i target gvk name namespace ls as =
     Some (target_matches D target gvk name namespace ls as)"
proof -
  have "match_patterns_loop D target (target_patterns gvk name namespace) (pattern_order D i) \<noteq> None"
    using assms(1,2)
    by (intro match_patterns_loop_result) (auto simp: pattern_order_ok_def pattern_result_def)
  with assms(3,4) have "ruleMatchesObject D i target gvk name namespace ls as \<noteq> None"
    by (auto simp: ruleMatchesObject_def split: option.splits bool.splits)
  then obtain b where "ruleMatchesObject D i target gvk name namespace ls as = Some b" by auto
  with ruleMatchesObject_True_iff [OF assms(1), of i target gvk name namespace ls as]
  show ?thesis by (cases b) auto
qed

subsection \<open>The ignored paths\<close>

text \<open>
  The paths a list of pointers adds to a field set.  \<open>jsonPointerToPath\<close> reads the empty pointer
  as the root, the empty path, which \<open>fieldpath.Set\<close> does not track: inserting it adds nothing.
\<close>

definition pointer_paths :: "string list \<Rightarrow> 'k field_path set" where
  "pointer_paths ptrs = {p. p \<noteq> [] \<and> Some p \<in> jsonPointerToPath ` set ptrs}"

lemma pointer_paths_simps [simp]:
  "pointer_paths [] = {}"
  "pointer_paths (ptr # ptrs) =
     (case jsonPointerToPath ptr of
        Some p \<Rightarrow> if p = [] then pointer_paths ptrs else insert p (pointer_paths ptrs)
      | None \<Rightarrow> pointer_paths ptrs)"
  by (auto simp: pointer_paths_def image_iff split: option.splits)

lemma insert_pointers_loop_None_iff:
  "insert_pointers_loop D ptrs acc = None \<longleftrightarrow>
     (\<exists>ptr\<in>set ptrs. (jsonPointerToPath ptr :: 'k field_path option) = None)"
  for D :: "('s, 'k) deps"
  by (induction D ptrs acc rule: insert_pointers_loop.induct) (auto split: option.splits)

text \<open>The rules that match the object.\<close>

definition matching_rules ::
    "('s, 'k) deps \<Rightarrow> ignore_rule list \<Rightarrow> group_version_kind \<Rightarrow> string \<Rightarrow> string \<Rightarrow>
       string_map \<Rightarrow> string_map \<Rightarrow> ignore_rule list" where
  "matching_rules D rules gvk name namespace objLabels objAnnotations =
     filter (\<lambda>r. target_matches D (ir_target r) gvk name namespace objLabels objAnnotations) rules"

text \<open>The field-set interface on the record of all third-party functions.\<close>

locale deps_fieldset = fieldpath_set D members
  for D :: "('s, 'k) deps" and members :: "'s \<Rightarrow> 'k field_path set"
begin

lemma members_insert_pointers_loop:
  "insert_pointers_loop D ptrs acc = Some acc' \<Longrightarrow>
     members acc' = members acc \<union> pointer_paths ptrs"
proof (induction ptrs arbitrary: acc)
  case Nil
  then show ?case by simp
next
  case (Cons ptr ptrs)
  then obtain p :: "'k field_path" where p: "jsonPointerToPath ptr = Some p"
    by (auto split: option.splits)
  with Cons show ?case
    by (cases "p = []") (auto simp: members_simps)
qed

lemma members_ignore_rules_loop:
  assumes "pattern_order_ok D"
  shows "ignore_rules_loop D i rules gvk name namespace ls as acc = Some acc' \<Longrightarrow>
     members acc' = members acc \<union>
       (\<Union>r\<in>set (matching_rules D rules gvk name namespace ls as). pointer_paths (ir_paths r))"
proof (induction rules arbitrary: i acc)
  case Nil
  then show ?case by (simp add: matching_rules_def)
next
  case (Cons r rules)
  let ?m = "ruleMatchesObject D i (ir_target r) gvk name namespace ls as"
  have iff: "?m = Some True \<longleftrightarrow> target_matches D (ir_target r) gvk name namespace ls as"
    using assms by (rule ruleMatchesObject_True_iff)
  from Cons.prems consider "?m = Some False" | "?m = Some True"
    by (auto split: option.splits bool.splits)
  then show ?case
  proof cases
    case 1
    then have no: "\<not> target_matches D (ir_target r) gvk name namespace ls as" using iff by simp
    from 1 Cons.prems Cons.IH no show ?thesis by (simp add: matching_rules_def)
  next
    case 2
    with Cons.prems obtain acc1 where acc1: "insert_pointers_loop D (ir_paths r) acc = Some acc1"
      and rest: "ignore_rules_loop D (Suc i) rules gvk name namespace ls as acc1 = Some acc'"
      by (auto split: option.splits)
    from 2 iff Cons.IH [OF rest] members_insert_pointers_loop [OF acc1] show ?thesis
      by (auto simp: matching_rules_def)
  qed
qed

lemma members_ignoreSetForObject:
  assumes "pattern_order_ok D"
    and "ignoreSetForObject D rules gvk name namespace ls as = Some acc'"
  shows "members acc' =
     (\<Union>r\<in>set (matching_rules D rules gvk name namespace ls as). pointer_paths (ir_paths r))"
  using members_ignore_rules_loop [OF assms(1)] assms(2)
  by (simp add: ignoreSetForObject_def members_NewSet)

end

interpretation list_deps: deps_fieldset "list_fieldset fromJSON toString rest" set
  for fromJSON :: "string \<Rightarrow> 'k field_path list option" and toString
    and rest :: "unit deps_ext"
  by unfold_locales

text \<open>Fail closed: an error in one matching rule, or in evaluating any rule, yields no set.\<close>

lemma ignore_rules_loop_SomeD:
  "ignore_rules_loop D i rules gvk name namespace ls as acc = Some acc' \<Longrightarrow> pattern_order_ok D \<Longrightarrow>
     r \<in> set (matching_rules D rules gvk name namespace ls as) \<Longrightarrow> ptr \<in> set (ir_paths r) \<Longrightarrow>
     (jsonPointerToPath ptr :: 'k field_path option) \<noteq> None"
  for D :: "('s, 'k) deps"
proof (induction rules arbitrary: i acc)
  case Nil
  then show ?case by (simp add: matching_rules_def)
next
  case (Cons r' rules)
  let ?m = "ruleMatchesObject D i (ir_target r') gvk name namespace ls as"
  from Cons.prems consider
      "?m = Some False" "ignore_rules_loop D (Suc i) rules gvk name namespace ls as acc = Some acc'"
    | acc1 where "?m = Some True" "insert_pointers_loop D (ir_paths r') acc = Some acc1"
      "ignore_rules_loop D (Suc i) rules gvk name namespace ls as acc1 = Some acc'"
    by (auto split: option.splits bool.splits)
  then show ?case
  proof cases
    case 1
    then have "r \<in> set (matching_rules D rules gvk name namespace ls as)"
      using Cons.prems(2,3) ruleMatchesObject_True_iff [OF Cons.prems(2), of i "ir_target r'" gvk name namespace ls as]
      by (auto simp: matching_rules_def split: if_splits)
    with Cons.IH 1 Cons.prems show ?thesis by blast
  next
    case 2
    show ?thesis
    proof (cases "r = r'")
      case True
      with 2 Cons.prems(4) insert_pointers_loop_None_iff [of D "ir_paths r'" acc]
      show ?thesis by auto
    next
      case False
      with Cons.prems(3) have "r \<in> set (matching_rules D rules gvk name namespace ls as)"
        by (auto simp: matching_rules_def split: if_splits)
      with Cons.IH 2 Cons.prems show ?thesis by blast
    qed
  qed
qed

end
