(* ===== verification/Labels.thy ===== *)
theory Labels
  imports Kube_Types
begin

section \<open>Labels and annotations (\<open>internal/webhook/labels.go\<close>)\<close>

text \<open>
  Who owns an object according to its Flux labels, and which annotations switch drift
  prevention off for it.
\<close>

definition ManagedByKustomization :: string where
  "ManagedByKustomization = ''kustomization''"

definition ManagedByHelmRelease :: string where
  "ManagedByHelmRelease = ''helmrelease''"

record flux_management_info =
  IsManaged :: bool
  ManagedBy :: string
  ControllerName :: string
  ControllerNS :: string

definition GetFluxManagementInfo :: "string_map \<Rightarrow> flux_management_info" where
  "GetFluxManagementInfo labels =
     (case labels KustomizeLabelName of
        Some name \<Rightarrow>
          \<lparr>IsManaged = True, ManagedBy = ManagedByKustomization,
           ControllerName = name, ControllerNS = str_at labels KustomizeLabelNamespace\<rparr>
      | None \<Rightarrow>
          (case labels HelmLabelName of
             Some name \<Rightarrow>
               \<lparr>IsManaged = True, ManagedBy = ManagedByHelmRelease,
                ControllerName = name, ControllerNS = str_at labels HelmLabelNamespace\<rparr>
           | None \<Rightarrow>
               \<lparr>IsManaged = False, ManagedBy = [], ControllerName = [], ControllerNS = []\<rparr>))"

definition HasBypassAnnotation :: "string_map \<Rightarrow> bool" where
  "HasBypassAnnotation annotations = (str_at annotations BypassAnnotation = BypassValue)"

definition IsBeingDeleted :: "object_meta \<Rightarrow> bool" where
  "IsBeingDeleted obj = (om_DeletionTimestamp obj \<noteq> None)"

definition IsReconcileDisabled :: "string_map \<Rightarrow> bool" where
  "IsReconcileDisabled annotations =
     (str_at annotations KustomizeReconcileAnnotation = ReconcileDisabledValue)"

definition protectionDisablingAnnotationAdded ::
    "string_map \<Rightarrow> string_map \<Rightarrow> string \<times> bool" where
  "protectionDisablingAnnotationAdded oldAnnotations newAnnotations =
     (if \<not> HasBypassAnnotation oldAnnotations \<and> HasBypassAnnotation newAnnotations
      then (BypassAnnotation, True)
      else if \<not> IsReconcileDisabled oldAnnotations \<and> IsReconcileDisabled newAnnotations
      then (KustomizeReconcileAnnotation, True)
      else ([], False))"

text \<open>Neither protection-disabling annotation is active.\<close>

definition protection_active :: "string_map \<Rightarrow> bool" where
  "protection_active annotations =
     (\<not> HasBypassAnnotation annotations \<and> \<not> IsReconcileDisabled annotations)"

subsection \<open>Lemmas\<close>

lemma managed_by_distinct [simp]:
  "ManagedByKustomization \<noteq> ManagedByHelmRelease"
  "ManagedByHelmRelease \<noteq> ManagedByKustomization"
  by (simp_all add: ManagedByKustomization_def ManagedByHelmRelease_def)

lemma IsManaged_iff:
  "IsManaged (GetFluxManagementInfo labels) \<longleftrightarrow>
     labels KustomizeLabelName \<noteq> None \<or> labels HelmLabelName \<noteq> None"
  by (auto simp: GetFluxManagementInfo_def split: option.splits)

lemma ManagedBy_cases:
  "IsManaged (GetFluxManagementInfo labels) \<Longrightarrow>
     ManagedBy (GetFluxManagementInfo labels) \<in> {ManagedByKustomization, ManagedByHelmRelease}"
  by (auto simp: GetFluxManagementInfo_def split: option.splits)

lemma kustomize_precedence:
  "labels KustomizeLabelName = Some name \<Longrightarrow>
     GetFluxManagementInfo labels =
       \<lparr>IsManaged = True, ManagedBy = ManagedByKustomization, ControllerName = name,
        ControllerNS = str_at labels KustomizeLabelNamespace\<rparr>"
  by (simp add: GetFluxManagementInfo_def)

text \<open>The management information reads the four ownership labels and nothing else.\<close>

lemma GetFluxManagementInfo_cong:
  assumes "l1 KustomizeLabelName = l2 KustomizeLabelName"
    and "l1 KustomizeLabelNamespace = l2 KustomizeLabelNamespace"
    and "l1 HelmLabelName = l2 HelmLabelName"
    and "l1 HelmLabelNamespace = l2 HelmLabelNamespace"
  shows "GetFluxManagementInfo l1 = GetFluxManagementInfo l2"
  using assms by (simp add: GetFluxManagementInfo_def str_at_def split: option.splits)

lemma annotation_added_iff:
  "snd (protectionDisablingAnnotationAdded old new) \<longleftrightarrow>
     \<not> HasBypassAnnotation old \<and> HasBypassAnnotation new \<or>
     \<not> IsReconcileDisabled old \<and> IsReconcileDisabled new"
  by (auto simp: protectionDisablingAnnotationAdded_def)

text \<open>With active protection, an update adds a disabling annotation or keeps it active.\<close>

lemma annotation_not_added:
  "protection_active old \<Longrightarrow>
     snd (protectionDisablingAnnotationAdded old new) \<longleftrightarrow> \<not> protection_active new"
  by (auto simp: annotation_added_iff protection_active_def)

end
