(* ===== verification/Auth.thy ===== *)
theory Auth
  imports Kube_Types
begin

section \<open>Requester identities (\<open>internal/webhook/auth.go\<close>)\<close>

text \<open>
  Parsing of service-account user names, and the two recognised classes of requesters: the
  core Flux controllers and the Kubernetes control-plane controllers.
\<close>

definition sa_prefix :: string where "sa_prefix = ''system:serviceaccount:''"
definition sa_group :: string where "sa_group = ''system:serviceaccounts''"
definition system_prefix :: string where "system_prefix = ''system:''"

text \<open>\<^const>\<open>None\<close> stands for the results \<open>("", "", false)\<close>.\<close>

definition ParseServiceAccount :: "user_info \<Rightarrow> (string \<times> string) option" where
  "ParseServiceAccount userInfo =
     (if \<not> HasPrefix (Username userInfo) sa_prefix then None
      else
        let parts = Split (Username userInfo) (CHR '':'') in
        if length parts \<noteq> 4 then None
        else if \<not> slices_Contains (Groups userInfo) sa_group then None
        else Some (parts ! 2, parts ! 3))"

definition IsFluxController :: "user_info \<Rightarrow> string \<Rightarrow> bool" where
  "IsFluxController userInfo fluxNamespace =
     (case ParseServiceAccount userInfo of
        None \<Rightarrow> False
      | Some (ns, name) \<Rightarrow> ns = fluxNamespace \<and> slices_Contains FluxServiceAccounts name)"

text \<open>The loop over the entries.\<close>

fun shorthand_entry :: "string list \<Rightarrow> string \<Rightarrow> bool" where
  "shorthand_entry [] shorthand = False"
| "shorthand_entry (entry # entries) shorthand =
     (if HasPrefix entry system_prefix then shorthand_entry entries shorthand
      else if entry = shorthand then True
      else shorthand_entry entries shorthand)"

definition IsSystemController :: "user_info \<Rightarrow> string list \<Rightarrow> bool" where
  "IsSystemController userInfo entries =
     (if HasPrefix (Username userInfo) system_prefix \<and>
         \<not> HasPrefix (Username userInfo) sa_prefix \<and>
         slices_Contains entries (Username userInfo)
      then True
      else
        (case ParseServiceAccount userInfo of
           None \<Rightarrow> False
         | Some (ns, name) \<Rightarrow> shorthand_entry entries (ns @ '':'' @ name)))"

text \<open>The user name the API server gives a service account.\<close>

definition sa_username :: "string \<Rightarrow> string \<Rightarrow> string" where
  "sa_username ns name = sa_prefix @ ns @ '':'' @ name"

subsection \<open>Lemmas\<close>

lemma sa_prefix_system: "HasPrefix u sa_prefix \<Longrightarrow> HasPrefix u system_prefix"
  by (auto simp: HasPrefix_iff sa_prefix_def system_prefix_def)

lemma sa_username_Join:
  "sa_username ns name = Join [''system'', ''serviceaccount'', ns, name] (CHR '':'')"
  by (simp add: sa_username_def sa_prefix_def)

lemma Split_sa_username:
  "CHR '':'' \<notin> set ns \<Longrightarrow> CHR '':'' \<notin> set name \<Longrightarrow>
     Split (sa_username ns name) (CHR '':'') = [''system'', ''serviceaccount'', ns, name]"
  by (subst sa_username_Join, rule Split_Join) auto

lemma shorthand_entry_iff:
  "shorthand_entry entries s \<longleftrightarrow> s \<in> set entries \<and> \<not> HasPrefix s system_prefix"
  by (induction entries) auto

text \<open>A parsed identity is a service-account user name in the service-account group.\<close>

lemma ParseServiceAccount_SomeD:
  assumes "ParseServiceAccount u = Some (ns, name)"
  shows "Username u = sa_username ns name" and "CHR '':'' \<notin> set ns"
    and "CHR '':'' \<notin> set name" and "sa_group \<in> set (Groups u)"
proof -
  let ?parts = "Split (Username u) (CHR '':'')"
  from assms have pre: "HasPrefix (Username u) sa_prefix" and len: "length ?parts = 4"
    and parts: "?parts ! 2 = ns" "?parts ! 3 = name" and grp: "sa_group \<in> set (Groups u)"
    by (auto simp: ParseServiceAccount_def Let_def split: if_splits)
  obtain a b where abcd: "?parts = [a, b, ns, name]"
    using len parts by (auto simp: eval_nat_numeral length_Suc_conv)
  from pre obtain r where r: "Username u = ''system:serviceaccount:'' @ r"
    by (auto simp: HasPrefix_iff sa_prefix_def)
  then have "?parts = ''system'' # ''serviceaccount'' # Split r (CHR '':'')"
    by simp
  with abcd have ab: "a = ''system''" "b = ''serviceaccount''" by auto
  from Split_Join_id [of "Username u" "CHR '':''"] abcd ab
  show "Username u = sa_username ns name" by (simp add: sa_username_Join)
  from Split_no_sep [of ns "Username u" "CHR '':''"] abcd
  show "CHR '':'' \<notin> set ns" by simp
  from Split_no_sep [of name "Username u" "CHR '':''"] abcd
  show "CHR '':'' \<notin> set name" by simp
  show "sa_group \<in> set (Groups u)" by (fact grp)
qed

lemma ParseServiceAccount_sa_username:
  "CHR '':'' \<notin> set ns \<Longrightarrow> CHR '':'' \<notin> set name \<Longrightarrow> sa_group \<in> set (Groups u) \<Longrightarrow>
     Username u = sa_username ns name \<Longrightarrow> ParseServiceAccount u = Some (ns, name)"
  by (simp add: ParseServiceAccount_def Split_sa_username)
    (simp add: sa_username_def)

lemma ParseServiceAccount_iff:
  "ParseServiceAccount u = Some (ns, name) \<longleftrightarrow>
     Username u = sa_username ns name \<and> sa_group \<in> set (Groups u) \<and>
     CHR '':'' \<notin> set ns \<and> CHR '':'' \<notin> set name"
  using ParseServiceAccount_SomeD ParseServiceAccount_sa_username by metis

lemma IsFluxController_iff:
  "IsFluxController u fns \<longleftrightarrow>
     (\<exists>name \<in> set FluxServiceAccounts. ParseServiceAccount u = Some (fns, name))"
  by (auto simp: IsFluxController_def split: option.splits)

text \<open>
  What the allow-list matches: a reserved component user name listed in full, or a service
  account listed by its shorthand, where no shorthand that starts with \<open>system:\<close> counts.
\<close>

lemma IsSystemController_iff:
  "IsSystemController u entries \<longleftrightarrow>
     Username u \<in> set entries \<and> HasPrefix (Username u) system_prefix \<and>
       \<not> HasPrefix (Username u) sa_prefix \<or>
     (\<exists>ns name. ParseServiceAccount u = Some (ns, name) \<and>
        ns @ '':'' @ name \<in> set entries \<and> \<not> HasPrefix (ns @ '':'' @ name) system_prefix)"
  by (auto simp: IsSystemController_def shorthand_entry_iff split: option.splits)

end
