(* ===== verification/Metrics.thy ===== *)
theory Metrics
  imports Kube_Types
begin

section \<open>Metrics (\<open>internal/metrics/metrics.go\<close>)\<close>

text \<open>
  The collectors \<open>NewMetricsWithRegistry\<close> registers, and the \<open>Record*\<close> methods as calls
  appended to the world's list of metric events.  Prometheus panics when two collectors
  register under one name, and when \<open>WithLabelValues\<close> gets the wrong number of values:
  \<open>well_labelled\<close> says that a call does not, and the lemmas show that no method of the
  program makes such a call.  The measured duration is not modelled.
\<close>

record collector =
  col_Name :: string
  col_Help :: string
  col_Labels :: "string list"
  col_Buckets :: "rat list"

definition labelOperation :: string where "labelOperation = ''operation''"
definition labelDecision :: string where "labelDecision = ''decision''"
definition labelKind :: string where "labelKind = ''kind''"
definition labelPreviousOwner :: string where "labelPreviousOwner = ''previous_owner''"
definition labelNewOwner :: string where "labelNewOwner = ''new_owner''"

definition requestsTotal :: collector where
  "requestsTotal =
     \<lparr>col_Name = ''flux_drift_webhook_requests_total'',
      col_Help = ''Total number of admission requests processed'',
      col_Labels = [labelOperation, labelDecision], col_Buckets = []\<rparr>"

definition denialsTotal :: collector where
  "denialsTotal =
     \<lparr>col_Name = ''flux_drift_webhook_denials_total'',
      col_Help = ''Total number of denied admission requests'',
      col_Labels = [labelOperation, labelKind], col_Buckets = []\<rparr>"

definition ownershipConflictsTotal :: collector where
  "ownershipConflictsTotal =
     \<lparr>col_Name = ''flux_drift_webhook_ownership_conflicts_total'',
      col_Help = ''Total Flux ownership conflicts: a resource's Flux owner '' @
        ''labels flipped between two reconcilers (dual/multiple ownership)'',
      col_Labels = [labelKind, labelPreviousOwner, labelNewOwner], col_Buckets = []\<rparr>"

definition latencySeconds :: collector where
  "latencySeconds =
     \<lparr>col_Name = ''flux_drift_webhook_latency_seconds'',
      col_Help = ''Latency of admission request processing'',
      col_Labels = [labelOperation],
      col_Buckets = [1/1000, 5/1000, 1/100, 25/1000, 5/100, 1/10, 25/100, 5/10, 1, 25/10, 5, 10]\<rparr>"

definition configUpdatesTotal :: collector where
  "configUpdatesTotal =
     \<lparr>col_Name = ''flux_drift_webhook_config_updates_total'',
      col_Help = ''Total number of ValidatingWebhookConfiguration updates'',
      col_Labels = [''status''], col_Buckets = []\<rparr>"

definition ownerLookupErrorsTotal :: collector where
  "ownerLookupErrorsTotal =
     \<lparr>col_Name = ''flux_drift_webhook_owner_lookup_errors_total'',
      col_Help = ''Failed reads of the owning Kustomization/HelmRelease. '' @
        ''The root cause behind denied_create_inventory_unavailable '' @
        ''denials and lost .spec.ignore waivers (both fail closed)'',
      col_Labels = [''owner_kind''], col_Buckets = []\<rparr>"

text \<open>The collectors passed to \<open>reg.MustRegister\<close>, in order.\<close>

definition NewMetricsWithRegistry :: "collector list" where
  "NewMetricsWithRegistry =
     [requestsTotal, denialsTotal, ownershipConflictsTotal, latencySeconds,
      configUpdatesTotal, ownerLookupErrorsTotal]"

text \<open>
  \<open>MustRegister\<close> on a registry, given by the names it holds: it panics (\<^const>\<open>None\<close>) at the
  first name that is taken.
\<close>

fun MustRegister :: "string list \<Rightarrow> collector list \<Rightarrow> string list option" where
  "MustRegister reg [] = Some reg"
| "MustRegister reg (c # cs) =
     (if col_Name c \<in> set reg then None else MustRegister (reg @ [col_Name c]) cs)"

definition NewMetrics :: "string list \<Rightarrow> string list option" where
  "NewMetrics reg = MustRegister reg NewMetricsWithRegistry"

definition emit :: "metric_event \<Rightarrow> world \<Rightarrow> world" where
  "emit e w = w\<lparr>w_metrics := w_metrics w @ [e]\<rparr>"

definition RecordRequest :: "string \<Rightarrow> string \<Rightarrow> world \<Rightarrow> world" where
  "RecordRequest operation decision =
     emit (CounterInc (col_Name requestsTotal) [operation, decision])"

definition RecordDenial :: "string \<Rightarrow> string \<Rightarrow> world \<Rightarrow> world" where
  "RecordDenial operation kind =
     emit (CounterInc (col_Name denialsTotal) [operation, kind])"

definition RecordOwnershipConflict :: "string \<Rightarrow> string \<Rightarrow> string \<Rightarrow> world \<Rightarrow> world" where
  "RecordOwnershipConflict kind previousOwner newOwner =
     emit (CounterInc (col_Name ownershipConflictsTotal) [kind, previousOwner, newOwner])"

text \<open>
  The first argument says whether the receiver \<open>m\<close> is non-nil: this is the one nil-safe
  method.  Every handler the program builds has its metrics set.
\<close>

definition RecordOwnerLookupError :: "bool \<Rightarrow> string \<Rightarrow> world \<Rightarrow> world" where
  "RecordOwnerLookupError m ownerKind w =
     (if \<not> m then w
      else emit (CounterInc (col_Name ownerLookupErrorsTotal) [ownerKind]) w)"

definition RecordConfigUpdate :: "string \<Rightarrow> world \<Rightarrow> world" where
  "RecordConfigUpdate status =
     emit (CounterInc (col_Name configUpdatesTotal) [status])"

text \<open>A \<open>Timer\<close> keeps the operation; the start time is not modelled.\<close>

record timer =
  t_operation :: string

definition StartTimer :: "string \<Rightarrow> timer" where
  "StartTimer operation = \<lparr>t_operation = operation\<rparr>"

definition ObserveDuration :: "timer \<Rightarrow> world \<Rightarrow> world" where
  "ObserveDuration t =
     emit (HistogramObserve (col_Name latencySeconds) [t_operation t])"

text \<open>The counters by name, read back from the events.\<close>

definition counter_value :: "world \<Rightarrow> collector \<Rightarrow> string list \<Rightarrow> nat" where
  "counter_value w c labels = count_list (w_metrics w) (CounterInc (col_Name c) labels)"

definition counter_vecs :: "collector list" where
  "counter_vecs = filter (\<lambda>c. col_Buckets c = []) NewMetricsWithRegistry"

fun well_labelled :: "metric_event \<Rightarrow> bool" where
  "well_labelled (CounterInc n ls) =
     list_ex (\<lambda>c. col_Name c = n \<and> length ls = length (col_Labels c)) counter_vecs"
| "well_labelled (HistogramObserve n ls) =
     (n = col_Name latencySeconds \<and> length ls = length (col_Labels latencySeconds))"

definition metrics_ok :: "world \<Rightarrow> bool" where
  "metrics_ok w = list_all well_labelled (w_metrics w)"

subsection \<open>Lemmas\<close>

lemmas collector_defs = requestsTotal_def denialsTotal_def ownershipConflictsTotal_def
  latencySeconds_def configUpdatesTotal_def ownerLookupErrorsTotal_def

lemmas record_defs = RecordRequest_def RecordDenial_def RecordOwnershipConflict_def
  RecordOwnerLookupError_def RecordConfigUpdate_def ObserveDuration_def StartTimer_def

lemma MustRegister_iff:
  "MustRegister reg cs =
     (if distinct (map col_Name cs) \<and> set (map col_Name cs) \<inter> set reg = {}
      then Some (reg @ map col_Name cs) else None)"
  by (induction cs arbitrary: reg) auto

lemma collector_names_distinct: "distinct (map col_Name NewMetricsWithRegistry)"
  by (simp add: NewMetricsWithRegistry_def collector_defs)

lemma emit_reads [frame_simps, simp]: "w_reads (emit e w) = w_reads w"
  by (simp add: emit_def)

lemma emit_metrics [simp]: "w_metrics (emit e w) = w_metrics w @ [e]"
  by (simp add: emit_def)

lemma record_reads [frame_simps, simp]:
  "w_reads (RecordRequest a b w) = w_reads w"
  "w_reads (RecordDenial a b w) = w_reads w"
  "w_reads (RecordOwnershipConflict a b c w) = w_reads w"
  "w_reads (RecordOwnerLookupError m a w) = w_reads w"
  "w_reads (RecordConfigUpdate a w) = w_reads w"
  "w_reads (ObserveDuration t w) = w_reads w"
  by (simp_all add: record_defs)

lemma record_metrics:
  "w_metrics (RecordRequest a b w) =
     w_metrics w @ [CounterInc (col_Name requestsTotal) [a, b]]"
  "w_metrics (RecordDenial a b w) =
     w_metrics w @ [CounterInc (col_Name denialsTotal) [a, b]]"
  "w_metrics (RecordOwnershipConflict a b c w) =
     w_metrics w @ [CounterInc (col_Name ownershipConflictsTotal) [a, b, c]]"
  "w_metrics (RecordOwnerLookupError True a w) =
     w_metrics w @ [CounterInc (col_Name ownerLookupErrorsTotal) [a]]"
  "w_metrics (RecordConfigUpdate a w) =
     w_metrics w @ [CounterInc (col_Name configUpdatesTotal) [a]]"
  "w_metrics (ObserveDuration t w) =
     w_metrics w @ [HistogramObserve (col_Name latencySeconds) [t_operation t]]"
  by (simp_all add: record_defs)

lemma counter_vecs_eq:
  "counter_vecs =
     [requestsTotal, denialsTotal, ownershipConflictsTotal, configUpdatesTotal,
      ownerLookupErrorsTotal]"
  by (simp add: counter_vecs_def NewMetricsWithRegistry_def collector_defs)

lemma well_labelled_events:
  "well_labelled (CounterInc (col_Name requestsTotal) [a, b])"
  "well_labelled (CounterInc (col_Name denialsTotal) [a, b])"
  "well_labelled (CounterInc (col_Name ownershipConflictsTotal) [a, b, c])"
  "well_labelled (CounterInc (col_Name ownerLookupErrorsTotal) [a])"
  "well_labelled (CounterInc (col_Name configUpdatesTotal) [a])"
  "well_labelled (HistogramObserve (col_Name latencySeconds) [a])"
  by (simp_all add: counter_vecs_eq collector_defs)

lemma metrics_ok_record [simp]:
  "metrics_ok (RecordRequest a b w) = metrics_ok w"
  "metrics_ok (RecordDenial a b w) = metrics_ok w"
  "metrics_ok (RecordOwnershipConflict a b c w) = metrics_ok w"
  "metrics_ok (RecordOwnerLookupError True a w) = metrics_ok w"
  "metrics_ok (RecordConfigUpdate a w) = metrics_ok w"
  "metrics_ok (ObserveDuration t w) = metrics_ok w"
  by (simp_all add: metrics_ok_def record_metrics well_labelled_events del: well_labelled.simps)

text \<open>
  Worlds are ordered by their past: a later world has the earlier one's events as a prefix, and
  at least its reads.  Counters never go down along this order.
\<close>

instantiation world_ext :: (order) order
begin

definition less_eq_world_ext :: "'a world_ext \<Rightarrow> 'a world_ext \<Rightarrow> bool" where
  "w \<le> w' \<longleftrightarrow>
     prefix (w_metrics w) (w_metrics w') \<and> w_reads w \<le> w_reads w' \<and> world.more w \<le> world.more w'"

definition less_world_ext :: "'a world_ext \<Rightarrow> 'a world_ext \<Rightarrow> bool" where
  "w < w' \<longleftrightarrow> w \<le> w' \<and> \<not> w' \<le> (w :: 'a world_ext)"

instance
  by standard (auto simp: less_eq_world_ext_def less_world_ext_def)

end

lemma world_le_iff:
  "w \<le> (w' :: world) \<longleftrightarrow> prefix (w_metrics w) (w_metrics w') \<and> w_reads w \<le> w_reads w'"
  by (simp add: less_eq_world_ext_def)

lemma counter_value_mono: "w \<le> w' \<Longrightarrow> counter_value w c ls \<le> counter_value w' c ls"
  by (auto simp: world_le_iff counter_value_def prefix_def)

lemma record_le [simp]:
  "w \<le> RecordRequest a b w"
  "w \<le> RecordDenial a b w"
  "w \<le> RecordOwnershipConflict a b c w"
  "w \<le> ObserveDuration t w"
  by (simp_all add: world_le_iff record_metrics)

text \<open>Registration succeeds in a registry that has none of the names, once.\<close>

lemma NewMetrics_once:
  "set (map col_Name NewMetricsWithRegistry) \<inter> set reg = {} \<Longrightarrow>
     \<exists>reg'. NewMetrics reg = Some reg' \<and> NewMetrics reg' = None"
  using collector_names_distinct
  by (auto simp: NewMetrics_def MustRegister_iff NewMetricsWithRegistry_def)

end
