(* ===== verification/Owner.thy ===== *)
theory Owner
  imports Ignore Labels Auth Metrics
begin

section \<open>Cluster reads: the owner and the namespace (\<open>internal/webhook/handler.go\<close>)\<close>

text \<open>
  The handler's configuration, and the helpers of \<open>handler.go\<close> that read the cluster through
  the client: the owning Kustomization or HelmRelease, the identity of its reconciler, its
  inventory, and the request's namespace.  Each takes the world and returns it with the reads
  and the metric events it made.  Logging is not modelled.
\<close>

subsection \<open>Definitions\<close>

text \<open>\<open>2 * time.Second\<close>\<close>

definition DefaultNamespaceFetchTimeout :: int where
  "DefaultNamespaceFetchTimeout = 2 * 1000000000"

text \<open>\<open>DriftPreventionHandler\<close>; a nil client is \<^const>\<open>None\<close>, the metrics are never nil.\<close>

record handler =
  FluxNamespace :: string
  AuditOnly :: bool
  NamespaceLabel :: string
  NamespaceLabelValue :: string
  NamespaceFetchTimeout :: int
  Client :: "client option"
  SystemControllerSAs :: "string list"

definition ownerGVK :: "string \<Rightarrow> group_version_kind option" where
  "ownerGVK managedBy =
     (if managedBy = ManagedByKustomization then
        Some \<lparr>gvk_Group = ''kustomize.toolkit.fluxcd.io'', gvk_Version = ''v1'',
              gvk_Kind = ''Kustomization''\<rparr>
      else if managedBy = ManagedByHelmRelease then
        Some \<lparr>gvk_Group = ''helm.toolkit.fluxcd.io'', gvk_Version = ''v2'',
              gvk_Kind = ''HelmRelease''\<rparr>
      else None)"

definition fetch_timeout :: "handler \<Rightarrow> int" where
  "fetch_timeout h = cmp_Or 0 (NamespaceFetchTimeout h) DefaultNamespaceFetchTimeout"

definition count_read :: "world \<Rightarrow> world" where
  "count_read w = w\<lparr>w_reads := Suc (w_reads w)\<rparr>"

definition getOwner ::
    "handler \<Rightarrow> flux_management_info \<Rightarrow> world \<Rightarrow> json_map option \<times> world" where
  "getOwner h fluxInfo w =
     (case (ownerGVK (ManagedBy fluxInfo), Client h) of
        (Some gvk, Some client) \<Rightarrow>
          if ControllerName fluxInfo = [] \<or> ControllerNS fluxInfo = [] then (None, w)
          else
            (case get_unstructured client (w_reads w) (fetch_timeout h) gvk
                    (ControllerNS fluxInfo) (ControllerName fluxInfo) of
               None \<Rightarrow> (None, RecordOwnerLookupError True (gvk_Kind gvk) (count_read w))
             | Some owner \<Rightarrow> (Some owner, count_read w))
      | _ \<Rightarrow> (None, w))"

definition owner_sa :: "('s, 'k) deps \<Rightarrow> json_map \<Rightarrow> string" where
  "owner_sa D owner = NestedString D owner [''spec'', ''serviceAccountName'']"

definition owningReconcilerSA ::
    "('s, 'k) deps \<Rightarrow> handler \<Rightarrow> flux_management_info \<Rightarrow> world \<Rightarrow> (string \<times> string) option \<times> world"
  where
  "owningReconcilerSA D h fluxInfo w =
     (case getOwner h fluxInfo w of
        (None, w) \<Rightarrow> (None, w)
      | (Some owner, w) \<Rightarrow>
          let sa = owner_sa D owner in
          if sa = [] then (None, w) else (Some (ControllerNS fluxInfo, sa), w))"

definition isOwningFluxReconciler ::
    "('s, 'k) deps \<Rightarrow> handler \<Rightarrow> request \<Rightarrow> flux_management_info \<Rightarrow> world \<Rightarrow> bool \<times> world" where
  "isOwningFluxReconciler D h req fluxInfo w =
     (if IsFluxController (req_UserInfo req) (FluxNamespace h) then (True, w)
      else
        (case ParseServiceAccount (req_UserInfo req) of
           None \<Rightarrow> (False, w)
         | Some (saNamespace, saName) \<Rightarrow>
             (case owningReconcilerSA D h fluxInfo w of
                (Some (ns, name), w) \<Rightarrow> (saNamespace = ns \<and> saName = name, w)
              | (None, w) \<Rightarrow>
                  (saNamespace = ControllerNS fluxInfo \<and>
                   slices_Contains FluxReconcilerServiceAccounts saName, w))))"

definition rbacKinds :: "string list" where
  "rbacKinds = [''Role'', ''ClusterRole'', ''RoleBinding'', ''ClusterRoleBinding'']"

definition inventoryID :: "string \<Rightarrow> string \<Rightarrow> string \<Rightarrow> string \<Rightarrow> string" where
  "inventoryID grp kind namespace name =
     (let name =
        (if grp = ''rbac.authorization.k8s.io'' \<and> slices_Contains rbacKinds kind
         then ReplaceAll name '':'' ''__'' else name)
      in namespace @ ''_'' @ name @ ''_'' @ grp @ ''_'' @ kind)"

text \<open>\<open>entry["id"].(string)\<close>, the zero value when the assertion fails.\<close>

definition entry_id :: "json_map \<Rightarrow> string" where
  "entry_id entry = (case map_of entry ''id'' of Some (JStr s) \<Rightarrow> s | _ \<Rightarrow> [])"

fun inventory_loop :: "json list \<Rightarrow> string \<Rightarrow> bool" where
  "inventory_loop [] objID = False"
| "inventory_loop (e # entries) objID =
     (case e of
        JObj entry \<Rightarrow> if entry_id entry = objID then True else inventory_loop entries objID
      | _ \<Rightarrow> inventory_loop entries objID)"

text \<open>The pair \<open>(found, available)\<close> for an owner that was read.\<close>

definition inventory_lookup :: "('s, 'k) deps \<Rightarrow> json_map \<Rightarrow> string \<Rightarrow> bool \<times> bool" where
  "inventory_lookup D owner objID =
     (case NestedSlice D owner [''status'', ''inventory'', ''entries''] of
        None \<Rightarrow> (False, False)
      | Some entries \<Rightarrow>
          if entries = [] then (False, False)
          else if inventory_loop entries objID then (True, True) else (False, True))"

definition request_inventory_id :: "request \<Rightarrow> object_meta \<Rightarrow> string" where
  "request_inventory_id req objMeta =
     inventoryID (gvk_Group (req_Kind req)) (gvk_Kind (req_Kind req))
       (cmp_Or [] (om_Namespace objMeta) (req_Namespace req))
       (cmp_Or [] (om_Name objMeta) (req_Name req))"

definition ownerInventoryContains ::
    "('s, 'k) deps \<Rightarrow> handler \<Rightarrow> request \<Rightarrow> object_meta \<Rightarrow> flux_management_info \<Rightarrow> world \<Rightarrow>
       (bool \<times> bool) \<times> world" where
  "ownerInventoryContains D h req objMeta fluxInfo w =
     (case getOwner h fluxInfo w of
        (None, w) \<Rightarrow> ((False, False), w)
      | (Some owner, w) \<Rightarrow> (inventory_lookup D owner (request_inventory_id req objMeta), w))"

definition namespaceIsTerminating :: "handler \<Rightarrow> string \<Rightarrow> world \<Rightarrow> bool \<times> world" where
  "namespaceIsTerminating h namespace w =
     (if namespace = [] then (False, w)
      else
        (case Client h of
           None \<Rightarrow> (False, w)
         | Some client \<Rightarrow>
             (case get_namespace client (w_reads w) (fetch_timeout h) namespace of
                None \<Rightarrow> (False, count_read w)
              | Some ns \<Rightarrow> (ns_DeletionTimestamp ns \<noteq> None, count_read w))))"

text \<open>
  The results \<open>(shouldProcess, err != nil)\<close>.  This one reader does not test the client for
  nil: \<^const>\<open>None\<close> is the panic of a method call on a nil interface.
\<close>

definition shouldProcessNamespace ::
    "handler \<Rightarrow> string \<Rightarrow> world \<Rightarrow> ((bool \<times> bool) \<times> world) option" where
  "shouldProcessNamespace h namespace w =
     (if namespace = [] then Some ((True, False), w)
      else if slices_Contains ExcludedNamespaces namespace then Some ((False, False), w)
      else if NamespaceLabel h = [] then Some ((True, False), w)
      else
        (case Client h of
           None \<Rightarrow> None
         | Some client \<Rightarrow>
             (case get_namespace client (w_reads w) (fetch_timeout h) namespace of
                None \<Rightarrow> Some ((True, True), count_read w)
              | Some ns \<Rightarrow>
                  (case ns_Labels ns (NamespaceLabel h) of
                     None \<Rightarrow> Some ((False, False), count_read w)
                   | Some labelValue \<Rightarrow>
                       if NamespaceLabelValue h \<noteq> [] \<and> labelValue \<noteq> NamespaceLabelValue h
                       then Some ((False, False), count_read w)
                       else Some ((True, False), count_read w)))))"

text \<open>
  \<open>CachedObjectTypes\<close>: the types the manager pre-warms, a namespace's metadata first.
\<close>

datatype cached_object = CachedNamespaceMetadata | CachedUnstructured group_version_kind

definition CachedObjectTypes :: "cached_object list" where
  "CachedObjectTypes =
     CachedNamespaceMetadata #
     List.map_filter (\<lambda>managedBy. map_option CachedUnstructured (ownerGVK managedBy))
       [ManagedByKustomization, ManagedByHelmRelease]"

subsection \<open>Lemmas\<close>

lemma count_read_simps [simp]:
  "w_reads (count_read w) = Suc (w_reads w)"
  "w_metrics (count_read w) = w_metrics w"
  "metrics_ok (count_read w) = metrics_ok w"
  by (simp_all add: count_read_def metrics_ok_def)

text \<open>An operation that reads the owner at most \<open>n\<close> times and emits lookup errors only.\<close>

fun lookup_error :: "metric_event \<Rightarrow> bool" where
  "lookup_error (CounterInc n ls) = (n = col_Name ownerLookupErrorsTotal \<and> length ls = 1)"
| "lookup_error _ = False"

definition only_reads :: "nat \<Rightarrow> world \<Rightarrow> world \<Rightarrow> bool" where
  "only_reads n w w' =
     (w_reads w \<le> w_reads w' \<and> w_reads w' \<le> w_reads w + n \<and>
      (\<exists>es. w_metrics w' = w_metrics w @ es \<and> list_all lookup_error es))"

lemma only_reads_refl [simp]: "only_reads n w w"
  by (simp add: only_reads_def)

lemma only_reads_count [simp]: "0 < n \<Longrightarrow> only_reads n w (count_read w)"
  by (simp add: only_reads_def)

lemma only_reads_lookup_error [simp]:
  "0 < n \<Longrightarrow> only_reads n w (RecordOwnerLookupError True k (count_read w))"
  by (simp add: only_reads_def record_metrics)

lemma only_reads_trans:
  assumes "only_reads m w w1" and "only_reads n w1 w2"
  shows "only_reads (m + n) w w2"
proof -
  from assms obtain es es' where "w_metrics w1 = w_metrics w @ es" "list_all lookup_error es"
    "w_metrics w2 = w_metrics w1 @ es'" "list_all lookup_error es'"
    unfolding only_reads_def by auto
  then have "w_metrics w2 = w_metrics w @ (es @ es') \<and> list_all lookup_error (es @ es')"
    by simp
  with assms show ?thesis unfolding only_reads_def by (intro conjI exI [of _ "es @ es'"]) auto
qed

lemma only_reads_mono: "only_reads m w w' \<Longrightarrow> m \<le> n \<Longrightarrow> only_reads n w w'"
  by (auto simp: only_reads_def)

lemma lookup_error_well_labelled: "lookup_error e \<Longrightarrow> well_labelled e"
proof (cases e)
  case (CounterInc n ls)
  moreover assume "lookup_error e"
  ultimately obtain k where "e = CounterInc (col_Name ownerLookupErrorsTotal) [k]"
    by (auto simp: length_Suc_conv)
  then show ?thesis by (simp only: well_labelled_events)
qed simp

lemma only_reads_metrics_ok: "only_reads n w w' \<Longrightarrow> metrics_ok w' = metrics_ok w"
  by (auto simp: only_reads_def metrics_ok_def list_all_iff lookup_error_well_labelled
      simp del: well_labelled.simps)

lemma only_reads_getOwner: "only_reads 1 w (snd (getOwner h fi w))"
  by (auto simp: getOwner_def split: option.splits prod.splits)

lemma only_reads_isOwningFluxReconciler:
  "only_reads 1 w (snd (isOwningFluxReconciler D h req fi w))"
  using only_reads_getOwner [of w h fi]
  by (auto simp: isOwningFluxReconciler_def owningReconcilerSA_def Let_def
      split: option.splits prod.splits if_splits)

lemma only_reads_ownerInventoryContains:
  "only_reads 1 w (snd (ownerInventoryContains D h req om fi w))"
  using only_reads_getOwner [of w h fi]
  by (auto simp: ownerInventoryContains_def split: option.splits prod.splits)

lemma only_reads_namespaceIsTerminating: "only_reads 1 w (snd (namespaceIsTerminating h ns w))"
  by (auto simp: namespaceIsTerminating_def split: option.splits)

lemma only_reads_shouldProcessNamespace:
  "shouldProcessNamespace h ns w = Some (r, w') \<Longrightarrow> only_reads 1 w w'"
  by (auto simp: shouldProcessNamespace_def split: option.splits if_splits)

lemma inventory_loop_iff:
  "inventory_loop entries objID \<longleftrightarrow>
     (\<exists>entry. JObj entry \<in> set entries \<and> entry_id entry = objID)"
  by (induction entries) (auto split: json.splits)

lemma found_implies_available:
  "fst (ownerInventoryContains D h req om fi w) = (True, avail) \<Longrightarrow> avail"
  by (auto simp: ownerInventoryContains_def inventory_lookup_def
      split: option.splits prod.splits if_splits)

end
