(* ===== verification/Decisions.thy ===== *)
theory Decisions
  imports Owner
begin

section \<open>The decision procedure (\<open>internal/webhook/handler.go\<close>)\<close>

text \<open>
  The checks of \<open>handler.go\<close> that decide a request on a Flux-managed object: ownership of
  a Flux reconciler, the two annotations, and the CREATE, UPDATE and DELETE rules.  A check
  that may touch the cluster or the metrics returns its decision with the world.
\<close>

subsection \<open>Definitions\<close>

record decision_result =
  dr_allowed :: bool
  dr_reason :: string
  dr_message :: string

definition decisionResult :: "bool \<Rightarrow> string \<Rightarrow> string \<Rightarrow> decision_result" where
  "decisionResult allowed reason message =
     \<lparr>dr_allowed = allowed, dr_reason = reason, dr_message = message\<rparr>"

definition messageManagedFieldsError :: string where
  "messageManagedFieldsError = ''failed to extract managed fields from Flux-managed resource''"

definition fluxOwnerKey :: "flux_management_info \<Rightarrow> string" where
  "fluxOwnerKey info =
     (if \<not> IsManaged info then ''<none>'' else ControllerNS info @ ''/'' @ ControllerName info)"

definition isOwningController :: "string \<Rightarrow> string_map \<Rightarrow> string_map \<Rightarrow> bool" where
  "isOwningController operation newLabels oldLabels =
     (if operation \<noteq> Update then True
      else
        list_all (\<lambda>key. str_at oldLabels key = str_at newLabels key)
          [KustomizeLabelName, KustomizeLabelNamespace, HelmLabelName, HelmLabelNamespace])"

definition checkFluxOwnership ::
    "request \<Rightarrow> object_meta \<Rightarrow> object_meta \<Rightarrow> flux_management_info \<Rightarrow> world \<Rightarrow>
       decision_result \<times> world" where
  "checkFluxOwnership req objMeta oldObjMeta fluxInfo w =
     (if \<not> isOwningController (req_Operation req) (om_Labels objMeta) (om_Labels oldObjMeta) then
        (decisionResult False ReasonDeniedWrongFluxController
           (''Flux controller mismatch: resource managed by '' @
            ControllerNS fluxInfo @ ''/'' @ ControllerName fluxInfo @
            '', but modification attempted by different controller''),
         RecordOwnershipConflict (gvk_Kind (req_Kind req))
           (fluxOwnerKey (GetFluxManagementInfo (om_Labels oldObjMeta)))
           (fluxOwnerKey fluxInfo) w)
      else
        (decisionResult True ReasonAllowedOwningFluxController
           ''request from owning Flux controller'', w))"

text \<open>The metadata that holds the pre-request state: the old object's on UPDATE.\<close>

definition checkBypassAnnotation ::
    "request \<Rightarrow> object_meta \<Rightarrow> object_meta \<Rightarrow> decision_result option" where
  "checkBypassAnnotation req objMeta oldObjMeta =
     (if req_Operation req = Create then None
      else
        let bypassMeta = (if req_Operation req = Update then oldObjMeta else objMeta) in
        if HasBypassAnnotation (om_Annotations bypassMeta)
        then Some (decisionResult True ReasonAllowedBypassAnnotation ''bypass annotation present'')
        else None)"

definition checkReconcileDisabled ::
    "request \<Rightarrow> object_meta \<Rightarrow> object_meta \<Rightarrow> flux_management_info \<Rightarrow> decision_result option" where
  "checkReconcileDisabled req objMeta oldObjMeta fluxInfo =
     (if ManagedBy fluxInfo \<noteq> ManagedByKustomization \<or> req_Operation req = Create then None
      else
        let meta = (if req_Operation req = Update then oldObjMeta else objMeta) in
        if IsReconcileDisabled (om_Annotations meta)
        then Some (decisionResult True ReasonAllowedReconcileDisabled
               (''Flux reconciliation is disabled for this object '' @
                ''(kustomize.toolkit.fluxcd.io/reconcile: disabled)''))
        else None)"

definition checkDerivedResourceCreate ::
    "('s, 'k) deps \<Rightarrow> handler \<Rightarrow> request \<Rightarrow> object_meta \<Rightarrow> flux_management_info \<Rightarrow> world \<Rightarrow>
       decision_result \<times> world" where
  "checkDerivedResourceCreate D h req objMeta fluxInfo w =
     (let ((found, available), w) = ownerInventoryContains D h req objMeta fluxInfo w in
      if available \<and> found then
        (decisionResult False ReasonDeniedCreateFluxLabels
           (''cannot create resource declared in the Flux inventory of '' @
            ControllerNS fluxInfo @ ''/'' @ ControllerName fluxInfo), w)
      else if GetControllerOf D (om_OwnerReferences objMeta) \<noteq> None then
        (decisionResult True ReasonAllowedOwnedResource
           (''resource has a controller ownerReference; '' @
            ''Flux labels are inherited from its parent''), w)
      else if IsSystemController (req_UserInfo req) (SystemControllerSAs h) then
        (decisionResult True ReasonAllowedSystemController
           ''request from a recognised Kubernetes control-plane controller'', w)
      else if available then
        (decisionResult True ReasonAllowedNotInOwnerInventory
           (''object is not in the owning Flux inventory; '' @
            ''Flux labels are inherited from a parent''), w)
      else
        (decisionResult False ReasonDeniedCreateInventoryUnavail
           (''cannot verify against the Flux inventory of '' @
            ControllerNS fluxInfo @ ''/'' @ ControllerName fluxInfo @
            '' (owner unreadable or not yet reconciled); '' @
            ''resource carries Flux management labels''), w))"

definition checkDeleteManaged ::
    "('s, 'k) deps \<Rightarrow> handler \<Rightarrow> request \<Rightarrow> object_meta \<Rightarrow> flux_management_info \<Rightarrow>
       decision_result" where
  "checkDeleteManaged D h req objMeta fluxInfo =
     (case FluxManagedFields D (om_ManagedFields objMeta) of
        None \<Rightarrow> decisionResult False ReasonDeniedManagedFieldsError messageManagedFieldsError
      | Some fluxManagedFields \<Rightarrow>
          if fs_Empty D fluxManagedFields then
            decisionResult True ReasonAllowedNoFluxManagedFields
              (''resource carries Flux labels by inheritance but was not applied by Flux; '' @
               ''deletion allowed'')
          else if IsSystemController (req_UserInfo req) (SystemControllerSAs h) then
            decisionResult True ReasonAllowedSystemController
              ''deletion by a recognised Kubernetes control-plane controller''
          else
            decisionResult False ReasonDeniedDeleteFluxManaged
              (''cannot delete Flux-managed resource (managed by '' @
               ControllerNS fluxInfo @ ''/'' @ ControllerName fluxInfo @ '')''))"

definition driftIgnoreSet ::
    "('s, 'k) deps \<Rightarrow> handler \<Rightarrow> request \<Rightarrow> object_meta \<Rightarrow> flux_management_info \<Rightarrow> world \<Rightarrow>
       's \<times> world" where
  "driftIgnoreSet D h req oldObjMeta fluxInfo w =
     (if ManagedBy fluxInfo \<noteq> ManagedByKustomization then (fs_NewSet D, w)
      else
        (case getOwner h fluxInfo w of
           (None, w) \<Rightarrow> (fs_NewSet D, w)
         | (Some owner, w) \<Rightarrow>
             let rules = parseIgnoreRules D owner in
             if rules = [] then (fs_NewSet D, w)
             else
               (case ignoreSetForObject D rules (req_Kind req)
                       (cmp_Or [] (om_Name oldObjMeta) (req_Name req))
                       (cmp_Or [] (om_Namespace oldObjMeta) (req_Namespace req))
                       (om_Labels oldObjMeta) (om_Annotations oldObjMeta) of
                  None \<Rightarrow> (fs_NewSet D, w)
                | Some ignoreSet \<Rightarrow> (ignoreSet, w))))"

text \<open>Either the deny decision of a parse failure, or the modified fields.\<close>

definition parseAndDiff :: "('s, 'k) deps \<Rightarrow> request \<Rightarrow> decision_result + 's" where
  "parseAndDiff D req =
     (case unmarshal_object D (req_OldObject req) of
        None \<Rightarrow>
          Inl (decisionResult False ReasonDeniedParseError
                 ''failed to parse old object for Flux-managed resource'')
      | Some oldObj \<Rightarrow>
          (case unmarshal_object D (req_Object req) of
             None \<Rightarrow>
               Inl (decisionResult False ReasonDeniedParseError
                      ''failed to parse new object for Flux-managed resource'')
           | Some newObj \<Rightarrow> Inr (ComputeFieldDiff D (Some oldObj) (Some newObj))))"

text \<open>The end of \<open>checkUpdateFieldConflict\<close>, from the resolved ignore set on.\<close>

definition conflictDecision ::
    "('s, 'k) deps \<Rightarrow> object_meta \<Rightarrow> flux_management_info \<Rightarrow> 's \<Rightarrow> 's \<Rightarrow> 's \<Rightarrow>
       decision_result" where
  "conflictDecision D objMeta fluxInfo fluxManagedFields conflict ignoreSet =
     (let remaining = WaiveIgnoredConflicts D (Some conflict) (Some ignoreSet) in
      if \<not> fs_Empty D remaining then
        decisionResult False ReasonDeniedUpdateFluxManaged
          (''cannot modify Flux-managed fields (managed by '' @
           ControllerNS fluxInfo @ ''/'' @ ControllerName fluxInfo @ ''): '' @
           fs_String D remaining)
      else
        (case FluxManagedFields D (om_ManagedFields objMeta) of
           None \<Rightarrow> decisionResult False ReasonDeniedManagedFieldsError messageManagedFieldsError
         | Some newFluxFields \<Rightarrow>
             let removed =
                   WaiveIgnoredConflicts D
                     (Some (fs_Difference D fluxManagedFields newFluxFields)) (Some ignoreSet) in
             if \<not> fs_Empty D removed then
               decisionResult False ReasonDeniedManagedFieldsTampered
                 (''cannot release Flux field ownership (managed by '' @
                  ControllerNS fluxInfo @ ''/'' @ ControllerName fluxInfo @ ''): '' @
                  fs_String D removed)
             else if \<not> fs_Empty D conflict then
               decisionResult True ReasonAllowedDriftIgnoredField
                 (''modified fields are excluded from drift detection by the owning '' @
                  ''Kustomization's .spec.ignore'')
             else
               decisionResult True ReasonAllowedNoFieldConflict
                 ''modified fields do not overlap with Flux-managed fields''))"

definition checkUpdateFieldConflict ::
    "('s, 'k) deps \<Rightarrow> handler \<Rightarrow> request \<Rightarrow> object_meta \<Rightarrow> object_meta \<Rightarrow>
       flux_management_info \<Rightarrow> world \<Rightarrow> decision_result \<times> world" where
  "checkUpdateFieldConflict D h req objMeta oldObjMeta fluxInfo w =
     (case FluxManagedFields D (om_ManagedFields oldObjMeta) of
        None \<Rightarrow>
          (decisionResult False ReasonDeniedManagedFieldsError messageManagedFieldsError, w)
      | Some fluxManagedFields \<Rightarrow>
          if fs_Empty D fluxManagedFields then
            (decisionResult True ReasonAllowedNoFluxManagedFields
               ''no Flux-managed fields detected'', w)
          else
            let (key, added) =
                  protectionDisablingAnnotationAdded (om_Annotations oldObjMeta)
                    (om_Annotations objMeta) in
            if added then
              (decisionResult False ReasonDeniedBypassAnnotationAdded
                 (''the '' @ key @ '' annotation must be applied via Git (managed by '' @
                  ControllerNS fluxInfo @ ''/'' @ ControllerName fluxInfo @
                  ''), not added directly''), w)
            else
              (case parseAndDiff D req of
                 Inl parseDenied \<Rightarrow> (parseDenied, w)
               | Inr modifiedFields \<Rightarrow>
                   let conflict =
                         GetConflictingFields D (Some modifiedFields) (Some fluxManagedFields);
                       (ignoreSet, w) =
                         (if \<not> fs_Empty D conflict
                          then driftIgnoreSet D h req oldObjMeta fluxInfo w
                          else (fs_NewSet D, w)) in
                   (conflictDecision D objMeta fluxInfo fluxManagedFields conflict ignoreSet, w)))"

definition operationDecision ::
    "('s, 'k) deps \<Rightarrow> handler \<Rightarrow> request \<Rightarrow> object_meta \<Rightarrow> object_meta \<Rightarrow>
       flux_management_info \<Rightarrow> world \<Rightarrow> decision_result \<times> world" where
  "operationDecision D h req objMeta oldObjMeta fluxInfo w =
     (if req_Operation req = Create then
        checkDerivedResourceCreate D h req objMeta fluxInfo w
      else if req_Operation req = Update then
        checkUpdateFieldConflict D h req objMeta oldObjMeta fluxInfo w
      else if req_Operation req = Delete then
        (checkDeleteManaged D h req objMeta fluxInfo, w)
      else
        (decisionResult True ReasonAllowedUnknownOperation ''unknown operation, allowing'', w))"

definition checkBypass ::
    "('s, 'k) deps \<Rightarrow> handler \<Rightarrow> request \<Rightarrow> object_meta \<Rightarrow> object_meta \<Rightarrow>
       flux_management_info \<Rightarrow> world \<Rightarrow> decision_result \<times> world" where
  "checkBypass D h req objMeta oldObjMeta fluxInfo w =
     (case isOwningFluxReconciler D h req fluxInfo w of
        (True, w) \<Rightarrow> checkFluxOwnership req objMeta oldObjMeta fluxInfo w
      | (False, w) \<Rightarrow>
          (case checkBypassAnnotation req objMeta oldObjMeta of
             Some d \<Rightarrow> (d, w)
           | None \<Rightarrow>
               (case checkReconcileDisabled req objMeta oldObjMeta fluxInfo of
                  Some d \<Rightarrow> (d, w)
                | None \<Rightarrow>
                    if req_Operation req = Delete then
                      if IsBeingDeleted objMeta then
                        (decisionResult True ReasonAllowedDeletionInProgress
                           ''resource already being deleted'', w)
                      else
                        (case namespaceIsTerminating h (req_Namespace req) w of
                           (True, w) \<Rightarrow>
                             (decisionResult True ReasonAllowedNamespaceTerminating
                                ''namespace is terminating; cascade deletion allowed'', w)
                         | (False, w) \<Rightarrow>
                             operationDecision D h req objMeta oldObjMeta fluxInfo w)
                    else operationDecision D h req objMeta oldObjMeta fluxInfo w)))"

end
