(* ===== verification/Handler.thy ===== *)
theory Handler
  imports Decisions
begin

section \<open>The admission handler (\<open>internal/webhook/handler.go\<close>)\<close>

text \<open>
  \<open>Handle\<close>: from an admission request to a response, with the world threaded through.
  \<^const>\<open>None\<close> is a panic, which only the namespace filter without a client can cause.
\<close>

subsection \<open>Definitions\<close>

definition extractMetadata :: "('s, 'k) deps \<Rightarrow> string \<Rightarrow> object_meta option" where
  "extractMetadata D raw = unmarshal_metadata D raw"

text \<open>The new and the old metadata; the values beside an error are not used by the caller.\<close>

definition extractRequestMetadata ::
    "('s, 'k) deps \<Rightarrow> request \<Rightarrow> (object_meta \<times> object_meta) option" where
  "extractRequestMetadata D req =
     (if req_Operation req = Delete then
        (case extractMetadata D (req_OldObject req) of
           None \<Rightarrow> None
         | Some objMeta \<Rightarrow> Some (objMeta, zero_object_meta))
      else
        (case extractMetadata D (req_Object req) of
           None \<Rightarrow> None
         | Some objMeta \<Rightarrow>
             if req_Operation req = Update then
               (case extractMetadata D (req_OldObject req) of
                  None \<Rightarrow> None
                | Some oldObjMeta \<Rightarrow> Some (objMeta, oldObjMeta))
             else Some (objMeta, zero_object_meta)))"

text \<open>The audit warning starts with the UTF-8 bytes of a warning sign.\<close>

definition audit_warning :: string where
  "audit_warning =
     [CHR 0xE2, CHR 0x9A, CHR 0xA0, CHR 0xEF, CHR 0xB8, CHR 0x8F] @
     ''  AUDIT MODE: This operation would be BLOCKED in enforce mode''"

definition deny_warnings :: "string list" where
  "deny_warnings =
     [''This operation is blocked by Flux drift prevention'',
      ''To fix: modify the resource in Git; for manual intervention, apply the '' @
      ''fluxcd.io/drift-prevention-bypass: disabled annotation via Git first'']"

definition buildResponse ::
    "handler \<Rightarrow> request \<Rightarrow> decision_result \<Rightarrow> world \<Rightarrow> response \<times> world" where
  "buildResponse h req decision w =
     (let w = RecordRequest (req_Operation req) (dr_reason decision) w;
          w = (if \<not> dr_allowed decision
               then RecordDenial (req_Operation req) (gvk_Kind (req_Kind req)) w else w) in
      if AuditOnly h \<and> \<not> dr_allowed decision then
        ((admission_Allowed (''audit-only: '' @ dr_message decision))
           \<lparr>resp_Warnings := [audit_warning, dr_message decision]\<rparr>, w)
      else if dr_allowed decision then (admission_Allowed (dr_message decision), w)
      else ((admission_Denied (dr_message decision))\<lparr>resp_Warnings := deny_warnings\<rparr>, w))"

text \<open>\<^term>\<open>Some resp\<close> when the request is to be skipped.\<close>

definition checkNamespaceScope ::
    "handler \<Rightarrow> request \<Rightarrow> world \<Rightarrow> (response option \<times> world) option" where
  "checkNamespaceScope h req w =
     (case shouldProcessNamespace h (req_Namespace req) w of
        None \<Rightarrow> None
      | Some ((shouldProcess, err), w) \<Rightarrow>
          if shouldProcess then Some (None, w)
          else
            Some (Some (admission_Allowed ''namespace not in webhook scope''),
                  RecordRequest (req_Operation req) ReasonAllowedNamespaceFilter w))"

text \<open>\<open>Handle\<close> between the namespace scope and the deferred timer.\<close>

definition handle_scoped ::
    "('s, 'k) deps \<Rightarrow> handler \<Rightarrow> request \<Rightarrow> world \<Rightarrow> response \<times> world" where
  "handle_scoped D h req w =
     (case extractRequestMetadata D req of
        None \<Rightarrow>
          buildResponse h req
            (decisionResult False ReasonDeniedMetadataError
               ''failed to extract metadata from request'') w
      | Some (objMeta, oldObjMeta) \<Rightarrow>
          let fluxInfo = GetFluxManagementInfo (om_Labels objMeta);
              fluxInfo =
                (if \<not> IsManaged fluxInfo \<and> req_Operation req = Update
                 then GetFluxManagementInfo (om_Labels oldObjMeta) else fluxInfo) in
          if \<not> IsManaged fluxInfo then
            (admission_Allowed ''not managed by Flux'',
             RecordRequest (req_Operation req) ReasonAllowedNotManaged w)
          else
            let (decision, w) = checkBypass D h req objMeta oldObjMeta fluxInfo w in
            buildResponse h req decision w)"

definition Handle ::
    "('s, 'k) deps \<Rightarrow> handler \<Rightarrow> request \<Rightarrow> world \<Rightarrow> (response \<times> world) option" where
  "Handle D h req w =
     (if req_SubResource req \<noteq> [] then
        Some (admission_Allowed ''subresource not subject to drift prevention'',
              RecordRequest (req_Operation req) ReasonAllowedSubresource w)
      else if slices_Contains ExcludedGroups (gvr_Group (req_Resource req)) then
        Some (admission_Allowed ''API group excluded from drift prevention'',
              RecordRequest (req_Operation req) ReasonAllowedExcludedGroup w)
      else
        let timer = StartTimer (req_Operation req) in
        (case checkNamespaceScope h req w of
           None \<Rightarrow> None
         | Some (Some resp, w) \<Rightarrow> Some (resp, ObserveDuration timer w)
         | Some (None, w) \<Rightarrow>
             let (resp, w) = handle_scoped D h req w in
             Some (resp, ObserveDuration timer w)))"

end
