(* ===== verification/Handler_Contract.thy ===== *)
theory Handler_Contract
  imports Handler
begin

section \<open>The contract of a decision\<close>

subsection \<open>Definitions\<close>

definition decision_ok :: "decision_result \<Rightarrow> bool" where
  "decision_ok d =
     (dr_reason d \<in> set AllDecisionReasons \<and> dr_allowed d = allow_reason (dr_reason d))"

text \<open>The events a check may cause besides the request's own: lookup errors and conflicts.\<close>

fun side_event :: "metric_event \<Rightarrow> bool" where
  "side_event (CounterInc n ls) =
     (n = col_Name ownerLookupErrorsTotal \<and> length ls = 1 \<or>
      n = col_Name ownershipConflictsTotal \<and> length ls = 3)"
| "side_event _ = False"

definition side_effects :: "nat \<Rightarrow> world \<Rightarrow> world \<Rightarrow> bool" where
  "side_effects n w w' =
     (w_reads w \<le> w_reads w' \<and> w_reads w' \<le> w_reads w + n \<and>
      (\<exists>es. w_metrics w' = w_metrics w @ es \<and> list_all side_event es))"

text \<open>The calls on one counter vector, in order.\<close>

fun counter_call :: "collector \<Rightarrow> metric_event \<Rightarrow> bool" where
  "counter_call c (CounterInc n ls) = (n = col_Name c)"
| "counter_call c _ = False"

definition calls :: "collector \<Rightarrow> world \<Rightarrow> metric_event list" where
  "calls c w = filter (counter_call c) (w_metrics w)"

definition request_event :: "request \<Rightarrow> string \<Rightarrow> metric_event" where
  "request_event req reason =
     CounterInc (col_Name requestsTotal) [req_Operation req, reason]"

definition denial_event :: "request \<Rightarrow> metric_event" where
  "denial_event req =
     CounterInc (col_Name denialsTotal) [req_Operation req, gvk_Kind (req_Kind req)]"

text \<open>What one request with the given reason adds to the two request counters.\<close>

definition accounted :: "request \<Rightarrow> string \<Rightarrow> world \<Rightarrow> world \<Rightarrow> bool" where
  "accounted req reason w w' =
     (calls requestsTotal w' = calls requestsTotal w @ [request_event req reason] \<and>
      calls denialsTotal w' =
        calls denialsTotal w @ (if deny_reason reason then [denial_event req] else []))"

subsection \<open>Bookkeeping\<close>

lemma collector_name_neq [simp]:
  "col_Name requestsTotal \<noteq> col_Name denialsTotal"
  "col_Name denialsTotal \<noteq> col_Name requestsTotal"
  "col_Name requestsTotal \<noteq> col_Name ownerLookupErrorsTotal"
  "col_Name ownerLookupErrorsTotal \<noteq> col_Name requestsTotal"
  "col_Name denialsTotal \<noteq> col_Name ownerLookupErrorsTotal"
  "col_Name ownerLookupErrorsTotal \<noteq> col_Name denialsTotal"
  "col_Name requestsTotal \<noteq> col_Name ownershipConflictsTotal"
  "col_Name ownershipConflictsTotal \<noteq> col_Name requestsTotal"
  "col_Name denialsTotal \<noteq> col_Name ownershipConflictsTotal"
  "col_Name ownershipConflictsTotal \<noteq> col_Name denialsTotal"
  by (simp_all add: collector_defs)

lemma decision_ok_decisionResult [simp]:
  "decision_ok (decisionResult a r m) \<longleftrightarrow> r \<in> set AllDecisionReasons \<and> a = allow_reason r"
  by (simp add: decision_ok_def decisionResult_def)

lemma decisionResult_sel [simp]:
  "dr_allowed (decisionResult a r m) = a"
  "dr_reason (decisionResult a r m) = r"
  "dr_message (decisionResult a r m) = m"
  by (simp_all add: decisionResult_def)

lemma not_allow_reason [simp]:
  "deny_reason r \<Longrightarrow> \<not> allow_reason r"
  using allow_not_deny by blast

lemma decision_ok_deny: "decision_ok d \<Longrightarrow> deny_reason (dr_reason d) \<longleftrightarrow> \<not> dr_allowed d"
  using AllDecisionReasons_cases allow_not_deny by (auto simp: decision_ok_def)

lemma lookup_error_side: "lookup_error e \<Longrightarrow> side_event e"
  by (cases e) auto

lemma only_reads_side_effects: "only_reads n w w' \<Longrightarrow> side_effects n w w'"
  unfolding only_reads_def side_effects_def
  by (auto simp: list_all_iff lookup_error_side)

lemma side_effects_refl [simp]: "side_effects n w w"
  by (simp add: side_effects_def)

lemma side_effects_trans:
  assumes "side_effects m w w1" and "side_effects n w1 w2"
  shows "side_effects (m + n) w w2"
proof -
  from assms obtain es es' where "w_metrics w1 = w_metrics w @ es" "list_all side_event es"
    "w_metrics w2 = w_metrics w1 @ es'" "list_all side_event es'"
    unfolding side_effects_def by auto
  then have "w_metrics w2 = w_metrics w @ (es @ es') \<and> list_all side_event (es @ es')" by simp
  with assms show ?thesis unfolding side_effects_def by (intro conjI exI [of _ "es @ es'"]) auto
qed

lemma side_effects_le: "side_effects n w w' \<Longrightarrow> w \<le> w'"
  by (auto simp: side_effects_def world_le_iff)

lemma side_effects_mono: "side_effects m w w' \<Longrightarrow> m \<le> n \<Longrightarrow> side_effects n w w'"
  by (auto simp: side_effects_def)

lemma side_effects_conflict [simp]:
  "side_effects n w (RecordOwnershipConflict a b c w)"
  by (simp add: side_effects_def record_metrics)

lemma side_event_well_labelled: "side_event e \<Longrightarrow> well_labelled e"
proof (cases e)
  case (CounterInc n ls)
  moreover assume "side_event e"
  ultimately have "(\<exists>k. e = CounterInc (col_Name ownerLookupErrorsTotal) [k]) \<or>
      (\<exists>a b c. e = CounterInc (col_Name ownershipConflictsTotal) [a, b, c])"
    by (auto simp: length_Suc_conv eval_nat_numeral)
  then show ?thesis by (elim disjE exE) (simp_all only: well_labelled_events)
qed simp

lemma side_event_no_call [simp]:
  "side_event e \<Longrightarrow> \<not> counter_call requestsTotal e"
  "side_event e \<Longrightarrow> \<not> counter_call denialsTotal e"
  by (cases e; auto)+

lemma side_effects_calls:
  "side_effects n w w' \<Longrightarrow> calls requestsTotal w' = calls requestsTotal w"
  "side_effects n w w' \<Longrightarrow> calls denialsTotal w' = calls denialsTotal w"
  by (auto simp: side_effects_def calls_def list_all_iff filter_empty_conv)

lemma side_effects_metrics_ok: "side_effects n w w' \<Longrightarrow> metrics_ok w' = metrics_ok w"
  by (auto simp: side_effects_def metrics_ok_def list_all_iff side_event_well_labelled
      simp del: well_labelled.simps)

lemma calls_simps [simp]:
  "calls c (RecordRequest a b w) =
     calls c w @ (if col_Name c = col_Name requestsTotal
                  then [CounterInc (col_Name requestsTotal) [a, b]] else [])"
  "calls c (RecordDenial a b w) =
     calls c w @ (if col_Name c = col_Name denialsTotal
                  then [CounterInc (col_Name denialsTotal) [a, b]] else [])"
  "calls c (ObserveDuration t w) = calls c w"
  "calls c (count_read w) = calls c w"
  by (simp_all add: calls_def record_metrics)

text \<open>Answering a decision: one request event, a denial event when it denies.\<close>

lemma buildResponse_reads [simp]: "w_reads (snd (buildResponse h req d w)) = w_reads w"
  by (simp add: buildResponse_def Let_def)

lemma buildResponse_metrics_ok [simp]:
  "metrics_ok (snd (buildResponse h req d w)) = metrics_ok w"
  by (simp add: buildResponse_def Let_def)

lemma buildResponse_le: "w \<le> snd (buildResponse h req d w)"
  by (auto simp: buildResponse_def Let_def world_le_iff record_metrics)

lemma buildResponse_accounted:
  "decision_ok d \<Longrightarrow> accounted req (dr_reason d) w (snd (buildResponse h req d w))"
  by (auto simp: accounted_def buildResponse_def Let_def decision_ok_deny request_event_def
      denial_event_def)

lemma buildResponse_Allowed:
  "resp_Allowed (fst (buildResponse h req d w)) \<longleftrightarrow> dr_allowed d \<or> AuditOnly h"
  by (simp add: buildResponse_def Let_def admission_Allowed_def admission_Denied_def)

subsection \<open>The interface every check shares\<close>

text \<open>
  A check yields a decision of the contract, reads the cluster at most \<open>n\<close> times and leaves
  the request counters to \<open>buildResponse\<close>.  Answering its decision then accounts for the
  request exactly once.
\<close>

locale request_check =
  fixes check :: "world \<Rightarrow> decision_result \<times> world"
    and n :: nat
  assumes check_ok: "decision_ok (fst (check w))"
    and check_effects: "side_effects n w (snd (check w))"
begin

lemma answered_accounted:
  "accounted req (dr_reason (fst (check w))) w
     (snd (buildResponse h req (fst (check w)) (snd (check w))))"
  using buildResponse_accounted [OF check_ok, of req w "snd (check w)" h]
    side_effects_calls [OF check_effects [of w]]
  by (simp add: accounted_def)

lemma answered_reads:
  "w_reads (snd (buildResponse h req (fst (check w)) (snd (check w)))) \<le> w_reads w + n"
  using check_effects [of w] by (simp add: side_effects_def)

lemma answered_le: "w \<le> snd (buildResponse h req (fst (check w)) (snd (check w)))"
  using side_effects_le [OF check_effects [of w]] buildResponse_le by (rule order_trans)

lemma answered_metrics_ok:
  "metrics_ok (snd (buildResponse h req (fst (check w)) (snd (check w)))) = metrics_ok w"
  using side_effects_metrics_ok [OF check_effects [of w]] by simp

end

lemma conflictDecision_ok [simp]: "decision_ok (conflictDecision D objMeta fi f c ig)"
  by (auto simp: conflictDecision_def Let_def split: option.splits)

interpretation flux_ownership: request_check "checkFluxOwnership req objMeta oldObjMeta fi" 0
  for req objMeta oldObjMeta fi
  by unfold_locales (auto simp: checkFluxOwnership_def)

lemma checkDerivedResourceCreate_world:
  "snd (checkDerivedResourceCreate D h req objMeta fi w) =
     snd (ownerInventoryContains D h req objMeta fi w)"
  by (simp add: checkDerivedResourceCreate_def Let_def split: prod.splits)

interpretation derived_create: request_check "checkDerivedResourceCreate D h req objMeta fi" 1
  for D :: "('s, 'k) deps" and h req objMeta fi
proof
  fix w
  show "decision_ok (fst (checkDerivedResourceCreate D h req objMeta fi w))"
    by (auto simp: checkDerivedResourceCreate_def Let_def split: prod.splits)
  show "side_effects 1 w (snd (checkDerivedResourceCreate D h req objMeta fi w))"
    unfolding checkDerivedResourceCreate_world
    by (intro only_reads_side_effects only_reads_ownerInventoryContains)
qed

lemma only_reads_driftIgnoreSet: "only_reads 1 w (snd (driftIgnoreSet D h req om fi w))"
  using only_reads_getOwner [of w h fi]
  by (auto simp: driftIgnoreSet_def Let_def split: option.splits prod.splits)

lemma parseAndDiff_ok: "parseAndDiff D req = Inl d \<Longrightarrow> decision_ok d"
  by (auto simp: parseAndDiff_def split: option.splits)

interpretation update_conflict:
  request_check "checkUpdateFieldConflict D h req objMeta oldObjMeta fi" 1
  for D :: "('s, 'k) deps" and h req objMeta oldObjMeta fi
proof
  fix w
  show "decision_ok (fst (checkUpdateFieldConflict D h req objMeta oldObjMeta fi w))"
    using parseAndDiff_ok [of D req]
    by (auto simp: checkUpdateFieldConflict_def Let_def split: option.splits prod.splits sum.splits)
  show "side_effects 1 w (snd (checkUpdateFieldConflict D h req objMeta oldObjMeta fi w))"
    using only_reads_driftIgnoreSet [of w D h req oldObjMeta fi, THEN only_reads_side_effects]
    by (auto simp: checkUpdateFieldConflict_def Let_def split: option.splits prod.splits sum.splits)
qed

lemma checkDeleteManaged_ok [simp]: "decision_ok (checkDeleteManaged D h req objMeta fi)"
  by (auto simp: checkDeleteManaged_def split: option.splits)

interpretation operation_decision:
  request_check "operationDecision D h req objMeta oldObjMeta fi" 1
  for D :: "('s, 'k) deps" and h req objMeta oldObjMeta fi
proof
  fix w
  show "decision_ok (fst (operationDecision D h req objMeta oldObjMeta fi w))"
    by (simp add: operationDecision_def derived_create.check_ok update_conflict.check_ok)
  show "side_effects 1 w (snd (operationDecision D h req objMeta oldObjMeta fi w))"
    by (simp add: operationDecision_def derived_create.check_effects update_conflict.check_effects
        del: One_nat_def)
qed

text \<open>The whole decision: one read for the requester's identity, one more for the rest.\<close>

lemma checkBypassAnnotation_ok: "checkBypassAnnotation req m m' = Some d \<Longrightarrow> decision_ok d"
  by (auto simp: checkBypassAnnotation_def Let_def split: if_splits)

lemma checkReconcileDisabled_ok: "checkReconcileDisabled req m m' fi = Some d \<Longrightarrow> decision_ok d"
  by (auto simp: checkReconcileDisabled_def Let_def split: if_splits)

lemma operationDecision_Delete_world:
  "req_Operation req = Delete \<Longrightarrow> snd (operationDecision D h req objMeta oldObjMeta fi w) = w"
  by (simp add: operationDecision_def)

lemma namespaceIsTerminating_effects:
  "namespaceIsTerminating h ns w = (b, w1) \<Longrightarrow> side_effects 1 w w1"
  using only_reads_namespaceIsTerminating [of w h ns]
  by (intro only_reads_side_effects) simp

text \<open>What follows the test of the requester's identity in \<open>checkBypass\<close>.\<close>

definition decide_other ::
    "('s, 'k) deps \<Rightarrow> handler \<Rightarrow> request \<Rightarrow> object_meta \<Rightarrow> object_meta \<Rightarrow>
       flux_management_info \<Rightarrow> world \<Rightarrow> decision_result \<times> world" where
  "decide_other D h req objMeta oldObjMeta fi w =
     (case checkBypassAnnotation req objMeta oldObjMeta of
        Some d \<Rightarrow> (d, w)
      | None \<Rightarrow>
          (case checkReconcileDisabled req objMeta oldObjMeta fi of
             Some d \<Rightarrow> (d, w)
           | None \<Rightarrow>
               if req_Operation req = Delete then
                 if IsBeingDeleted objMeta then
                   (decisionResult True ReasonAllowedDeletionInProgress
                      ''resource already being deleted'', w)
                 else
                   (case namespaceIsTerminating h (req_Namespace req) w of
                      (True, w) \<Rightarrow>
                        (decisionResult True ReasonAllowedNamespaceTerminating
                           ''namespace is terminating; cascade deletion allowed'', w)
                    | (False, w) \<Rightarrow> operationDecision D h req objMeta oldObjMeta fi w)
               else operationDecision D h req objMeta oldObjMeta fi w))"

lemma checkBypass_split:
  "checkBypass D h req objMeta oldObjMeta fi w =
     (case isOwningFluxReconciler D h req fi w of
        (True, w) \<Rightarrow> checkFluxOwnership req objMeta oldObjMeta fi w
      | (False, w) \<Rightarrow> decide_other D h req objMeta oldObjMeta fi w)"
  by (simp add: checkBypass_def decide_other_def split: prod.splits bool.splits)

interpretation other_requester: request_check "decide_other D h req objMeta oldObjMeta fi" 1
  for D :: "('s, 'k) deps" and h req objMeta oldObjMeta fi
proof
  fix w
  show "decision_ok (fst (decide_other D h req objMeta oldObjMeta fi w))"
    by (auto simp: decide_other_def checkBypassAnnotation_ok checkReconcileDisabled_ok
        operation_decision.check_ok split: option.splits prod.splits bool.splits)
  show "side_effects 1 w (snd (decide_other D h req objMeta oldObjMeta fi w))"
    by (auto simp: decide_other_def namespaceIsTerminating_effects
        operationDecision_Delete_world operation_decision.check_effects
        split: option.splits prod.splits bool.splits simp del: One_nat_def)
qed

interpretation bypass: request_check "checkBypass D h req objMeta oldObjMeta fi" 2
  for D :: "('s, 'k) deps" and h req objMeta oldObjMeta fi
proof
  fix w
  show "decision_ok (fst (checkBypass D h req objMeta oldObjMeta fi w))"
    by (simp add: checkBypass_split flux_ownership.check_ok other_requester.check_ok
        split: prod.splits bool.splits)
  obtain b w1 where o: "isOwningFluxReconciler D h req fi w = (b, w1)" by fastforce
  have 1: "side_effects 1 w w1"
    using only_reads_isOwningFluxReconciler [of w D h req fi] o
    by (intro only_reads_side_effects) simp
  have "side_effects (1 + 0) w (snd (checkFluxOwnership req objMeta oldObjMeta fi w1))"
    by (rule side_effects_trans [OF 1 flux_ownership.check_effects])
  then have 2: "side_effects 2 w (snd (checkFluxOwnership req objMeta oldObjMeta fi w1))"
    by (rule side_effects_mono) simp
  have "side_effects (1 + 1) w (snd (decide_other D h req objMeta oldObjMeta fi w1))"
    by (rule side_effects_trans [OF 1 other_requester.check_effects])
  then have "side_effects 2 w (snd (decide_other D h req objMeta oldObjMeta fi w1))"
    by (rule side_effects_mono) simp
  with 2 show "side_effects 2 w (snd (checkBypass D h req objMeta oldObjMeta fi w))"
    by (simp add: checkBypass_split o split: bool.splits)
qed

end
