(* ===== verification/Handler_Lemmas.thy ===== *)
theory Handler_Lemmas
  imports Handler_Contract
begin

section \<open>The handler as a whole\<close>

text \<open>
  What holds of every answer of \<open>Handle\<close> (\<open>answer_ok\<close>), which decision a request on a
  managed object gets (\<open>answered_with\<close>), when the handler panics, and how audit mode relates
  to enforce mode.
\<close>

subsection \<open>From \<open>Handle\<close> to the decision\<close>

definition request_fluxInfo ::
    "request \<Rightarrow> object_meta \<Rightarrow> object_meta \<Rightarrow> flux_management_info" where
  "request_fluxInfo req objMeta oldObjMeta =
     (let fluxInfo = GetFluxManagementInfo (om_Labels objMeta) in
      if \<not> IsManaged fluxInfo \<and> req_Operation req = Update
      then GetFluxManagementInfo (om_Labels oldObjMeta) else fluxInfo)"

text \<open>The world after the namespace read, when the request passes the three early exits.\<close>

definition scope_world :: "handler \<Rightarrow> request \<Rightarrow> world \<Rightarrow> world option" where
  "scope_world h req w =
     (if req_SubResource req \<noteq> [] \<or> gvr_Group (req_Resource req) \<in> set ExcludedGroups then None
      else
        (case checkNamespaceScope h req w of
           Some (None, w') \<Rightarrow> Some w'
         | _ \<Rightarrow> None))"

abbreviation in_scope :: "handler \<Rightarrow> request \<Rightarrow> world \<Rightarrow> world \<Rightarrow> bool" where
  "in_scope h req w w' \<equiv> scope_world h req w = Some w'"

lemma in_scope_iff:
  "in_scope h req w w' \<longleftrightarrow>
     req_SubResource req = [] \<and> gvr_Group (req_Resource req) \<notin> set ExcludedGroups \<and>
     checkNamespaceScope h req w = Some (None, w')"
  by (auto simp: scope_world_def split: option.splits)

text \<open>
  A request on a managed object by a requester that is not its owning reconciler: the two
  metadata and the world in which the decision is taken.
\<close>

definition guarded_request ::
    "('s, 'k) deps \<Rightarrow> handler \<Rightarrow> request \<Rightarrow> world \<Rightarrow>
       (object_meta \<times> object_meta \<times> world) option" where
  "guarded_request D h req w =
     (case scope_world h req w of
        None \<Rightarrow> None
      | Some w1 \<Rightarrow>
          (case extractRequestMetadata D req of
             None \<Rightarrow> None
           | Some (objMeta, oldObjMeta) \<Rightarrow>
               let fluxInfo = request_fluxInfo req objMeta oldObjMeta in
               if \<not> IsManaged fluxInfo then None
               else
                 (case isOwningFluxReconciler D h req fluxInfo w1 of
                    (True, w2) \<Rightarrow> None
                  | (False, w2) \<Rightarrow> Some (objMeta, oldObjMeta, w2))))"

lemma guarded_requestE:
  assumes "guarded_request D h req w = Some (om, old, w')"
  obtains w1 where "in_scope h req w w1" "extractRequestMetadata D req = Some (om, old)"
    "IsManaged (request_fluxInfo req om old)"
    "isOwningFluxReconciler D h req (request_fluxInfo req om old) w1 = (False, w')"
  using assms
  by (auto simp: guarded_request_def Let_def split: option.splits if_splits prod.splits bool.splits)

text \<open>\<open>Handle\<close> answers with this reason: counted once, and allowed as the reason and the mode say.\<close>

definition answered_with ::
    "('s, 'k) deps \<Rightarrow> handler \<Rightarrow> request \<Rightarrow> world \<Rightarrow> string \<Rightarrow> bool" where
  "answered_with D h req w reason =
     (case Handle D h req w of
        None \<Rightarrow> False
      | Some (resp, w') \<Rightarrow>
          accounted req reason w w' \<and>
          (resp_Allowed resp \<longleftrightarrow> allow_reason reason \<or> AuditOnly h))"

lemma answered_with_unique:
  "answered_with D h req w r \<Longrightarrow> answered_with D h req w r' \<Longrightarrow> r = r'"
  by (auto simp: answered_with_def accounted_def request_event_def split: option.splits)

lemma answered_with_denied:
  "answered_with D h req w r \<Longrightarrow> deny_reason r \<Longrightarrow> \<not> AuditOnly h \<Longrightarrow>
     \<exists>resp w'. Handle D h req w = Some (resp, w') \<and> \<not> resp_Allowed resp"
  by (auto simp: answered_with_def split: option.splits)

lemma scope_effects:
  "checkNamespaceScope h req w = Some (None, w') \<Longrightarrow> side_effects 1 w w'"
  using only_reads_shouldProcessNamespace [of h "req_Namespace req" w]
  by (auto simp: checkNamespaceScope_def only_reads_side_effects split: option.splits if_splits)

lemma Handle_in_scope:
  "in_scope h req w w1 \<Longrightarrow>
     Handle D h req w =
       (let (resp, w2) = handle_scoped D h req w1 in
        Some (resp, ObserveDuration (StartTimer (req_Operation req)) w2))"
  by (simp add: Handle_def in_scope_iff)

lemma handle_scoped_managed:
  "extractRequestMetadata D req = Some (om, old) \<Longrightarrow> IsManaged (request_fluxInfo req om old) \<Longrightarrow>
     handle_scoped D h req w =
       (let (d, w') = checkBypass D h req om old (request_fluxInfo req om old) w in
        buildResponse h req d w')"
  by (simp add: handle_scoped_def request_fluxInfo_def Let_def)

lemma handle_scoped_unmanaged:
  "extractRequestMetadata D req = Some (om, old) \<Longrightarrow>
     \<not> IsManaged (request_fluxInfo req om old) \<Longrightarrow>
     handle_scoped D h req w =
       (admission_Allowed ''not managed by Flux'',
        RecordRequest (req_Operation req) ReasonAllowedNotManaged w)"
  by (simp add: handle_scoped_def request_fluxInfo_def Let_def)

lemma accounted_after:
  "side_effects n w w1 \<Longrightarrow> accounted req r w1 w2 \<Longrightarrow>
     accounted req r w (ObserveDuration t w2)"
  by (simp add: accounted_def side_effects_calls)

lemma accounted_RecordRequest:
  "allow_reason r \<Longrightarrow> accounted req r w (RecordRequest (req_Operation req) r w)"
  using allow_not_deny [of r] by (simp add: accounted_def request_event_def)

text \<open>The decision of a managed request in scope, whoever asks.\<close>

lemma answered_with_decision:
  assumes "in_scope h req w w1" and "extractRequestMetadata D req = Some (om, old)"
    and "IsManaged (request_fluxInfo req om old)"
    and "checkBypass D h req om old (request_fluxInfo req om old) w1 = (d, w2)"
  shows "answered_with D h req w (dr_reason d)"
proof -
  have ok: "decision_ok d"
    using bypass.check_ok [of D h req om old "request_fluxInfo req om old" w1] assms(4) by simp
  have "accounted req (dr_reason d) w1 (snd (buildResponse h req d w2))"
    using bypass.answered_accounted [of req D h req om old "request_fluxInfo req om old" w1 h] assms(4)
    by simp
  then have acc: "accounted req (dr_reason d) w
      (ObserveDuration (StartTimer (req_Operation req)) (snd (buildResponse h req d w2)))"
    using assms(1) by (auto simp: in_scope_iff dest!: scope_effects intro: accounted_after)
  have "Handle D h req w =
      Some (fst (buildResponse h req d w2),
            ObserveDuration (StartTimer (req_Operation req)) (snd (buildResponse h req d w2)))"
    using assms(2,3,4) by (simp add: Handle_in_scope [OF assms(1)] handle_scoped_managed
        split: prod.splits)
  with acc ok show ?thesis
    by (simp add: answered_with_def buildResponse_Allowed decision_ok_def)
qed

lemma answered_with_metadata_error:
  assumes "in_scope h req w w1" and "extractRequestMetadata D req = None"
  shows "answered_with D h req w ReasonDeniedMetadataError"
proof -
  let ?d = "decisionResult False ReasonDeniedMetadataError ''failed to extract metadata from request''"
  have "accounted req (dr_reason ?d) w1 (snd (buildResponse h req ?d w1))"
    by (rule buildResponse_accounted) simp
  then have "accounted req ReasonDeniedMetadataError w
      (ObserveDuration (StartTimer (req_Operation req)) (snd (buildResponse h req ?d w1)))"
    using assms(1) by (auto simp: in_scope_iff dest!: scope_effects intro: accounted_after)
  moreover have "Handle D h req w =
      Some (fst (buildResponse h req ?d w1),
            ObserveDuration (StartTimer (req_Operation req)) (snd (buildResponse h req ?d w1)))"
    using assms(2)
    by (simp add: Handle_in_scope [OF assms(1)] handle_scoped_def split: prod.splits)
  ultimately show ?thesis by (simp add: answered_with_def buildResponse_Allowed)
qed

lemma answered_with_other:
  assumes "guarded_request D h req w = Some (om, old, w')"
  shows "answered_with D h req w
     (dr_reason (fst (decide_other D h req om old (request_fluxInfo req om old) w')))"
proof -
  from assms obtain w1 where w1: "in_scope h req w w1"
    "extractRequestMetadata D req = Some (om, old)"
    "IsManaged (request_fluxInfo req om old)"
    "isOwningFluxReconciler D h req (request_fluxInfo req om old) w1 = (False, w')"
    by (rule guarded_requestE)
  obtain d w2 where d: "decide_other D h req om old (request_fluxInfo req om old) w' = (d, w2)"
    by fastforce
  with w1 have "checkBypass D h req om old (request_fluxInfo req om old) w1 = (d, w2)"
    by (simp add: checkBypass_split)
  from answered_with_decision [OF w1(1-3) this] d show ?thesis by simp
qed

subsection \<open>The interface of the whole handler\<close>

text \<open>What every answer of a request processor satisfies.\<close>

definition answer_ok :: "handler \<Rightarrow> request \<Rightarrow> nat \<Rightarrow> world \<Rightarrow> response \<times> world \<Rightarrow> bool" where
  "answer_ok h req n w rw =
     ((\<exists>reason\<in>set AllDecisionReasons.
         accounted req reason w (snd rw) \<and>
         (resp_Allowed (fst rw) \<longleftrightarrow> allow_reason reason \<or> AuditOnly h)) \<and>
      w \<le> snd rw \<and> w_reads (snd rw) \<le> w_reads w + n \<and>
      metrics_ok (snd rw) = metrics_ok w)"

lemma handle_scoped_answer: "answer_ok h req 2 w (handle_scoped D h req w)"
proof (cases "extractRequestMetadata D req")
  case None
  let ?d = "decisionResult False ReasonDeniedMetadataError ''failed to extract metadata from request''"
  have "accounted req (dr_reason ?d) w (snd (buildResponse h req ?d w))"
    by (rule buildResponse_accounted) simp
  with None show ?thesis
    by (auto simp: answer_ok_def handle_scoped_def buildResponse_Allowed buildResponse_le)
next
  case (Some p)
  obtain om old where p: "p = (om, old)" by (cases p)
  show ?thesis
  proof (cases "IsManaged (request_fluxInfo req om old)")
    case True
    let ?c = "checkBypass D h req om old (request_fluxInfo req om old)"
    have eq: "handle_scoped D h req w = buildResponse h req (fst (?c w)) (snd (?c w))"
      using Some p True by (simp add: handle_scoped_managed split: prod.splits)
    show ?thesis
      unfolding answer_ok_def eq
    proof (intro conjI bexI)
      show "accounted req (dr_reason (fst (?c w))) w
          (snd (buildResponse h req (fst (?c w)) (snd (?c w))))"
        by (rule bypass.answered_accounted)
      show "resp_Allowed (fst (buildResponse h req (fst (?c w)) (snd (?c w)))) \<longleftrightarrow>
          allow_reason (dr_reason (fst (?c w))) \<or> AuditOnly h"
        and "dr_reason (fst (?c w)) \<in> set AllDecisionReasons"
        using bypass.check_ok [of D h req om old "request_fluxInfo req om old" w]
        by (simp_all add: buildResponse_Allowed decision_ok_def)
    qed (rule bypass.answered_le bypass.answered_reads bypass.answered_metrics_ok)+
  next
    case False
    have "accounted req ReasonAllowedNotManaged w
        (RecordRequest (req_Operation req) ReasonAllowedNotManaged w)"
      by (rule accounted_RecordRequest) simp
    with Some p False show ?thesis
      by (auto simp: answer_ok_def handle_scoped_unmanaged admission_Allowed_def)
  qed
qed

lemma early_exit_answer:
  "allow_reason r \<Longrightarrow> r \<in> set AllDecisionReasons \<Longrightarrow>
     answer_ok h req n w (admission_Allowed m, RecordRequest (req_Operation req) r w)"
  using accounted_RecordRequest [of r req w]
  by (auto simp: answer_ok_def admission_Allowed_def)

lemma answer_ok_mono: "answer_ok h req m w rw \<Longrightarrow> m \<le> n \<Longrightarrow> answer_ok h req n w rw"
  by (auto simp: answer_ok_def)

lemma answer_ok_after:
  assumes "side_effects m w w1" and "answer_ok h req n w1 (resp, w2)"
  shows "answer_ok h req (m + n) w (resp, ObserveDuration t w2)"
proof -
  have "w \<le> ObserveDuration t w2"
    using assms(2) side_effects_le [OF assms(1)] record_le(4)
    by (auto simp: answer_ok_def intro: order_trans)
  with assms side_effects_metrics_ok [OF assms(1)] accounted_after [OF assms(1), of req _ w2 t]
  show ?thesis by (auto simp: answer_ok_def side_effects_def)
qed

lemma namespace_filter_answer:
  assumes "checkNamespaceScope h req w = Some (Some resp, w1)"
  shows "answer_ok h req 3 w (resp, ObserveDuration t w1)"
proof -
  from assms obtain w0 b where w0: "shouldProcessNamespace h (req_Namespace req) w = Some ((False, b), w0)"
    and r: "resp = admission_Allowed ''namespace not in webhook scope''"
      "w1 = RecordRequest (req_Operation req) ReasonAllowedNamespaceFilter w0"
    by (auto simp: checkNamespaceScope_def split: option.splits if_splits)
  have "side_effects 1 w w0"
    using only_reads_shouldProcessNamespace [OF w0] by (rule only_reads_side_effects)
  moreover have "answer_ok h req 0 w0 (resp, w1)"
    unfolding r by (rule early_exit_answer) simp_all
  ultimately have "answer_ok h req (1 + 0) w (resp, ObserveDuration t w1)"
    by (rule answer_ok_after)
  then show ?thesis by (rule answer_ok_mono) simp
qed

lemma Handle_answer:
  assumes "Handle D h req w = Some rw"
  shows "answer_ok h req 3 w rw"
proof -
  let ?t = "StartTimer (req_Operation req)"
  consider (sub) "req_SubResource req \<noteq> []"
    | (grp) "req_SubResource req = []" "gvr_Group (req_Resource req) \<in> set ExcludedGroups"
    | (ns) "req_SubResource req = []" "gvr_Group (req_Resource req) \<notin> set ExcludedGroups"
    by blast
  then show ?thesis
  proof cases
    case sub
    with assms have "rw = (admission_Allowed ''subresource not subject to drift prevention'',
        RecordRequest (req_Operation req) ReasonAllowedSubresource w)"
      by (simp add: Handle_def)
    then show ?thesis by (simp add: early_exit_answer)
  next
    case grp
    with assms have "rw = (admission_Allowed ''API group excluded from drift prevention'',
        RecordRequest (req_Operation req) ReasonAllowedExcludedGroup w)"
      by (simp add: Handle_def)
    then show ?thesis by (simp add: early_exit_answer)
  next
    case ns
    with assms obtain ro w1 where sc: "checkNamespaceScope h req w = Some (ro, w1)"
      by (cases "checkNamespaceScope h req w") (auto simp: Handle_def)
    show ?thesis
    proof (cases ro)
      case (Some resp)
      with assms ns sc have "rw = (resp, ObserveDuration ?t w1)" by (simp add: Handle_def)
      with namespace_filter_answer sc Some show ?thesis by simp
    next
      case None
      obtain resp w2 where hs: "handle_scoped D h req w1 = (resp, w2)" by fastforce
      with assms ns sc None have rw: "rw = (resp, ObserveDuration ?t w2)"
        by (simp add: Handle_def)
      have "answer_ok h req 2 w1 (resp, w2)"
        using handle_scoped_answer [of h req w1 D] hs by simp
      with scope_effects sc None have "answer_ok h req (1 + 2) w (resp, ObserveDuration ?t w2)"
        by (blast intro: answer_ok_after)
      then show ?thesis unfolding rw by (rule answer_ok_mono) simp
    qed
  qed
qed

subsection \<open>Panics\<close>

text \<open>Without a client, a namespaced request under a label filter dereferences nil.\<close>

lemma checkNamespaceScope_None_iff:
  "checkNamespaceScope h req w = None \<longleftrightarrow>
     req_Namespace req \<noteq> [] \<and> req_Namespace req \<notin> set ExcludedNamespaces \<and>
     NamespaceLabel h \<noteq> [] \<and> Client h = None"
  by (auto simp: checkNamespaceScope_def shouldProcessNamespace_def split: option.splits if_splits)

lemma Handle_None_iff:
  "Handle D h req w = None \<longleftrightarrow>
     req_SubResource req = [] \<and> gvr_Group (req_Resource req) \<notin> set ExcludedGroups \<and>
     checkNamespaceScope h req w = None"
  by (auto simp: Handle_def Let_def split: option.splits prod.splits)

subsection \<open>Handlers with the same view of the cluster\<close>

text \<open>
  Two handlers whose cluster readers and identities agree take the same decisions: a handler
  in another mode, or one whose client answers from a cache.
\<close>

definition same_view :: "('s, 'k) deps \<Rightarrow> handler \<Rightarrow> handler \<Rightarrow> bool" where
  "same_view D h h' =
     (FluxNamespace h = FluxNamespace h' \<and> SystemControllerSAs h = SystemControllerSAs h' \<and>
      owningReconcilerSA D h = owningReconcilerSA D h' \<and>
      ownerInventoryContains D h = ownerInventoryContains D h' \<and>
      driftIgnoreSet D h = driftIgnoreSet D h' \<and>
      namespaceIsTerminating h = namespaceIsTerminating h' \<and>
      shouldProcessNamespace h = shouldProcessNamespace h')"

lemma same_viewD:
  assumes "same_view D h h'"
  shows "FluxNamespace h = FluxNamespace h'" and "SystemControllerSAs h = SystemControllerSAs h'"
    and "owningReconcilerSA D h = owningReconcilerSA D h'"
    and "ownerInventoryContains D h = ownerInventoryContains D h'"
    and "driftIgnoreSet D h = driftIgnoreSet D h'"
    and "namespaceIsTerminating h = namespaceIsTerminating h'"
    and "shouldProcessNamespace h = shouldProcessNamespace h'"
  using assms by (simp_all add: same_view_def)

lemma same_view_checkBypass:
  assumes "same_view D h h'"
  shows "checkBypass D h req om old fi w = checkBypass D h' req om old fi w"
  unfolding checkBypass_def operationDecision_def isOwningFluxReconciler_def
    checkDerivedResourceCreate_def checkDeleteManaged_def checkUpdateFieldConflict_def
    same_viewD [OF assms]
  by (rule refl)

lemma same_view_scope:
  assumes "same_view D h h'"
  shows "checkNamespaceScope h req w = checkNamespaceScope h' req w"
  unfolding checkNamespaceScope_def same_viewD [OF assms] by (rule refl)

lemma same_view_Handle:
  assumes "same_view D h h'" and "AuditOnly h = AuditOnly h'"
  shows "Handle D h req w = Handle D h' req w"
  unfolding Handle_def handle_scoped_def buildResponse_def same_view_checkBypass [OF assms(1)]
    same_view_scope [OF assms(1)] assms(2)
  by (rule refl)

subsection \<open>Audit mode\<close>

text \<open>What audit mode makes of the response of enforce mode.\<close>

definition audit_view :: "response \<Rightarrow> response" where
  "audit_view resp =
     (if resp_Allowed resp then resp
      else (admission_Allowed (''audit-only: '' @ resp_Message resp))
             \<lparr>resp_Warnings := [audit_warning, resp_Message resp]\<rparr>)"

lemma configuration_mode:
  "fetch_timeout (h\<lparr>AuditOnly := a\<rparr>) = fetch_timeout h"
  "Client (h\<lparr>AuditOnly := a\<rparr>) = Client h"
  "NamespaceLabel (h\<lparr>AuditOnly := a\<rparr>) = NamespaceLabel h"
  "NamespaceLabelValue (h\<lparr>AuditOnly := a\<rparr>) = NamespaceLabelValue h"
  "SystemControllerSAs (h\<lparr>AuditOnly := a\<rparr>) = SystemControllerSAs h"
  "FluxNamespace (h\<lparr>AuditOnly := a\<rparr>) = FluxNamespace h"
  by (simp_all add: fetch_timeout_def)

lemma getOwner_mode: "getOwner (h\<lparr>AuditOnly := a\<rparr>) = getOwner h"
  unfolding fun_eq_iff getOwner_def configuration_mode by simp

lemma same_view_mode: "same_view D (h\<lparr>AuditOnly := a\<rparr>) h"
  unfolding same_view_def fun_eq_iff owningReconcilerSA_def ownerInventoryContains_def
    driftIgnoreSet_def namespaceIsTerminating_def shouldProcessNamespace_def getOwner_mode
    configuration_mode
  by simp

lemmas checkBypass_mode = same_view_checkBypass [OF same_view_mode]
lemmas checkNamespaceScope_mode = same_view_scope [OF same_view_mode]

lemma buildResponse_mode:
  "buildResponse (h\<lparr>AuditOnly := True\<rparr>) req d w =
     map_prod audit_view id (buildResponse (h\<lparr>AuditOnly := False\<rparr>) req d w)"
  by (simp add: buildResponse_def Let_def audit_view_def admission_Allowed_def
      admission_Denied_def)

lemma handle_scoped_mode:
  "handle_scoped D (h\<lparr>AuditOnly := True\<rparr>) req w =
     map_prod audit_view id (handle_scoped D (h\<lparr>AuditOnly := False\<rparr>) req w)"
  by (auto simp: handle_scoped_def buildResponse_mode checkBypass_mode Let_def audit_view_def
      admission_Allowed_def split: option.splits prod.splits)

lemma audit_view_Allowed [simp]: "audit_view (admission_Allowed m) = admission_Allowed m"
  by (simp add: audit_view_def admission_Allowed_def)

lemma checkNamespaceScope_Some:
  "checkNamespaceScope h req w = Some (Some resp, w') \<Longrightarrow>
     resp = admission_Allowed ''namespace not in webhook scope''"
  by (auto simp: checkNamespaceScope_def split: option.splits if_splits)

lemma Handle_mode:
  "Handle D (h\<lparr>AuditOnly := True\<rparr>) req w =
     map_option (map_prod audit_view id) (Handle D (h\<lparr>AuditOnly := False\<rparr>) req w)"
  by (auto simp: Handle_def handle_scoped_mode checkNamespaceScope_mode Let_def dest: checkNamespaceScope_Some
      split: option.splits prod.splits)

end
