(* ===== verification/Reference.thy ===== *)
theory Reference
  imports Handler_Lemmas
begin

section \<open>Documented behaviour of the decoders, and a reference instance\<close>

text \<open>
  The interfaces through which the components read decoded objects: apimachinery's nested
  accessors (\<open>nested_access\<close>) and the two ways \<open>encoding/json\<close> decodes an object
  (\<open>object_decoding\<close>).  \<open>reference_deps\<close> implements all the third-party interfaces at once
  from a JSON parser, which remains a parameter; the theorems about third-party code are
  shown to be satisfiable on it.
\<close>

subsection \<open>The nested accessors\<close>

text \<open>
  The value at a path of fields: no result is an error (a value on the way that is not an
  object), and a null on the way counts as absent.
\<close>

fun nested_field :: "json \<Rightarrow> string list \<Rightarrow> json option option" where
  "nested_field j [] = Some (Some j)"
| "nested_field (JObj m) (k # ks) =
     (case map_of m k of None \<Rightarrow> Some None | Some v \<Rightarrow> nested_field v ks)"
| "nested_field JNull (k # ks) = Some None"
| "nested_field _ (k # ks) = None"

fun json_string :: "json \<Rightarrow> string option" where
  "json_string (JStr s) = Some s"
| "json_string _ = None"

definition nested_string :: "json_map \<Rightarrow> string list \<Rightarrow> string" where
  "nested_string m ks =
     (case nested_field (JObj m) ks of Some (Some (JStr s)) \<Rightarrow> s | _ \<Rightarrow> [])"

definition nested_map :: "json_map \<Rightarrow> string list \<Rightarrow> json_map" where
  "nested_map m ks =
     (case nested_field (JObj m) ks of Some (Some (JObj o')) \<Rightarrow> o' | _ \<Rightarrow> [])"

definition nested_slice :: "json_map \<Rightarrow> string list \<Rightarrow> json list option" where
  "nested_slice m ks =
     (case nested_field (JObj m) ks of
        Some (Some (JArr xs)) \<Rightarrow> Some xs
      | Some None \<Rightarrow> Some []
      | _ \<Rightarrow> None)"

definition nested_string_slice :: "json_map \<Rightarrow> string list \<Rightarrow> string list" where
  "nested_string_slice m ks =
     (case nested_slice m ks of
        None \<Rightarrow> []
      | Some xs \<Rightarrow> if list_all (\<lambda>x. json_string x \<noteq> None) xs
                   then List.map_filter json_string xs else [])"

locale nested_access =
  fixes D :: "('s, 'k) deps"
  assumes NestedString: "NestedString D m ks = nested_string m ks"
    and NestedMap: "NestedMap D m ks = nested_map m ks"
    and NestedSlice: "NestedSlice D m ks = nested_slice m ks"
    and NestedStringSlice: "NestedStringSlice D m ks = nested_string_slice m ks"
begin

text \<open>The accessors depend on the value at the path and nothing else.\<close>

lemma accessors_cong:
  assumes "nested_field (JObj m) ks = nested_field (JObj m') ks"
  shows "NestedString D m ks = NestedString D m' ks"
    and "NestedMap D m ks = NestedMap D m' ks"
    and "NestedSlice D m ks = NestedSlice D m' ks"
    and "NestedStringSlice D m ks = NestedStringSlice D m' ks"
  using assms
  by (simp_all add: NestedString NestedMap NestedSlice NestedStringSlice nested_string_def
      nested_map_def nested_slice_def nested_string_slice_def)

end

subsection \<open>The two decodings of an object\<close>

abbreviation label_path :: "string \<Rightarrow> string list" where
  "label_path key \<equiv> [''metadata'', ''labels'', key]"

text \<open>
  Both decoders read the same bytes: a decoded map has unique keys, and a string the generic
  decoding finds under \<open>metadata.labels\<close> is that label of the decoded metadata.
\<close>

locale object_decoding = deps_fieldset D members
  for D :: "('s, 'k) deps" and members :: "'s \<Rightarrow> 'k field_path set" +
  assumes decoded_wf: "unmarshal_object D raw = Some m \<Longrightarrow> wf_map m"
    and decoded_label:
      "unmarshal_metadata D raw = Some om \<Longrightarrow> unmarshal_object D raw = Some m \<Longrightarrow>
         get_path (JObj m) (label_path key) = Some (JStr v) \<Longrightarrow> om_Labels om key = Some v"

subsection \<open>The reference instance\<close>

text \<open>A JSON object as \<open>map[string]string\<close>; a value that is no string is an error.\<close>

definition string_map_of :: "json_map \<Rightarrow> string_map option" where
  "string_map_of m =
     (if list_all (\<lambda>(_, v). json_string v \<noteq> None) m
      then Some (\<lambda>k. Option.bind (map_of m k) json_string) else None)"

definition field_or_empty :: "json_map \<Rightarrow> string \<Rightarrow> json_map" where
  "field_or_empty m k = (case map_of m k of Some (JObj o') \<Rightarrow> o' | _ \<Rightarrow> [])"

definition string_field :: "json_map \<Rightarrow> string \<Rightarrow> string" where
  "string_field m k = (case map_of m k of Some (JStr s) \<Rightarrow> s | _ \<Rightarrow> [])"

definition list_field :: "json_map \<Rightarrow> string \<Rightarrow> json_map list" where
  "list_field m k =
     (case map_of m k of
        Some (JArr xs) \<Rightarrow> List.map_filter (\<lambda>x. case x of JObj o' \<Rightarrow> Some o' | _ \<Rightarrow> None) xs
      | _ \<Rightarrow> [])"

definition owner_reference_of :: "json_map \<Rightarrow> owner_reference" where
  "owner_reference_of m =
     \<lparr>or_APIVersion = string_field m ''apiVersion'', or_Kind = string_field m ''kind'',
      or_Name = string_field m ''name'',
      or_Controller = (case map_of m ''controller'' of Some (JBool b) \<Rightarrow> Some b | _ \<Rightarrow> None)\<rparr>"

text \<open>The argument prints a JSON value: \<open>fieldsV1\<close> keeps its raw bytes.\<close>

definition managed_fields_of :: "(json \<Rightarrow> string) \<Rightarrow> json_map \<Rightarrow> managed_fields_entry" where
  "managed_fields_of encode m =
     \<lparr>mf_Manager = string_field m ''manager'', mf_Operation = string_field m ''operation'',
      mf_FieldsV1 = map_option encode (map_of m ''fieldsV1'')\<rparr>"

definition metadata_of :: "(json \<Rightarrow> string) \<Rightarrow> json_map \<Rightarrow> object_meta option" where
  "metadata_of encode m =
     (let meta = field_or_empty m ''metadata'' in
      case (string_map_of (field_or_empty meta ''labels''),
            string_map_of (field_or_empty meta ''annotations'')) of
        (Some labels, Some annotations) \<Rightarrow>
          Some \<lparr>om_Name = string_field meta ''name'', om_Namespace = string_field meta ''namespace'',
                om_Labels = labels, om_Annotations = annotations,
                om_DeletionTimestamp =
                  map_option (\<lambda>_. 0) (map_of meta ''deletionTimestamp''),
                om_OwnerReferences = map owner_reference_of (list_field meta ''ownerReferences''),
                om_ManagedFields =
                  map (managed_fields_of encode) (list_field meta ''managedFields'')\<rparr>
      | _ \<Rightarrow> None)"

text \<open>A parser whose objects have unique keys.\<close>

definition parse_object :: "(string \<Rightarrow> json_map option) \<Rightarrow> string \<Rightarrow> json_map option" where
  "parse_object parse raw =
     (case parse raw of None \<Rightarrow> None | Some m \<Rightarrow> if wf_map m then Some m else None)"

definition reference_deps ::
    "(string \<Rightarrow> json_map option) \<Rightarrow> (json \<Rightarrow> string) \<Rightarrow>
     (string \<Rightarrow> 'k field_path list option) \<Rightarrow> ('k field_path list \<Rightarrow> string) \<Rightarrow>
     (string \<Rightarrow> (string \<Rightarrow> bool) option) \<Rightarrow> (string \<Rightarrow> (string_map \<Rightarrow> bool) option) \<Rightarrow>
     ('k field_path list, 'k) deps" where
  "reference_deps parse encode fromJSON toString regexp selector =
     list_fieldset fromJSON toString
       (deps.fields
          (\<lambda>raw. Option.bind (parse_object parse raw) (metadata_of encode))
          (parse_object parse)
          (find (\<lambda>r. or_Controller r = Some True))
          nested_string nested_string_slice nested_map nested_slice
          regexp selector (\<lambda>_. pattern_keys))"

interpretation ref_access: nested_access
    "reference_deps parse encode fromJSON toString regexp selector"
  for parse encode and fromJSON :: "string \<Rightarrow> 'k field_path list option"
    and toString regexp selector
  by unfold_locales (simp_all add: reference_deps_def list_fieldset_def deps.defs)

lemma reference_deps_simps [simp]:
  "unmarshal_object (reference_deps parse encode fromJSON toString regexp selector) =
     parse_object parse"
  "unmarshal_metadata (reference_deps parse encode fromJSON toString regexp selector) raw =
     Option.bind (parse_object parse raw) (metadata_of encode)"
  by (simp_all add: reference_deps_def list_fieldset_def deps.defs)

lemma string_map_of_at:
  "string_map_of m = Some sm \<Longrightarrow> map_of m k = Some (JStr v) \<Longrightarrow> sm k = Some v"
  by (auto simp: string_map_of_def split: if_splits)

lemma get_path_object_Cons:
  "get_path (JObj m) (k # ks) = Some v \<Longrightarrow> ks \<noteq> [] \<Longrightarrow>
     get_path (JObj (field_or_empty m k)) ks = Some v"
  by (cases ks) (auto simp: field_or_empty_def split: option.splits json.splits)

lemma string_field_label:
  "metadata_of encode m = Some om \<Longrightarrow> get_path (JObj m) (label_path key) = Some (JStr v) \<Longrightarrow>
     om_Labels om key = Some v"
proof -
  assume om: "metadata_of encode m = Some om"
    and p: "get_path (JObj m) (label_path key) = Some (JStr v)"
  let ?labels = "field_or_empty (field_or_empty m ''metadata'') ''labels''"
  from p have "get_path (JObj ?labels) [key] = Some (JStr v)"
    by (intro get_path_object_Cons) simp_all
  then have "map_of ?labels key = Some (JStr v)" by (auto split: option.splits)
  moreover from om have "string_map_of ?labels = Some (om_Labels om)"
    by (auto simp: metadata_of_def Let_def split: option.splits)
  ultimately show ?thesis by (simp add: string_map_of_at)
qed

lemma reference_fieldset:
  "deps_fieldset (reference_deps parse encode fromJSON toString regexp selector) set"
  unfolding reference_deps_def by (rule list_deps.deps_fieldset_axioms)

interpretation ref_decoding: object_decoding
    "reference_deps parse encode fromJSON toString regexp selector" set
  for parse encode and fromJSON :: "string \<Rightarrow> 'k field_path list option"
    and toString regexp selector
  by (intro object_decoding.intro reference_fieldset object_decoding_axioms.intro)
    (auto simp: parse_object_def string_field_label simp del: wf_json.simps get_path.simps
       split: option.splits if_splits bind_splits)

subsection \<open>Expressions of words\<close>

text \<open>
  A language of regular expressions that has words, which match wherever they occur, and their
  anchored groups, which match from end to end; a selector is a word, the key that must exist.
\<close>

function anchored_core :: "string \<Rightarrow> string" where
  "anchored_core pat =
     (let inner = take (length pat - 6) (drop 4 pat) in
      if pat = ''^(?:'' @ inner @ '')$'' then anchored_core inner else pat)"
  by pat_completeness auto
termination by (relation "measure length") (auto dest: arg_cong [of _ _ length])

declare anchored_core.simps [simp del]

definition is_word :: "string \<Rightarrow> bool" where
  "is_word s = list_all (\<lambda>c. c \<notin> set ''^(?:)$'') s"

fun occurs :: "string \<Rightarrow> string \<Rightarrow> bool" where
  "occurs p [] = (p = [])"
| "occurs p (c # s) = (prefix p (c # s) \<or> occurs p s)"

definition word_regexp :: "string \<Rightarrow> (string \<Rightarrow> bool) option" where
  "word_regexp pat =
     (let core = anchored_core pat in
      if \<not> is_word core then None
      else if core = pat then Some (occurs pat)
      else Some (\<lambda>s. s = core))"

definition word_selector :: "string \<Rightarrow> (string_map \<Rightarrow> bool) option" where
  "word_selector expr = (if is_word expr then Some (\<lambda>ls. ls expr \<noteq> None) else None)"

lemma anchored_core_group: "anchored_core (''^(?:'' @ pat @ '')$'') = anchored_core pat"
  by (subst anchored_core.simps) simp

lemma word_regexp_group:
  assumes "word_regexp pat \<noteq> None"
  shows "word_regexp (''^(?:'' @ pat @ '')$'') = Some (\<lambda>s. s = anchored_core pat)"
proof -
  have word: "is_word (anchored_core pat)"
    using assms by (auto simp: word_regexp_def Let_def split: if_splits)
  then have "anchored_core pat \<noteq> ''^(?:'' @ pat @ '')$''" by (auto simp: is_word_def)
  with word show ?thesis by (simp add: word_regexp_def Let_def anchored_core_group del: append.simps)
qed

interpretation ref_language: target_language
    "reference_deps parse encode fromJSON toString word_regexp word_selector"
    "\<lambda>pat s. s = anchored_core pat" "\<lambda>expr ls. ls expr \<noteq> None"
  for parse encode and fromJSON :: "string \<Rightarrow> 'k field_path list option" and toString
proof
  fix pat
  assume "regexp_Compile (reference_deps parse encode fromJSON toString word_regexp word_selector) pat \<noteq> None"
  then show "regexp_Compile (reference_deps parse encode fromJSON toString word_regexp word_selector)
      (''^(?:'' @ pat @ '')$'') = Some (\<lambda>s. s = anchored_core pat)"
    using word_regexp_group [of pat]
    by (simp add: reference_deps_def list_fieldset_def deps.defs)
next
  fix expr sel and ls :: string_map
  assume "labels_Parse (reference_deps parse encode fromJSON toString word_regexp word_selector) expr = Some sel"
  then show "sel ls \<longleftrightarrow> ls expr \<noteq> None"
    by (auto simp: reference_deps_def list_fieldset_def deps.defs word_selector_def split: if_splits)
qed

end
