(* ===== verification/Drift.thy ===== *)
theory Drift
  imports Reference
begin

section \<open>Drift prevention\<close>

text \<open>
  What the UPDATE rule promises, first for one request (which updates are admitted), then for
  every sequence of updates: the fields Flux applied keep their values.
\<close>

subsection \<open>One update\<close>

text \<open>The parts of the UPDATE decision that the annotations and the field sets give.\<close>

definition old_exempt :: "object_meta \<Rightarrow> flux_management_info \<Rightarrow> bool" where
  "old_exempt oldObjMeta fi =
     (HasBypassAnnotation (om_Annotations oldObjMeta) \<or>
      ManagedBy fi = ManagedByKustomization \<and> IsReconcileDisabled (om_Annotations oldObjMeta))"

text \<open>The Flux paths at, above or below a changed path, and those the new object drops.\<close>

definition touched :: "'k field_path set \<Rightarrow> 'k field_path set \<Rightarrow> 'k field_path set" where
  "touched modified flux =
     {p \<in> flux. covered modified p} \<union> {p \<in> modified. covered flux p}"

lemma decide_other_update:
  assumes "req_Operation req = Update"
  shows "decide_other D h req om old fi w =
     (if old_exempt old fi then
        (if HasBypassAnnotation (om_Annotations old)
         then decisionResult True ReasonAllowedBypassAnnotation ''bypass annotation present''
         else decisionResult True ReasonAllowedReconcileDisabled
                (''Flux reconciliation is disabled for this object '' @
                 ''(kustomize.toolkit.fluxcd.io/reconcile: disabled)''), w)
      else checkUpdateFieldConflict D h req om old fi w)"
  using assms
  by (auto simp: decide_other_def old_exempt_def checkBypassAnnotation_def
      checkReconcileDisabled_def operationDecision_def)

text \<open>What the ignore set is resolved to when there is a conflict.\<close>

definition update_ignore_set ::
    "('s, 'k) deps \<Rightarrow> handler \<Rightarrow> request \<Rightarrow> object_meta \<Rightarrow> flux_management_info \<Rightarrow> world \<Rightarrow> 's" where
  "update_ignore_set D h req old fi w = fst (driftIgnoreSet D h req old fi w)"

context deps_fieldset
begin

lemma members_conflict:
  "members (GetConflictingFields D (Some m) (Some f)) = touched (members m) (members f)"
  by (simp add: members_GetConflictingFields touched_def)

lemma members_update_diff:
  assumes "unmarshal_object D (req_OldObject req) = Some oldObj"
    and "unmarshal_object D (req_Object req) = Some newObj"
    and "wf_map oldObj" and "wf_map newObj"
  obtains m where "parseAndDiff D req = Inr m"
    and "members m =
      {names ks | ks. differs (JObj oldObj) (JObj newObj) ks \<and> length ks \<le> maxDiffDepth}"
  using assms by (simp add: parseAndDiff_def members_ComputeFieldDiff)

text \<open>The field rule, read off the paths.\<close>

lemma checkUpdateFieldConflict_allowed_iff:
  assumes F: "FluxManagedFields D (om_ManagedFields old) = Some F" and ne: "members F \<noteq> {}"
    and parse: "parseAndDiff D req = Inr m"
  shows "dr_allowed (fst (checkUpdateFieldConflict D h req om old fi w)) \<longleftrightarrow>
     \<not> snd (protectionDisablingAnnotationAdded (om_Annotations old) (om_Annotations om)) \<and>
     (let T = touched (members m) (members F);
          I = (if T = {} then {} else members (update_ignore_set D h req old fi w)) in
      (\<forall>p\<in>T. covered I p) \<and>
      (\<exists>F'. FluxManagedFields D (om_ManagedFields om) = Some F' \<and>
         (\<forall>p\<in>members F - members F'. covered I p)))"
proof -
  obtain key added where ann:
    "protectionDisablingAnnotationAdded (om_Annotations old) (om_Annotations om) = (key, added)"
    by fastforce
  obtain ig w' where ig: "driftIgnoreSet D h req old fi w = (ig, w')" by fastforce
  show ?thesis
    using ne
    by (cases added;
        cases "touched (members m) (members F) = {}";
        simp add: checkUpdateFieldConflict_def F ann parse ig Let_def conflictDecision_def
          members_conflict members_simps WaiveIgnoredConflicts_def update_ignore_set_def
          split: option.splits)
      (auto split: option.splits)
qed

end

text \<open>
  The field rule on sets of paths: with \<open>M\<close> the modified paths, \<open>F\<close> and \<open>F'\<close> what Flux owns
  before and after, and \<open>I\<close> the ignored paths, every conflict and every release is ignored.
\<close>

definition field_rule ::
    "'k field_path set \<Rightarrow> 'k field_path set \<Rightarrow> 'k field_path set option \<Rightarrow> 'k field_path set \<Rightarrow> bool"
  where
  "field_rule M F F' I =
     (case F' of
        None \<Rightarrow> False
      | Some F' \<Rightarrow>
          let I = (if touched M F = {} then {} else I) in
          (\<forall>p\<in>touched M F. covered I p) \<and> (\<forall>p\<in>F - F'. covered I p))"

definition modified_paths :: "json_map \<Rightarrow> json_map \<Rightarrow> 'k field_path set" where
  "modified_paths old new =
     {names ks | ks. differs (JObj old) (JObj new) ks \<and> length ks \<le> maxDiffDepth}"

context object_decoding
begin

lemma update_field_rule:
  assumes F: "FluxManagedFields D (om_ManagedFields old) = Some F"
  shows "dr_allowed (fst (checkUpdateFieldConflict D h req om old fi w)) \<longleftrightarrow>
     members F = {} \<or>
     (\<not> snd (protectionDisablingAnnotationAdded (om_Annotations old) (om_Annotations om)) \<and>
      (\<exists>oldObj newObj. unmarshal_object D (req_OldObject req) = Some oldObj \<and>
         unmarshal_object D (req_Object req) = Some newObj \<and>
         field_rule (modified_paths oldObj newObj) (members F)
           (map_option members (FluxManagedFields D (om_ManagedFields om)))
           (members (update_ignore_set D h req old fi w))))"
proof (cases "members F = {}")
  case True
  then show ?thesis by (simp add: checkUpdateFieldConflict_def F Empty_iff)
next
  case ne: False
  show ?thesis
  proof (cases "parseAndDiff D req")
    case (Inl d)
    then have "\<not> (\<exists>oldObj newObj. unmarshal_object D (req_OldObject req) = Some oldObj \<and>
        unmarshal_object D (req_Object req) = Some newObj)" and "\<not> dr_allowed d"
      by (auto simp: parseAndDiff_def split: option.splits)
    with ne Inl show ?thesis
      by (auto simp: checkUpdateFieldConflict_def F Empty_iff split: prod.splits)
  next
    case (Inr m)
    then obtain oldObj newObj where objs: "unmarshal_object D (req_OldObject req) = Some oldObj"
      "unmarshal_object D (req_Object req) = Some newObj"
      by (auto simp: parseAndDiff_def split: option.splits)
    have "members m = modified_paths oldObj newObj"
      using members_update_diff [OF objs decoded_wf [OF objs(1)] decoded_wf [OF objs(2)]] Inr
      by (auto simp: modified_paths_def)
    with ne objs show ?thesis
      unfolding checkUpdateFieldConflict_allowed_iff [OF F ne Inr, of h om fi w]
      by (auto simp: field_rule_def Let_def split: option.splits)
  qed
qed

end


subsection \<open>Sequences of updates\<close>

text \<open>
  The owner of an object: a Kustomization or a HelmRelease, with the two labels that name it.
  Kustomization labels take precedence, so an object of a HelmRelease keeps its owner as long
  as it has no Kustomization name label.
\<close>

definition owner_info :: "string \<Rightarrow> string \<Rightarrow> flux_management_info" where
  "owner_info ns name =
     \<lparr>IsManaged = True, ManagedBy = ManagedByKustomization, ControllerName = name,
      ControllerNS = ns\<rparr>"

definition release_info :: "string \<Rightarrow> string \<Rightarrow> flux_management_info" where
  "release_info ns name =
     \<lparr>IsManaged = True, ManagedBy = ManagedByHelmRelease, ControllerName = name,
      ControllerNS = ns\<rparr>"

definition flux_owner :: "flux_management_info \<Rightarrow> bool" where
  "flux_owner fi =
     (IsManaged fi \<and> ManagedBy fi \<in> {ManagedByKustomization, ManagedByHelmRelease} \<and>
      ControllerName fi \<noteq> [])"

definition owner_labels :: "flux_management_info \<Rightarrow> (string \<times> string) list" where
  "owner_labels fi =
     (if ManagedBy fi = ManagedByKustomization
      then [(KustomizeLabelName, ControllerName fi), (KustomizeLabelNamespace, ControllerNS fi)]
      else [(HelmLabelName, ControllerName fi), (HelmLabelNamespace, ControllerNS fi)])"

definition unclaimed :: "flux_management_info \<Rightarrow> string_map \<Rightarrow> bool" where
  "unclaimed fi labels =
     (ManagedBy fi = ManagedByHelmRelease \<longrightarrow> labels KustomizeLabelName = None)"

text \<open>
  An update the webhook lets through in enforce mode, from a requester that is not the
  reconciler of the owner \<open>fi\<close>.  It leaves an object of a HelmRelease unclaimed, and the ignore
  set the decision resolves has no path at, above or below a path of \<open>P\<close>.
\<close>

definition comparable :: "'k field_path \<Rightarrow> 'k field_path \<Rightarrow> bool" where
  "comparable p q = (prefix p q \<or> prefix q p)"

definition disjoint_paths :: "'k field_path set \<Rightarrow> 'k field_path set \<Rightarrow> bool" where
  "disjoint_paths A B = (\<forall>p\<in>A. \<forall>q\<in>B. \<not> comparable p q)"

definition admitted_update ::
    "('s, 'k) deps \<Rightarrow> ('s \<Rightarrow> 'k field_path set) \<Rightarrow> handler \<Rightarrow> flux_management_info \<Rightarrow>
     'k field_path set \<Rightarrow> request \<Rightarrow> world \<Rightarrow> bool" where
  "admitted_update D members h fi P req w =
     (\<not> AuditOnly h \<and> req_Operation req = Update \<and>
      (case scope_world h req w of
         None \<Rightarrow> False
       | Some w1 \<Rightarrow>
           \<not> fst (isOwningFluxReconciler D h req fi w1) \<and>
           (case extractRequestMetadata D req of
              None \<Rightarrow> False
            | Some (om, old) \<Rightarrow>
                let fi' = request_fluxInfo req om old in
                unclaimed fi (om_Labels om) \<and>
                disjoint_paths P
                  (members (update_ignore_set D h req old fi'
                     (snd (isOwningFluxReconciler D h req fi' w1)))))) \<and>
      (case Handle D h req w of None \<Rightarrow> False | Some (resp, w') \<Rightarrow> resp_Allowed resp))"

text \<open>One such update, as a step of the stored object.\<close>

inductive update_step ::
    "('s, 'k) deps \<Rightarrow> ('s \<Rightarrow> 'k field_path set) \<Rightarrow> handler \<Rightarrow> flux_management_info \<Rightarrow>
     'k field_path set \<Rightarrow> string \<Rightarrow> string \<Rightarrow> bool"
  for D members h fi P where
  "admitted_update D members h fi P req w \<Longrightarrow>
     update_step D members h fi P (req_OldObject req) (req_Object req)"

inductive_cases update_stepE: "update_step D members h fi P raw raw'"

definition shields :: "'k field_path set \<Rightarrow> string list \<Rightarrow> bool" where
  "shields P ks = (\<exists>p\<in>P. comparable p (names ks))"

definition value_at :: "('s, 'k) deps \<Rightarrow> string \<Rightarrow> string list \<Rightarrow> jvalue option" where
  "value_at D raw ks =
     (case unmarshal_object D raw of
        None \<Rightarrow> None
      | Some m \<Rightarrow> map_option abs_json (get_path (JObj m) ks))"

text \<open>
  A stored object under the protection of the owner \<open>fi\<close>: it carries the owner's labels, Flux
  applied at least the paths \<open>P\<close>, and no annotation disables protection.
\<close>

definition protected_object ::
    "('s, 'k) deps \<Rightarrow> ('s \<Rightarrow> 'k field_path set) \<Rightarrow> flux_management_info \<Rightarrow>
     'k field_path set \<Rightarrow> string \<Rightarrow> bool" where
  "protected_object D members fi P raw =
     (list_all (\<lambda>(key, v). value_at D raw (label_path key) = Some (VStr v)) (owner_labels fi) \<and>
      (case extractMetadata D raw of
         None \<Rightarrow> False
       | Some om \<Rightarrow>
           unclaimed fi (om_Labels om) \<and> protection_active (om_Annotations om) \<and>
           (case FluxManagedFields D (om_ManagedFields om) of
              None \<Rightarrow> False
            | Some F \<Rightarrow> P \<subseteq> members F)))"

text \<open>
  Not an object: absent, or a string, a number, a list, a boolean or null.  Two versions agree
  below \<open>P\<close> when such values at shielded paths, within the depth of the diff, are the same.
\<close>

fun is_leaf :: "jvalue option \<Rightarrow> bool" where
  "is_leaf (Some (VObj _)) = False"
| "is_leaf _ = True"

definition agrees ::
    "('s, 'k) deps \<Rightarrow> 'k field_path set \<Rightarrow> string \<Rightarrow> string \<Rightarrow> bool" where
  "agrees D P raw raw' =
     (\<forall>ks. shields P ks \<and> length ks \<le> maxDiffDepth \<and> is_leaf (value_at D raw ks) \<longrightarrow>
        value_at D raw' ks = value_at D raw ks)"

lemma agrees_refl: "agrees D P raw raw"
  by (simp add: agrees_def)

lemma agrees_trans: "agrees D P a b \<Longrightarrow> agrees D P b c \<Longrightarrow> agrees D P a c"
  by (simp add: agrees_def)

lemma comparable_trans:
  "comparable p q \<Longrightarrow> prefix q' q \<Longrightarrow> \<not> prefix q q' \<Longrightarrow> comparable p q' \<or> prefix q' p"
  unfolding comparable_def using prefix_same_cases prefix_order.trans by blast

lemma abs_json_VStr [simp]: "abs_json j = VStr s \<longleftrightarrow> j = JStr s"
  by (cases j) auto

lemma value_at_label:
  "value_at D raw ks = Some (VStr s) \<longleftrightarrow>
     (\<exists>m. unmarshal_object D raw = Some m \<and> get_path (JObj m) ks = Some (JStr s))"
  by (auto simp: value_at_def simp del: get_path.simps split: option.splits)

text \<open>The four ownership labels are the same, an absent label counting as an empty one.\<close>

definition same_ownership_labels :: "string_map \<Rightarrow> string_map \<Rightarrow> bool" where
  "same_ownership_labels new old =
     (let same = (\<lambda>key. str_at new key = str_at old key) in
      same ''kustomize.toolkit.fluxcd.io/name'' \<and> same ''kustomize.toolkit.fluxcd.io/namespace'' \<and>
      same ''helm.toolkit.fluxcd.io/name'' \<and> same ''helm.toolkit.fluxcd.io/namespace'')"

lemma isOwningController_iff:
  "isOwningController operation new old \<longleftrightarrow>
     (operation = Update \<longrightarrow> same_ownership_labels new old)"
  by (auto simp: isOwningController_def same_ownership_labels_def config_defs)

lemma same_ownership_labels_refl [simp]: "same_ownership_labels ls ls"
  by (simp add: same_ownership_labels_def)

lemma isOwningController_update_iff:
  "isOwningController Update new old \<longleftrightarrow>
     (\<forall>key\<in>{KustomizeLabelName, KustomizeLabelNamespace, HelmLabelName, HelmLabelNamespace}.
        str_at old key = str_at new key)"
  by (simp add: isOwningController_def)

text \<open>The labels of an owner name it; unchanged labels name the same owner.\<close>

lemma GetFluxManagementInfo_owner:
  assumes "flux_owner fi" and "unclaimed fi labels"
    and "\<forall>(key, v)\<in>set (owner_labels fi). labels key = Some v"
  shows "GetFluxManagementInfo labels = fi"
  using assms
  by (cases fi) (auto simp: GetFluxManagementInfo_def flux_owner_def unclaimed_def owner_labels_def
      str_at_def)

lemma same_labels_same_owner:
  assumes "isOwningController Update new old" and "flux_owner fi" and "unclaimed fi new"
    and "unclaimed fi old" and "\<forall>(key, v)\<in>set (owner_labels fi). old key = Some v"
  shows "GetFluxManagementInfo new = fi"
  using assms
  by (cases fi) (auto simp: isOwningController_update_iff GetFluxManagementInfo_def str_at_def
      flux_owner_def unclaimed_def owner_labels_def split: option.splits)

lemma owner_info_simps [simp]:
  "flux_owner (owner_info ns name) \<longleftrightarrow> name \<noteq> []"
  "flux_owner (release_info ns name) \<longleftrightarrow> name \<noteq> []"
  "unclaimed (owner_info ns name) labels"
  by (simp_all add: flux_owner_def owner_info_def release_info_def unclaimed_def)

lemma request_fluxInfo_managed:
  "req_Operation req = Update \<Longrightarrow> IsManaged (GetFluxManagementInfo (om_Labels old)) \<Longrightarrow>
     IsManaged (request_fluxInfo req om old)"
  by (auto simp: request_fluxInfo_def Let_def)

text \<open>
  An admitted update was decided by the field rule: a requester that is the reconciler of
  the new labels' owner would have changed the labels, and is refused.
\<close>

lemma admitted_update_decision:
  assumes adm: "admitted_update D members h fi P req w"
    and ext: "extractRequestMetadata D req = Some (om, old)"
    and labels: "\<forall>(key, v)\<in>set (owner_labels fi). om_Labels old key = Some v"
    and owner: "flux_owner fi" and free: "unclaimed fi (om_Labels old)"
    and active: "protection_active (om_Annotations old)"
  obtains w' where
    "dr_allowed (fst (checkUpdateFieldConflict D h req om old (request_fluxInfo req om old) w'))"
    "disjoint_paths P (members (update_ignore_set D h req old (request_fluxInfo req om old) w'))"
    "unclaimed fi (om_Labels om)"
proof -
  let ?fi = "request_fluxInfo req om old"
  have upd: "req_Operation req = Update" using adm by (simp add: admitted_update_def)
  from adm ext obtain w1 where sc: "in_scope h req w w1"
    and other: "\<not> fst (isOwningFluxReconciler D h req fi w1)"
    and free': "unclaimed fi (om_Labels om)"
    and dis: "disjoint_paths P
      (members (update_ignore_set D h req old ?fi (snd (isOwningFluxReconciler D h req ?fi w1))))"
    by (auto simp: admitted_update_def Let_def split: option.splits)
  obtain b w2 where own: "isOwningFluxReconciler D h req ?fi w1 = (b, w2)" by fastforce
  have oldi: "GetFluxManagementInfo (om_Labels old) = fi"
    using owner free labels by (rule GetFluxManagementInfo_owner)
  have man: "IsManaged ?fi"
    using upd owner by (intro request_fluxInfo_managed) (simp_all add: oldi flux_owner_def)
  obtain d w3 where d: "checkBypass D h req om old ?fi w1 = (d, w3)" by fastforce
  have "answered_with D h req w (dr_reason d)"
    using sc ext man d by (rule answered_with_decision)
  moreover have "decision_ok d"
    using bypass.check_ok [of D h req om old ?fi w1] d by simp
  ultimately have allowed: "dr_allowed d"
    using adm by (auto simp: answered_with_def admitted_update_def decision_ok_def
        split: option.splits)
  have "\<not> b"
  proof
    assume b
    have "isOwningController Update (om_Labels om) (om_Labels old)"
      using allowed d own \<open>b\<close> upd
      by (auto simp: checkBypass_split checkFluxOwnership_def split: if_splits)
    then have "GetFluxManagementInfo (om_Labels om) = fi"
      using owner free' free labels by (rule same_labels_same_owner)
    then have "?fi = fi" using owner by (simp add: request_fluxInfo_def Let_def flux_owner_def)
    with own other \<open>b\<close> show False by simp
  qed
  with d own have "decide_other D h req om old ?fi w2 = (d, w3)" by (simp add: checkBypass_split)
  with upd active have "checkUpdateFieldConflict D h req om old ?fi w2 = (d, w3)"
    by (auto simp: decide_other_update old_exempt_def protection_active_def)
  with allowed dis own free' that [of w2] show ?thesis by simp
qed

lemma disjoint_from_modified:
  assumes "P \<subseteq> F" and "disjoint_paths P I" and "\<And>p. p \<in> touched M F \<Longrightarrow> covered I p"
  shows "disjoint_paths P M"
  unfolding disjoint_paths_def
proof (intro ballI notI)
  fix p m assume p: "p \<in> P" and m: "m \<in> M" and c: "comparable p m"
  from c consider "prefix m p" | "prefix p m" by (auto simp: comparable_def)
  then show False
  proof cases
    case 1
    with p m assms have "covered I p" by (auto simp: touched_def covered_def)
    with p assms(2) show False by (auto simp: covered_def disjoint_paths_def comparable_def)
  next
    case 2
    with p m assms have "covered I m" by (auto simp: touched_def covered_def)
    then obtain i where "i \<in> I" "prefix i m" by (auto simp: covered_def)
    with 2 have "comparable p i" unfolding comparable_def using prefix_same_cases by blast
    with p \<open>i \<in> I\<close> assms(2) show False by (auto simp: disjoint_paths_def)
  qed
qed

text \<open>With ignored paths apart from \<open>P\<close>, the field rule forbids changing and releasing \<open>P\<close>.\<close>

lemma field_rule_disjoint:
  assumes rule: "field_rule M F (Some F') I" and PF: "P \<subseteq> F" and dis: "disjoint_paths P I"
  shows "disjoint_paths P M" and "P \<subseteq> F'"
proof -
  define J where "J = (if touched M F = {} then {} else I)"
  have T: "\<And>p. p \<in> touched M F \<Longrightarrow> covered J p" and rel: "\<And>p. p \<in> F - F' \<Longrightarrow> covered J p"
    using rule by (auto simp: field_rule_def Let_def J_def)
  have disJ: "disjoint_paths P J" using dis by (auto simp: J_def disjoint_paths_def)
  show "disjoint_paths P M" using PF disJ T by (rule disjoint_from_modified)
  show "P \<subseteq> F'"
  proof
    fix p assume p: "p \<in> P"
    then have "\<not> covered J p"
      using disJ by (auto simp: covered_def disjoint_paths_def comparable_def)
    with p PF rel show "p \<in> F'" by blast
  qed
qed

lemma names_prefix [simp]: "prefix (names a) (names b) \<longleftrightarrow> prefix a b"
proof (induction a arbitrary: b)
  case Nil
  then show ?case by simp
next
  case (Cons x a)
  then show ?case by (cases b) simp_all
qed

lemma differs_below_object:
  "differs a b (ks @ q) \<Longrightarrow> q \<noteq> [] \<Longrightarrow> \<exists>m. get_path a ks = Some (JObj m)"
proof (induction ks arbitrary: a b)
  case Nil
  then show ?case by (cases a; cases b) auto
next
  case (Cons k ks)
  then obtain m m' where ab: "a = JObj m" "b = JObj m'" by (cases a; cases b) auto
  with Cons show ?case
    by (cases "map_of m k"; cases "map_of m' k") (auto simp: differs_objects_Cons)
qed

text \<open>A leaf at a shielded path keeps its value when no change is comparable to \<open>P\<close>.\<close>

lemma shielded_unchanged:
  assumes wf: "wf_json a" "wf_json b"
    and leaf: "is_leaf (map_option abs_json (get_path a ks))"
    and len: "length ks \<le> maxDiffDepth" and sh: "shields P ks"
    and dis: "disjoint_paths P {names q | q. differs a b q \<and> length q \<le> maxDiffDepth}"
  shows "map_option abs_json (get_path b ks) = map_option abs_json (get_path a ks)"
proof -
  have "\<not> prefix q ks \<and> \<not> prefix ks q" if d: "differs a b q" for q
  proof -
    from sh obtain p where p: "p \<in> P" "comparable p (names ks)" by (auto simp: shields_def)
    have *: "\<not> prefix q ks"
    proof
      assume q: "prefix q ks"
      with len have "length q \<le> maxDiffDepth" using prefix_length_le by fastforce
      with d dis p have no: "\<not> comparable p (names q)" by (auto simp: disjoint_paths_def)
      from p(2) show False
        unfolding comparable_def
      proof
        assume "prefix p (names ks)"
        moreover from q have "prefix (names q :: 'a field_path) (names ks)" by simp
        ultimately show False using no prefix_same_cases unfolding comparable_def by blast
      next
        assume "prefix (names ks) p"
        moreover from q have "prefix (names q :: 'a field_path) (names ks)" by simp
        ultimately show False
          using no prefix_order.trans unfolding comparable_def by blast
      qed
    qed
    moreover have "\<not> prefix ks q"
    proof
      assume "prefix ks q"
      then obtain r where r: "q = ks @ r" by (auto simp: prefix_def)
      with * have "r \<noteq> []" by auto
      with d r obtain m where "get_path a ks = Some (JObj m)"
        using differs_below_object by blast
      with leaf show False by auto
    qed
    ultimately show ?thesis by simp
  qed
  with wf have "map_option abs_json (get_path a ks) = map_option abs_json (get_path b ks)"
    by (intro unchanged_at) auto
  then show ?thesis by simp
qed

text \<open>The invariant a protected object starts with and every admitted update preserves.\<close>

definition protection_law :: "flux_management_info \<Rightarrow> 'k field_path set \<Rightarrow> bool" where
  "protection_law fi P =
     (flux_owner fi \<and> list_all (\<lambda>(key, v). shields P (label_path key)) (owner_labels fi))"

lemma shields_nonempty: "protection_law fi P \<Longrightarrow> P \<noteq> {}"
  by (auto simp: protection_law_def owner_labels_def shields_def split: if_splits)

context object_decoding
begin

lemma protected_objectD:
  assumes "protected_object D members fi P raw" and "extractMetadata D raw = Some om"
  obtains F obj where "FluxManagedFields D (om_ManagedFields om) = Some F" "P \<subseteq> members F"
    "protection_active (om_Annotations om)" "unclaimed fi (om_Labels om)"
    "\<forall>(key, v)\<in>set (owner_labels fi). om_Labels om key = Some v"
    "unmarshal_object D raw = Some obj"
proof -
  have lab: "om_Labels om key = Some v" and obj: "unmarshal_object D raw \<noteq> None"
    if "(key, v) \<in> set (owner_labels fi)" for key v
    using assms that decoded_label [of raw om]
    by (force simp: protected_object_def value_at_label extractMetadata_def list_all_iff
        simp del: get_path.simps split: option.splits)+
  have "owner_labels fi \<noteq> []" by (simp add: owner_labels_def)
  then have "unmarshal_object D raw \<noteq> None" using obj by (cases "owner_labels fi") auto
  moreover have "\<forall>(key, v)\<in>set (owner_labels fi). om_Labels om key = Some v"
    using lab by auto
  ultimately show thesis
    using assms that by (simp add: protected_object_def split: option.splits)
qed

lemma protected_object_owner:
  assumes "protected_object D members fi P raw" and "extractMetadata D raw = Some om"
    and "flux_owner fi"
  shows "GetFluxManagementInfo (om_Labels om) = fi"
  using assms by (auto elim!: protected_objectD intro: GetFluxManagementInfo_owner)

text \<open>The field rule preserves the protection, and the values below \<open>P\<close>.\<close>

lemma field_rule_protects:
  assumes upd: "req_Operation req = Update"
    and ext: "extractRequestMetadata D req = Some (om, old)"
    and allowed: "dr_allowed (fst (checkUpdateFieldConflict D h req om old fi' w'))"
    and dis: "disjoint_paths P (members (update_ignore_set D h req old fi' w'))"
    and free: "unclaimed fi (om_Labels om)" and law: "protection_law fi P"
    and prot: "protected_object D members fi P (req_OldObject req)"
  shows "protected_object D members fi P (req_Object req)"
    and "agrees D P (req_OldObject req) (req_Object req)"
proof -
  from upd ext have new: "extractMetadata D (req_Object req) = Some om"
    and oldm: "extractMetadata D (req_OldObject req) = Some old"
    by (auto simp: extractRequestMetadata_def split: option.splits)
  from prot oldm obtain F obj where F: "FluxManagedFields D (om_ManagedFields old) = Some F"
    and PF: "P \<subseteq> members F" and active: "protection_active (om_Annotations old)"
    and obj: "unmarshal_object D (req_OldObject req) = Some obj"
    by (rule protected_objectD)
  have ne: "members F \<noteq> {}" using shields_nonempty [OF law] PF by auto
  from allowed update_field_rule [OF F, of h req om fi' w'] ne obj obtain obj'
    where noann: "\<not> snd (protectionDisablingAnnotationAdded (om_Annotations old) (om_Annotations om))"
      and obj': "unmarshal_object D (req_Object req) = Some obj'"
      and rule: "field_rule (modified_paths obj obj') (members F)
        (map_option members (FluxManagedFields D (om_ManagedFields om)))
        (members (update_ignore_set D h req old fi' w'))"
    by auto
  note wf = decoded_wf [OF obj] decoded_wf [OF obj']
  obtain F' where F': "FluxManagedFields D (om_ManagedFields om) = Some F'"
    using rule by (auto simp: field_rule_def split: option.splits)
  with rule PF dis have disM: "disjoint_paths P (modified_paths obj obj')" and "P \<subseteq> members F'"
    by (auto dest: field_rule_disjoint)
  show keep: "agrees D P (req_OldObject req) (req_Object req)"
    unfolding agrees_def
  proof (intro allI impI, elim conjE)
    fix ks assume "shields P ks" "length ks \<le> maxDiffDepth"
      "is_leaf (value_at D (req_OldObject req) ks)"
    then show "value_at D (req_Object req) ks = value_at D (req_OldObject req) ks"
      using shielded_unchanged [OF wf, of ks P] disM
      by (simp add: value_at_def obj obj' modified_paths_def del: wf_json.simps get_path.simps)
  qed
  note \<open>P \<subseteq> members F'\<close>
  moreover have "protection_active (om_Annotations om)"
    using annotation_not_added [OF active] noann by simp
  moreover have "value_at D (req_Object req) (label_path key) = Some (VStr v)"
    if "(key, v) \<in> set (owner_labels fi)" for key v
    using law prot that keep
    by (force simp: protection_law_def protected_object_def list_all_iff maxDiffDepth_def agrees_def)
  ultimately show "protected_object D members fi P (req_Object req)"
    using free by (auto simp: protected_object_def new F' list_all_iff)
qed

lemma admitted_update_protects:
  assumes adm: "admitted_update D members h fi P req w" and law: "protection_law fi P"
    and prot: "protected_object D members fi P (req_OldObject req)"
  shows "protected_object D members fi P (req_Object req) \<and>
    agrees D P (req_OldObject req) (req_Object req)"
proof -
  have upd: "req_Operation req = Update" using adm by (simp add: admitted_update_def)
  from adm obtain om old where ext: "extractRequestMetadata D req = Some (om, old)"
    by (auto simp: admitted_update_def split: option.splits)
  with upd have "extractMetadata D (req_OldObject req) = Some old"
    by (auto simp: extractRequestMetadata_def split: option.splits)
  with prot obtain F obj where old: "\<forall>(key, v)\<in>set (owner_labels fi). om_Labels old key = Some v"
    "unclaimed fi (om_Labels old)" "protection_active (om_Annotations old)"
    by (rule protected_objectD)
  from law have "flux_owner fi" by (simp add: protection_law_def)
  from adm ext old(1) this old(2,3) obtain w' where
    "dr_allowed (fst (checkUpdateFieldConflict D h req om old (request_fluxInfo req om old) w'))"
    "disjoint_paths P (members (update_ignore_set D h req old (request_fluxInfo req om old) w'))"
    "unclaimed fi (om_Labels om)"
    by (rule admitted_update_decision)
  from field_rule_protects [OF upd ext this law prot] show ?thesis by simp
qed

lemma updates_protect:
  assumes "(update_step D members h fi P)\<^sup>*\<^sup>* raw raw'"
    and "protection_law fi P" and "protected_object D members fi P raw"
  shows "protected_object D members fi P raw' \<and> agrees D P raw raw'"
  using assms(1)
proof (induction rule: rtranclp_induct)
  case base
  with assms show ?case by (simp add: agrees_refl)
next
  case (step raw1 raw2)
  from step(2) obtain req w where req: "admitted_update D members h fi P req w"
    "raw1 = req_OldObject req" "raw2 = req_Object req"
    by (rule update_stepE)
  with step admitted_update_protects [OF req(1) assms(2)] show ?case
    by (auto intro: agrees_trans)
qed

end

end
