(* ===== verification/Webhook_Config.thy ===== *)
theory Webhook_Config
  imports Drift "HOL-Library.Word"
begin

section \<open>The webhook configuration (\<open>internal/controller/webhook_config.go\<close>)\<close>

text \<open>
  The controller that asserts the ValidatingWebhookConfiguration: the object it builds, the
  reconcile step with its metrics and Kubernetes events, and the event filter of its watch.
  The API server's client and the unstructured converter are parameters, and so is the way the
  API server reads the configuration, of which \<open>api_dispatch\<close> states the documented behaviour.
\<close>

subsection \<open>The Kubernetes types\<close>

record rule_with_operations =
  APIGroups :: "string list"
  APIVersions :: "string list"
  Resources :: "string list"
  Scope :: string
  Operations :: "string list"

datatype selector_operator = OpNotIn | OpExists

record selector_requirement =
  sr_Key :: string
  sr_Operator :: selector_operator
  sr_Values :: "string list"

record match_condition =
  mc_Name :: string
  mc_Expression :: string

record service_reference =
  svc_Name :: string
  svc_Namespace :: string
  svc_Path :: string

record validating_webhook =
  vw_Name :: string
  vw_Rules :: "rule_with_operations list"
  vw_Service :: service_reference
  vw_NamespaceSelector :: "selector_requirement list"
  vw_ObjectSelector :: "selector_requirement list"
  vw_FailurePolicy :: string
  vw_MatchPolicy :: string
  vw_TimeoutSeconds :: "32 word"
  vw_SideEffects :: string
  vw_AdmissionReviewVersions :: "string list"
  vw_MatchConditions :: "match_condition list"

record webhook_configuration =
  vwc_Name :: string
  vwc_Webhooks :: "validating_webhook list"

text \<open>
  The reconciler's fields, with the client as the three calls the reconcile step makes: the
  \<open>Get\<close> of the configuration by name, the conversion to unstructured, and the \<open>Apply\<close> with its
  options.  An error is an \<^const>\<open>Inl\<close>.
\<close>

datatype api_error = NotFound | ApiError string

datatype apply_option = ForceOwnership | FieldOwner string

record vwc_client =
  vc_Get :: "string \<Rightarrow> api_error option"
  vc_ToUnstructured :: "webhook_configuration \<Rightarrow> string + json_map"
  vc_Apply :: "json_map \<Rightarrow> apply_option list \<Rightarrow> string option"

record webhook_config_reconciler =
  rc_WebhookName :: string
  rc_WebhookNamespace :: string
  rc_WebhookService :: string
  rc_WebhookPath :: string
  rc_ResyncInterval :: int
  rc_FailurePolicy :: string
  rc_TimeoutSeconds :: "32 word"
  rc_ExtraExcludedNamespaces :: "string list"
  HasEventRecorder :: bool

text \<open>A reference to an object, and a Kubernetes event about one.\<close>

record object_reference =
  ref_APIVersion :: string
  ref_Kind :: string
  ref_Name :: string

record kube_event =
  ev_Regarding :: object_reference
  ev_Type :: string
  ev_Reason :: string
  ev_Action :: string
  ev_Message :: string

text \<open>What a reconcile step leaves behind: metrics, events, and the applied configurations.\<close>

record reconcile_world =
  rw_world :: world
  rw_events :: "kube_event list"
  rw_applied :: "json_map list"

subsection \<open>Definitions\<close>

definition eventAction :: string where "eventAction = ''Apply''"

definition wildcardRules :: "rule_with_operations list" where
  "wildcardRules =
     [\<lparr>APIGroups = [''*''], APIVersions = [''*''], Resources = [''*''], Scope = ''*'',
       Operations = [Create, Update, Delete]\<rparr>]"

fun match_conditions_loop :: "string list \<Rightarrow> match_condition list \<Rightarrow> match_condition list" where
  "match_conditions_loop [] conditions = conditions"
| "match_conditions_loop (grp # excluded) conditions =
     match_conditions_loop excluded
       (conditions @ [\<lparr>mc_Name = ''exclude-'' @ grp,
                       mc_Expression = ''request.resource.group != '' @ Quote grp\<rparr>])"

definition matchConditions :: "match_condition list" where
  "matchConditions = match_conditions_loop ExcludedGroups []"

fun extra_namespaces_loop :: "string list \<Rightarrow> string list \<Rightarrow> string list" where
  "extra_namespaces_loop [] excluded = excluded"
| "extra_namespaces_loop (ns # extras) excluded =
     extra_namespaces_loop extras
       (if ns \<noteq> [] \<and> \<not> slices_Contains excluded ns then excluded @ [ns] else excluded)"

definition excludedNamespaces :: "webhook_config_reconciler \<Rightarrow> string list" where
  "excludedNamespaces r =
     (let excluded = [''kube-system'', ''kube-public'', ''kube-node-lease''];
          excluded =
            (if rc_WebhookNamespace r \<noteq> [] \<and> \<not> slices_Contains excluded (rc_WebhookNamespace r)
             then excluded @ [rc_WebhookNamespace r] else excluded)
      in extra_namespaces_loop (rc_ExtraExcludedNamespaces r) excluded)"

definition buildWebhookEntry ::
    "webhook_config_reconciler \<Rightarrow> string \<Rightarrow> string \<Rightarrow> rule_with_operations list \<Rightarrow>
       validating_webhook" where
  "buildWebhookEntry r name labelKey rules =
     (let failurePolicy = rc_FailurePolicy r;
          failurePolicy = (if failurePolicy = [] then ''Ignore'' else failurePolicy);
          timeoutSeconds = rc_TimeoutSeconds r;
          timeoutSeconds = (if timeoutSeconds = 0 then 3 else timeoutSeconds)
      in
       \<lparr>vw_Name = name, vw_Rules = rules,
        vw_Service = \<lparr>svc_Name = rc_WebhookService r, svc_Namespace = rc_WebhookNamespace r,
                      svc_Path = rc_WebhookPath r\<rparr>,
        vw_NamespaceSelector =
          [\<lparr>sr_Key = ''kubernetes.io/metadata.name'', sr_Operator = OpNotIn,
            sr_Values = excludedNamespaces r\<rparr>],
        vw_ObjectSelector = [\<lparr>sr_Key = labelKey, sr_Operator = OpExists, sr_Values = []\<rparr>],
        vw_FailurePolicy = failurePolicy, vw_MatchPolicy = ''Equivalent'',
        vw_TimeoutSeconds = timeoutSeconds, vw_SideEffects = ''None'',
        vw_AdmissionReviewVersions = [''v1''], vw_MatchConditions = matchConditions\<rparr>)"

definition event ::
    "webhook_config_reconciler \<Rightarrow> object_reference \<Rightarrow> string \<Rightarrow> string \<Rightarrow> string \<Rightarrow>
       reconcile_world \<Rightarrow> reconcile_world" where
  "event r obj eventtype reason message w =
     (if HasEventRecorder r then
        w\<lparr>rw_events := rw_events w @
             [\<lparr>ev_Regarding = obj, ev_Type = eventtype, ev_Reason = reason, ev_Action = eventAction,
               ev_Message = message\<rparr>]\<rparr>
      else w)"

definition record_update :: "string \<Rightarrow> reconcile_world \<Rightarrow> reconcile_world" where
  "record_update status w = w\<lparr>rw_world := RecordConfigUpdate status (rw_world w)\<rparr>"

text \<open>The configuration the step applies.\<close>

definition desired_configuration :: "webhook_config_reconciler \<Rightarrow> webhook_configuration" where
  "desired_configuration r =
     (let rules = wildcardRules in
      \<lparr>vwc_Name = rc_WebhookName r,
       vwc_Webhooks =
         [buildWebhookEntry r (''kustomize.'' @ rc_WebhookName r) KustomizeLabelName rules,
          buildWebhookEntry r (''helm.'' @ rc_WebhookName r) HelmLabelName rules]\<rparr>)"

definition recreated_message :: "webhook_config_reconciler \<Rightarrow> string" where
  "recreated_message r =
     ''ValidatingWebhookConfiguration '' @ rc_WebhookName r @
     '' was absent and has been recreated without the cert-manager caBundle annotation; '' @
     ''admission calls fail TLS (fail-open under failurePolicy Ignore) until the deployment manifest is reapplied''"

text \<open>The result: an error, or the requeue interval.\<close>

definition Reconcile ::
    "webhook_config_reconciler \<Rightarrow> vwc_client \<Rightarrow> reconcile_world \<Rightarrow>
       (string + int) \<times> reconcile_world" where
  "Reconcile r client w =
     (let ref = \<lparr>ref_APIVersion = ''admissionregistration.k8s.io/v1'',
                 ref_Kind = ''ValidatingWebhookConfiguration'', ref_Name = rc_WebhookName r\<rparr>;
          recreating = (vc_Get client (rc_WebhookName r) = Some NotFound);
          vwc = desired_configuration r in
      case vc_ToUnstructured client vwc of
        Inl err \<Rightarrow>
          (Inl err,
           event r ref ''Warning'' ''ConfigUpdateFailed''
             (''failed to convert ValidatingWebhookConfiguration: '' @ err)
             (record_update ''error'' w))
      | Inr uns \<Rightarrow>
          (case vc_Apply client uns [ForceOwnership, FieldOwner ''flux-drift-webhook''] of
             Some err \<Rightarrow>
               (Inl err,
                event r ref ''Warning'' ''ConfigUpdateFailed''
                  (''failed to apply ValidatingWebhookConfiguration: '' @ err)
                  (record_update ''error'' w))
           | None \<Rightarrow>
               let w = w\<lparr>rw_applied := rw_applied w @ [uns]\<rparr>;
                   w = record_update ''success'' w;
                   w = (if recreating
                        then event r ref ''Warning'' ''ConfigRecreated'' (recreated_message r) w else w);
                   w = event r ref ''Normal'' ''ConfigUpdated''
                         (''updated ValidatingWebhookConfiguration with '' @
                          Itoa (length wildcardRules) @ '' rules'') w
               in (Inr (rc_ResyncInterval r), w)))"

text \<open>The predicate of \<open>SetupWithManager\<close>: which watch events trigger a reconcile step.\<close>

datatype watch_event =
  CreateEvent string | UpdateEvent string | DeleteEvent string | GenericEvent string

fun watch_filter :: "webhook_config_reconciler \<Rightarrow> watch_event \<Rightarrow> bool" where
  "watch_filter r (CreateEvent name) = (name = rc_WebhookName r)"
| "watch_filter r (UpdateEvent name) = False"
| "watch_filter r (DeleteEvent name) = (name = rc_WebhookName r)"
| "watch_filter r (GenericEvent name) = False"

text \<open>What \<open>SetupWithManager\<close> builds: the controller's name, the watched kind and the filter.\<close>

record controller =
  ctl_Name :: string
  ctl_For :: string
  ctl_Filter :: "watch_event \<Rightarrow> bool"

definition SetupWithManager :: "webhook_config_reconciler \<Rightarrow> controller" where
  "SetupWithManager r =
     \<lparr>ctl_Name = ''webhook-config'', ctl_For = ''ValidatingWebhookConfiguration'',
      ctl_Filter = watch_filter r\<rparr>"

subsection \<open>The API server's reading of the configuration\<close>

text \<open>
  What the API server knows of a write: the operation, the resource, whether the object lies in
  a namespace, the labels of that namespace, and the labels of the object before and after.
\<close>

record api_write =
  aw_Operation :: string
  aw_Group :: string
  aw_Version :: string
  aw_SubResource :: string
  aw_Namespaced :: bool
  aw_NamespaceLabels :: string_map
  aw_Labels :: string_map
  aw_OldLabels :: string_map

text \<open>
  How the API server dispatches: which writes a rule covers, what a selector requirement asks of
  labels, the value of a CEL expression for the group of the request, and which entries are
  called.  It is not code of this repository, so it is a parameter; \<open>api_dispatch\<close> states what its
  documentation says of the constructs the configuration uses.
\<close>

record api_server =
  as_covers :: "rule_with_operations \<Rightarrow> api_write \<Rightarrow> bool"
  as_requires :: "selector_requirement \<Rightarrow> string_map \<Rightarrow> bool"
  as_cel :: "string \<Rightarrow> string \<Rightarrow> bool"
  as_calls :: "validating_webhook \<Rightarrow> api_write \<Rightarrow> bool"

definition star_or :: "string list \<Rightarrow> string \<Rightarrow> bool" where
  "star_or xs x = (''*'' \<in> set xs \<or> x \<in> set xs)"

definition scope_admits :: "string \<Rightarrow> bool \<Rightarrow> bool" where
  "scope_admits scope namespaced =
     (scope = ''*'' \<or> scope = (if namespaced then ''Namespaced'' else ''Cluster''))"

text \<open>Every group and version: match policy \<open>Equivalent\<close> finds nothing that \<open>Exact\<close> does not.\<close>

definition every_version :: "rule_with_operations \<Rightarrow> bool" where
  "every_version rule = (''*'' \<in> set (APIGroups rule) \<and> ''*'' \<in> set (APIVersions rule))"

text \<open>
  The documented behaviour: \<open>*\<close> in the resources stands for every resource but for no subresource;
  the object selector is evaluated on both objects, and either may match; CEL's \<open>!=\<close> compares
  with a quoted constant.
\<close>

locale api_dispatch =
  fixes S :: api_server
  assumes covers_iff:
      "Resources rule = [''*''] \<Longrightarrow>
         as_covers S rule a \<longleftrightarrow>
           star_or (APIGroups rule) (aw_Group a) \<and> star_or (APIVersions rule) (aw_Version a) \<and>
           star_or (Operations rule) (aw_Operation a) \<and>
           scope_admits (Scope rule) (aw_Namespaced a) \<and> aw_SubResource a = []"
    and requires_NotIn:
      "sr_Operator q = OpNotIn \<Longrightarrow>
         as_requires S q ls \<longleftrightarrow> (\<forall>v. ls (sr_Key q) = Some v \<longrightarrow> v \<notin> set (sr_Values q))"
    and requires_Exists:
      "sr_Operator q = OpExists \<Longrightarrow> as_requires S q ls \<longleftrightarrow> ls (sr_Key q) \<noteq> None"
    and cel_group_neq:
      "as_cel S (''request.resource.group != '' @ Quote g) grp \<longleftrightarrow> grp \<noteq> g"
    and calls_iff:
      "vw_MatchPolicy vw = ''Exact'' \<or> list_all every_version (vw_Rules vw) \<Longrightarrow>
         as_calls S vw a \<longleftrightarrow>
           (\<exists>rule\<in>set (vw_Rules vw). as_covers S rule a) \<and>
           (\<forall>q\<in>set (vw_NamespaceSelector vw). as_requires S q (aw_NamespaceLabels a)) \<and>
           ((\<forall>q\<in>set (vw_ObjectSelector vw). as_requires S q (aw_Labels a)) \<or>
            (\<forall>q\<in>set (vw_ObjectSelector vw). as_requires S q (aw_OldLabels a))) \<and>
           (\<forall>c\<in>set (vw_MatchConditions vw). as_cel S (mc_Expression c) (aw_Group a))"
begin

lemma match_conditions_hold:
  "(\<forall>c\<in>set matchConditions. as_cel S (mc_Expression c) grp) \<longleftrightarrow> grp \<notin> set ExcludedGroups"
  by (simp add: matchConditions_def config_defs cel_group_neq [simplified])

end

subsection \<open>Lemmas\<close>

text \<open>An API server that knows these constructs and no others.\<close>

definition reference_covers :: "rule_with_operations \<Rightarrow> api_write \<Rightarrow> bool" where
  "reference_covers rule a =
     (star_or (APIGroups rule) (aw_Group a) \<and> star_or (APIVersions rule) (aw_Version a) \<and>
      star_or (Operations rule) (aw_Operation a) \<and>
      scope_admits (Scope rule) (aw_Namespaced a) \<and>
      ''*'' \<in> set (Resources rule) \<and> aw_SubResource a = [])"

definition reference_requires :: "selector_requirement \<Rightarrow> string_map \<Rightarrow> bool" where
  "reference_requires q ls =
     (case sr_Operator q of
        OpNotIn \<Rightarrow> (case ls (sr_Key q) of None \<Rightarrow> True | Some v \<Rightarrow> v \<notin> set (sr_Values q))
      | OpExists \<Rightarrow> ls (sr_Key q) \<noteq> None)"

definition reference_cel :: "string \<Rightarrow> string \<Rightarrow> bool" where
  "reference_cel expr grp = (expr \<noteq> ''request.resource.group != '' @ Quote grp)"

definition reference_calls :: "validating_webhook \<Rightarrow> api_write \<Rightarrow> bool" where
  "reference_calls vw a =
     (list_ex (\<lambda>rule. reference_covers rule a) (vw_Rules vw) \<and>
      list_all (\<lambda>q. reference_requires q (aw_NamespaceLabels a)) (vw_NamespaceSelector vw) \<and>
      (list_all (\<lambda>q. reference_requires q (aw_Labels a)) (vw_ObjectSelector vw) \<or>
       list_all (\<lambda>q. reference_requires q (aw_OldLabels a)) (vw_ObjectSelector vw)) \<and>
      list_all (\<lambda>c. reference_cel (mc_Expression c) (aw_Group a)) (vw_MatchConditions vw))"

definition reference_server :: api_server where
  "reference_server =
     \<lparr>as_covers = reference_covers, as_requires = reference_requires, as_cel = reference_cel,
      as_calls = reference_calls\<rparr>"

interpretation ref_server: api_dispatch reference_server
  by unfold_locales
    (auto simp: reference_server_def reference_covers_def reference_requires_def reference_cel_def
      reference_calls_def list_ex_iff list_all_iff dest: Quote_inject split: option.splits)

lemma extra_namespaces_loop_keep_first:
  "extra_namespaces_loop extras (keep_first xs) =
     keep_first (xs @ filter (\<lambda>ns. ns \<noteq> []) extras)"
proof (induction extras arbitrary: xs)
  case Nil
  then show ?case by simp
next
  case (Cons ns extras)
  show ?case
    using Cons.IH [of xs] Cons.IH [of "xs @ [ns]"]
    by (auto simp: keep_first_snoc keep_first_dup)
qed

lemma excludedNamespaces_eq:
  "excludedNamespaces r =
     keep_first ([''kube-system'', ''kube-public'', ''kube-node-lease''] @
       filter (\<lambda>ns. ns \<noteq> []) (rc_WebhookNamespace r # rc_ExtraExcludedNamespaces r))"
proof -
  let ?base = "[''kube-system'', ''kube-public'', ''kube-node-lease'']"
  have base: "keep_first ?base = ?base" by (rule keep_first_distinct) simp
  have "excludedNamespaces r =
      extra_namespaces_loop (rc_WebhookNamespace r # rc_ExtraExcludedNamespaces r) ?base"
    unfolding excludedNamespaces_def Let_def by simp
  also have "\<dots> = keep_first (?base @
      filter (\<lambda>ns. ns \<noteq> []) (rc_WebhookNamespace r # rc_ExtraExcludedNamespaces r))"
    by (subst base [symmetric], rule extra_namespaces_loop_keep_first)
  finally show ?thesis .
qed

lemma set_excludedNamespaces:
  "set (excludedNamespaces r) =
     {''kube-system'', ''kube-public'', ''kube-node-lease''} \<union>
     {ns \<in> insert (rc_WebhookNamespace r) (set (rc_ExtraExcludedNamespaces r)). ns \<noteq> []}"
  by (auto simp: excludedNamespaces_eq)

context api_dispatch
begin

lemma calls_entry:
  "as_calls S (buildWebhookEntry r name labelKey wildcardRules) a \<longleftrightarrow>
     aw_Operation a \<in> {Create, Update, Delete} \<and> aw_SubResource a = [] \<and>
     aw_Group a \<notin> set ExcludedGroups \<and>
     (\<forall>ns. aw_NamespaceLabels a ''kubernetes.io/metadata.name'' = Some ns \<longrightarrow>
        ns \<notin> set (excludedNamespaces r)) \<and>
     (aw_Labels a labelKey \<noteq> None \<or> aw_OldLabels a labelKey \<noteq> None)"
proof -
  let ?vw = "buildWebhookEntry r name labelKey wildcardRules"
  have rules: "vw_Rules ?vw = wildcardRules" "vw_MatchConditions ?vw = matchConditions"
    by (simp_all add: buildWebhookEntry_def Let_def)
  have "list_all every_version (vw_Rules ?vw)"
    unfolding rules by (simp add: wildcardRules_def every_version_def)
  then have "as_calls S ?vw a \<longleftrightarrow>
      (\<exists>rule\<in>set wildcardRules. as_covers S rule a) \<and>
      (\<forall>q\<in>set (vw_NamespaceSelector ?vw). as_requires S q (aw_NamespaceLabels a)) \<and>
      ((\<forall>q\<in>set (vw_ObjectSelector ?vw). as_requires S q (aw_Labels a)) \<or>
       (\<forall>q\<in>set (vw_ObjectSelector ?vw). as_requires S q (aw_OldLabels a))) \<and>
      aw_Group a \<notin> set ExcludedGroups"
    by (simp only: calls_iff [OF disjI2] rules match_conditions_hold)
  moreover have "(\<exists>rule\<in>set wildcardRules. as_covers S rule a) \<longleftrightarrow>
      aw_Operation a \<in> {Create, Update, Delete} \<and> aw_SubResource a = []"
    by (auto simp: wildcardRules_def covers_iff star_or_def scope_admits_def Create_def Update_def Delete_def)
  moreover have "(\<forall>q\<in>set (vw_NamespaceSelector ?vw). as_requires S q (aw_NamespaceLabels a)) \<longleftrightarrow>
      (\<forall>ns. aw_NamespaceLabels a ''kubernetes.io/metadata.name'' = Some ns \<longrightarrow>
        ns \<notin> set (excludedNamespaces r))"
    by (simp add: buildWebhookEntry_def Let_def requires_NotIn)
  moreover have "(\<forall>q\<in>set (vw_ObjectSelector ?vw). as_requires S q ls) \<longleftrightarrow> ls labelKey \<noteq> None"
    for ls
    by (simp add: buildWebhookEntry_def Let_def requires_Exists)
  ultimately show ?thesis by auto
qed

text \<open>A write is sent to one of the two entries when no exclusion applies to it.\<close>

lemma calls_desired_iff:
  "(\<exists>vw\<in>set (vwc_Webhooks (desired_configuration r)). as_calls S vw a) \<longleftrightarrow>
     aw_Operation a \<in> {Create, Update, Delete} \<and> aw_SubResource a = [] \<and>
     aw_Group a \<notin> set ExcludedGroups \<and>
     (\<forall>ns. aw_NamespaceLabels a ''kubernetes.io/metadata.name'' = Some ns \<longrightarrow>
        ns \<notin> set (excludedNamespaces r)) \<and>
     (IsManaged (GetFluxManagementInfo (aw_Labels a)) \<or>
      IsManaged (GetFluxManagementInfo (aw_OldLabels a)))"
  unfolding desired_configuration_def Let_def
  by (simp add: calls_entry IsManaged_iff) blast

end

lemma record_update_simps [simp]:
  "rw_world (record_update s w) = RecordConfigUpdate s (rw_world w)"
  "rw_events (record_update s w) = rw_events w"
  "rw_applied (record_update s w) = rw_applied w"
  by (simp_all add: record_update_def)

lemma event_simps [simp]:
  "rw_world (event r obj t rs m w) = rw_world w"
  "rw_applied (event r obj t rs m w) = rw_applied w"
  "rw_events (event r obj t rs m w) =
     rw_events w @ (if HasEventRecorder r then
       [\<lparr>ev_Regarding = obj, ev_Type = t, ev_Reason = rs, ev_Action = eventAction, ev_Message = m\<rparr>] else [])"
  by (simp_all add: event_def)

end
