(* ===== verification/Cache.thy ===== *)
theory Cache
  imports Drift "HOL-Library.AList"
begin

section \<open>The informer cache (\<open>internal/webhook/cache.go\<close>)\<close>

text \<open>
  What the manager's cache keeps of an object: the owning Flux objects stripped to the fields
  the handler reads, everything else without its managed fields.  The handler's decisions are
  the same from a client that reads through this cache (\<open>cached_Handle\<close>).
\<close>

subsection \<open>Definitions\<close>

text \<open>An \<open>any\<close> value of the informer: an unstructured object, or something else.\<close>

datatype 'o runtime_object = Unstructured json_map | OtherObject 'o

definition without_managed_fields :: "json \<Rightarrow> json" where
  "without_managed_fields v =
     (case v of JObj meta \<Rightarrow> JObj (AList.delete ''managedFields'' meta) | _ \<Rightarrow> v)"

text \<open>The loops that copy the named fields that are present.\<close>

fun copy_present :: "json_map \<Rightarrow> string list \<Rightarrow> json_map \<Rightarrow> json_map" where
  "copy_present from [] to = to"
| "copy_present from (f # fs) to =
     (case map_of from f of
        None \<Rightarrow> copy_present from fs to
      | Some v \<Rightarrow> copy_present from fs (AList.update f v to))"

definition ownerCacheSpecFields :: "string list" where
  "ownerCacheSpecFields = [''serviceAccountName'', ''ignore'']"

definition ownerCacheStatusFields :: "string list" where
  "ownerCacheStatusFields = [''inventory'']"

text \<open>The section is created with its first field; a nil \<open>to\<close> is the empty list.\<close>

definition copyFields :: "json_map \<Rightarrow> json_map \<Rightarrow> string \<Rightarrow> string list \<Rightarrow> json_map" where
  "copyFields src dst sec fieldNames =
     (case map_of src sec of
        Some (JObj from) \<Rightarrow>
          let to = copy_present from fieldNames [] in
          if to = [] then dst else AList.update sec (JObj to) dst
      | _ \<Rightarrow> dst)"

text \<open>
  The stripped object.  Its metadata is the original's own map, from which \<open>delete\<close> removes
  the managed fields in place; the original is not used afterwards.
\<close>

definition strip_owner :: "json_map \<Rightarrow> json_map" where
  "strip_owner obj =
     (let slim = copy_present obj [''apiVersion'', ''kind'', ''metadata''] [];
          slim = (case map_of slim ''metadata'' of
                    Some meta \<Rightarrow> AList.update ''metadata'' (without_managed_fields meta) slim
                  | None \<Rightarrow> slim);
          slim = copyFields obj slim ''spec'' ownerCacheSpecFields;
          slim = copyFields obj slim ''status'' ownerCacheStatusFields
      in slim)"

definition StripOwnerForCache :: "'o runtime_object \<Rightarrow> 'o runtime_object option" where
  "StripOwnerForCache obj =
     (case obj of
        Unstructured u \<Rightarrow> Some (Unstructured (strip_owner u))
      | OtherObject x \<Rightarrow> Some obj)"

definition isOwnerGVK :: "group_version_kind \<Rightarrow> bool" where
  "isOwnerGVK gvk =
     list_ex (\<lambda>managedBy. ownerGVK managedBy = Some gvk)
       [ManagedByKustomization, ManagedByHelmRelease]"

text \<open>
  The first two arguments are apimachinery's reading of an object's kind and the
  controller-runtime transform that drops the managed fields.
\<close>

definition cacheTransform ::
    "(json_map \<Rightarrow> group_version_kind) \<Rightarrow> ('o runtime_object \<Rightarrow> 'o runtime_object option) \<Rightarrow>
       'o runtime_object \<Rightarrow> 'o runtime_object option" where
  "cacheTransform object_gvk stripManagedFields obj =
     (case obj of
        Unstructured u \<Rightarrow>
          if isOwnerGVK (object_gvk u) then StripOwnerForCache obj else stripManagedFields obj
      | _ \<Rightarrow> stripManagedFields obj)"

text \<open>The manager's cache options: the transform every informer applies.\<close>

record 'o cache_options =
  co_DefaultTransform :: "'o runtime_object \<Rightarrow> 'o runtime_object option"

definition CacheOptions ::
    "(json_map \<Rightarrow> group_version_kind) \<Rightarrow> ('o runtime_object \<Rightarrow> 'o runtime_object option) \<Rightarrow>
       'o cache_options" where
  "CacheOptions object_gvk stripManagedFields =
     \<lparr>co_DefaultTransform = cacheTransform object_gvk stripManagedFields\<rparr>"

definition ownerGVKs :: "group_version_kind list" where
  "ownerGVKs = List.map_filter ownerGVK [ManagedByKustomization, ManagedByHelmRelease]"

text \<open>The type of the objects \<open>NamespaceMetadata\<close> returns.\<close>

record type_meta =
  tm_APIVersion :: string
  tm_Kind :: string

definition NamespaceMetadata :: type_meta where
  "NamespaceMetadata = \<lparr>tm_APIVersion = ''v1'', tm_Kind = ''Namespace''\<rparr>"

text \<open>
  The manager's client, whose unstructured reads are answered from the cache: the object the
  API server holds, transformed when it entered the store.
\<close>

definition cached_client ::
    "(json_map \<Rightarrow> group_version_kind) \<Rightarrow> ('o runtime_object \<Rightarrow> 'o runtime_object option) \<Rightarrow>
       client \<Rightarrow> client" where
  "cached_client object_gvk stripManagedFields c =
     c\<lparr>get_unstructured := \<lambda>n timeout gvk ns name.
         (case get_unstructured c n timeout gvk ns name of
            None \<Rightarrow> None
          | Some u \<Rightarrow>
              (case cacheTransform object_gvk stripManagedFields (Unstructured u) of
                 Some (Unstructured u') \<Rightarrow> Some u'
               | _ \<Rightarrow> None))\<rparr>"

subsection \<open>What stripping keeps\<close>

lemma map_of_copy_present:
  "map_of (copy_present from fs to) k =
     (if k \<in> set fs \<and> map_of from k \<noteq> None then map_of from k else map_of to k)"
  by (induction fs arbitrary: to) (auto simp: update_conv' split: option.splits)

declare copy_present.simps [simp del]

lemma copy_present_Nil_iff:
  "copy_present from fs [] = [] \<longleftrightarrow> (\<forall>f\<in>set fs. map_of from f = None)"
proof -
  have "copy_present from fs [] = [] \<longleftrightarrow> (\<forall>k. map_of (copy_present from fs []) k = None)"
    by (cases "copy_present from fs []") auto
  then show ?thesis by (auto simp: map_of_copy_present)
qed

lemma map_of_copyFields:
  "map_of (copyFields src dst sec fs) k =
     (if k = sec then
        (case map_of src sec of
           Some (JObj from) \<Rightarrow>
             if copy_present from fs [] = [] then map_of dst k
             else Some (JObj (copy_present from fs []))
         | _ \<Rightarrow> map_of dst k)
      else map_of dst k)"
  by (auto simp: copyFields_def Let_def update_conv' split: option.splits json.splits)

text \<open>The identity part of the stripped object.\<close>

definition strip_identity :: "json_map \<Rightarrow> json_map" where
  "strip_identity obj =
     (let slim = copy_present obj [''apiVersion'', ''kind'', ''metadata''] [] in
      case map_of slim ''metadata'' of
        Some meta \<Rightarrow> AList.update ''metadata'' (without_managed_fields meta) slim
      | None \<Rightarrow> slim)"

lemma map_of_strip_identity:
  "map_of (strip_identity obj) k =
     (if k = ''metadata'' then map_option without_managed_fields (map_of obj k)
      else if k = ''apiVersion'' \<or> k = ''kind'' then map_of obj k else None)"
proof -
  have "map_of (copy_present obj [''apiVersion'', ''kind'', ''metadata''] []) k' =
      (if k' \<in> {''apiVersion'', ''kind'', ''metadata''} then map_of obj k' else None)" for k'
    by (auto simp: map_of_copy_present)
  then show ?thesis
    by (cases "map_of obj ''metadata''"; cases "k = ''metadata''")
      (simp_all add: strip_identity_def Let_def update_conv')
qed

lemma strip_owner_identity:
  "strip_owner obj =
     copyFields obj (copyFields obj (strip_identity obj) ''spec'' ownerCacheSpecFields)
       ''status'' ownerCacheStatusFields"
  unfolding strip_owner_def strip_identity_def Let_def by (rule refl)

lemma map_of_strip_owner:
  "map_of (strip_owner obj) ''spec'' =
     (case map_of obj ''spec'' of
        Some (JObj from) \<Rightarrow>
          if copy_present from ownerCacheSpecFields [] = [] then None
          else Some (JObj (copy_present from ownerCacheSpecFields []))
      | _ \<Rightarrow> None)"
  "map_of (strip_owner obj) ''status'' =
     (case map_of obj ''status'' of
        Some (JObj from) \<Rightarrow>
          if copy_present from ownerCacheStatusFields [] = [] then None
          else Some (JObj (copy_present from ownerCacheStatusFields []))
      | _ \<Rightarrow> None)"
  "k \<notin> {''spec'', ''status''} \<Longrightarrow>
     map_of (strip_owner obj) k = map_of (strip_identity obj) k"
proof -
  have no: "map_of (strip_identity obj) ''spec'' = None" "map_of (strip_identity obj) ''status'' = None"
    by (simp_all add: map_of_strip_identity)
  have other: "map_of (copyFields obj (strip_identity obj) ''spec'' fs) ''status'' = None" for fs
    by (simp add: map_of_copyFields no)
  show "k \<notin> {''spec'', ''status''} \<Longrightarrow>
     map_of (strip_owner obj) k = map_of (strip_identity obj) k"
    by (simp add: strip_owner_identity map_of_copyFields)
  show "map_of (strip_owner obj) ''status'' =
     (case map_of obj ''status'' of
        Some (JObj from) \<Rightarrow>
          if copy_present from ownerCacheStatusFields [] = [] then None
          else Some (JObj (copy_present from ownerCacheStatusFields []))
      | _ \<Rightarrow> None)"
    unfolding strip_owner_identity map_of_copyFields [of _ _ "''status''"] other by simp
  have "map_of (strip_owner obj) ''spec'' =
      map_of (copyFields obj (strip_identity obj) ''spec'' ownerCacheSpecFields) ''spec''"
    unfolding strip_owner_identity by (subst map_of_copyFields) simp
  then show "map_of (strip_owner obj) ''spec'' =
     (case map_of obj ''spec'' of
        Some (JObj from) \<Rightarrow>
          if copy_present from ownerCacheSpecFields [] = [] then None
          else Some (JObj (copy_present from ownerCacheSpecFields []))
      | _ \<Rightarrow> None)"
    unfolding map_of_copyFields no by simp
qed

text \<open>The three reads of an owner.\<close>

lemma nested_field_strip_spec:
  assumes "k \<in> set ownerCacheSpecFields"
  shows "nested_field (JObj (strip_owner obj)) [''spec'', k] = nested_field (JObj obj) [''spec'', k] \<or>
    nested_field (JObj (strip_owner obj)) [''spec'', k] = Some None \<and>
    nested_field (JObj obj) [''spec'', k] \<in> {None, Some None}"
  using assms
  by (auto simp: map_of_strip_owner map_of_copy_present copy_present_Nil_iff Let_def
      split: option.splits json.splits)

lemma nested_field_strip_status:
  "nested_field (JObj (strip_owner obj)) (''status'' # ''inventory'' # ks) =
     nested_field (JObj obj) (''status'' # ''inventory'' # ks) \<or>
   nested_field (JObj (strip_owner obj)) (''status'' # ''inventory'' # ks) = Some None \<and>
     nested_field (JObj obj) (''status'' # ''inventory'' # ks) \<in> {None, Some None}"
  by (auto simp: map_of_strip_owner map_of_copy_present copy_present_Nil_iff Let_def
      ownerCacheStatusFields_def split: option.splits json.splits)

context nested_access
begin

lemma strip_owner_reads:
  "owner_sa D (strip_owner obj) = owner_sa D obj"
  "parseIgnoreRules D (strip_owner obj) = parseIgnoreRules D obj"
  "inventory_lookup D (strip_owner obj) = inventory_lookup D obj"
  using nested_field_strip_spec [of "''serviceAccountName''" obj]
    nested_field_strip_spec [of "''ignore''" obj]
    nested_field_strip_status [of obj "[''entries'']"]
  by (auto simp: owner_sa_def parseIgnoreRules_def inventory_lookup_def NestedString NestedSlice
      nested_string_def nested_slice_def ownerCacheSpecFields_def simp del: nested_field.simps)

end

text \<open>Reading an owner through the cache.\<close>

lemma isOwnerGVK_ownerGVK: "ownerGVK managedBy = Some gvk \<Longrightarrow> isOwnerGVK gvk"
  by (auto simp: ownerGVK_def isOwnerGVK_def split: if_splits)

lemma getOwner_cached:
  assumes "Client h = Some c"
    and "\<And>n timeout gvk ns name u. get_unstructured c n timeout gvk ns name = Some u \<Longrightarrow>
           object_gvk u = gvk"
  shows "getOwner (h\<lparr>Client := Some (cached_client object_gvk strip c)\<rparr>) fi w =
     map_prod (map_option strip_owner) id (getOwner h fi w)"
  using assms
  by (auto simp: getOwner_def cached_client_def cacheTransform_def StripOwnerForCache_def
      fetch_timeout_def isOwnerGVK_ownerGVK split: option.splits)

context nested_access
begin

lemma same_view_cached:
  assumes "Client h = Some c"
    and "\<And>n timeout gvk ns name u. get_unstructured c n timeout gvk ns name = Some u \<Longrightarrow>
           object_gvk u = gvk"
  shows "same_view D (h\<lparr>Client := Some (cached_client object_gvk strip c)\<rparr>) h"
proof -
  let ?h = "h\<lparr>Client := Some (cached_client object_gvk strip c)\<rparr>"
  have owner: "getOwner ?h fi w = map_prod (map_option strip_owner) id (getOwner h fi w)" for fi w
    using assms by (rule getOwner_cached)
  show ?thesis
    unfolding same_view_def fun_eq_iff owningReconcilerSA_def ownerInventoryContains_def
      driftIgnoreSet_def owner
    using assms(1)
    by (auto simp: strip_owner_reads namespaceIsTerminating_def shouldProcessNamespace_def
        fetch_timeout_def cached_client_def split: option.splits prod.splits)
qed

end

end
