(* ===== verification/Duration.thy ===== *)
theory Duration
  imports Prelude "HOL-Library.Word"
begin

section \<open>Durations: \<open>time.ParseDuration\<close>\<close>

text \<open>
  Go's duration parser, which decides the resync interval a deployment gets: signs, fractions,
  units, and the 64-bit arithmetic with its overflow checks.  A duration is a number of
  nanoseconds.  Unsigned 64-bit values are words, so that every addition and multiplication
  wraps as in Go; the fraction is computed in 64-bit floating point, modelled by rounding a
  quotient of naturals to 53 significant bits, ties to even.
\<close>

subsection \<open>Definitions\<close>

type_synonym uint64 = "64 word"

definition is_digit :: "char \<Rightarrow> bool" where
  "is_digit c = (48 \<le> (of_char c :: nat) \<and> (of_char c :: nat) \<le> 57)"

text \<open>The digits at the front: their value and the rest, or an overflow (\<^const>\<open>None\<close>).\<close>

fun leadingInt_loop :: "uint64 \<Rightarrow> string \<Rightarrow> (uint64 \<times> string) option" where
  "leadingInt_loop x [] = Some (x, [])"
| "leadingInt_loop x (c # s) =
     (if \<not> is_digit c then Some (x, c # s)
      else if 922337203685477580 < x then None
      else
        let x = x * 10 + of_char c - 48 in
        if 9223372036854775808 < x then None else leadingInt_loop x s)"

definition leadingInt :: "string \<Rightarrow> (uint64 \<times> string) option" where
  "leadingInt s = leadingInt_loop 0 s"

text \<open>
  The digits after the point: their value, ten to their number, and the rest.  Digits past the
  64-bit range are skipped, never an error.  The scale is a power of ten below \<open>10 ^ 20\<close>, which
  floating point holds exactly.
\<close>

fun leadingFraction_loop :: "uint64 \<Rightarrow> int \<Rightarrow> bool \<Rightarrow> string \<Rightarrow> uint64 \<times> int \<times> string" where
  "leadingFraction_loop x scale overflow [] = (x, scale, [])"
| "leadingFraction_loop x scale overflow (c # s) =
     (if \<not> is_digit c then (x, scale, c # s)
      else if overflow then leadingFraction_loop x scale overflow s
      else if 922337203685477580 < x then leadingFraction_loop x scale True s
      else
        let y = x * 10 + of_char c - 48 in
        if 9223372036854775808 < y then leadingFraction_loop x scale True s
        else leadingFraction_loop y (scale * 10) False s)"

definition leadingFraction :: "string \<Rightarrow> uint64 \<times> int \<times> string" where
  "leadingFraction s = leadingFraction_loop 0 1 False s"

text \<open>Rounding \<open>p / q\<close> to 53 significant bits; the result is a fraction again.\<close>

definition round_half_even :: "int \<Rightarrow> int \<Rightarrow> int" where
  "round_half_even p q =
     (let d = p div q; r = p mod q in
      if q < 2 * r \<or> (2 * r = q \<and> odd d) then d + 1 else d)"

function shift_up :: "int \<Rightarrow> int \<Rightarrow> nat" where
  "shift_up p q = (if p \<le> 0 \<or> 4503599627370496 * q \<le> p then 0 else Suc (shift_up (2 * p) q))"
  by pat_completeness auto
termination by (relation "measure (\<lambda>(p, q). nat (4503599627370496 * q - p))") auto

function shift_down :: "int \<Rightarrow> int \<Rightarrow> nat" where
  "shift_down p q =
     (if q \<le> 0 \<or> p < 9007199254740992 * q then 0 else Suc (shift_down p (2 * q)))"
  by pat_completeness auto
termination by (relation "measure (\<lambda>(p, q). nat (1 + p - q))") auto

declare shift_up.simps [simp del] shift_down.simps [simp del]

definition float64 :: "int \<Rightarrow> int \<Rightarrow> int \<times> int" where
  "float64 p q =
     (if p = 0 then (0, 1)
      else
        let up = shift_up p q; down = shift_down p q in
        (round_half_even (p * 2 ^ up) (q * 2 ^ down) * 2 ^ down, 2 ^ up))"

text \<open>\<open>uint64(float64(f) * (float64(unit) / scale))\<close>.\<close>

definition fraction_value :: "uint64 \<Rightarrow> uint64 \<Rightarrow> int \<Rightarrow> uint64" where
  "fraction_value f unit scale =
     (let (fp, fq) = float64 (uint f) 1;
          (rp, rq) = float64 (uint unit) scale;
          (vp, vq) = float64 (fp * rp) (fq * rq)
      in word_of_int (vp div vq))"

text \<open>Microseconds have three names: \<open>us\<close>, and with the micro sign and the Greek letter.\<close>

definition unitMap :: "string \<Rightarrow> uint64 option" where
  "unitMap u =
     (if u = ''ns'' then Some 1
      else if u = ''us'' then Some 1000
      else if u = [CHR 0xC2, CHR 0xB5, CHR ''s''] then Some 1000
      else if u = [CHR 0xCE, CHR 0xBC, CHR ''s''] then Some 1000
      else if u = ''ms'' then Some 1000000
      else if u = ''s'' then Some 1000000000
      else if u = ''m'' then Some 60000000000
      else if u = ''h'' then Some 3600000000000
      else None)"

text \<open>The \<open>quote\<close> of the package: bytes outside printable ASCII in hexadecimal.\<close>

definition quote_byte :: "char \<Rightarrow> string" where
  "quote_byte c =
     (let b = of_char c :: nat in
      if 128 \<le> b \<or> b < 32 then hex_byte c
      else if c = CHR 0x22 \<or> c = CHR 0x5C then [CHR 0x5C, c]
      else [c])"

definition time_quote :: "string \<Rightarrow> string" where
  "time_quote s = ''\"'' @ concat (map quote_byte s) @ ''\"''"

definition invalid_duration :: "string \<Rightarrow> string" where
  "invalid_duration orig = ''time: invalid duration '' @ time_quote orig"

definition in_unit :: "char \<Rightarrow> bool" where
  "in_unit c = (c \<noteq> CHR ''.'' \<and> \<not> is_digit c)"

text \<open>The optional point and fraction; the last component says whether there were digits.\<close>

fun parse_fraction :: "string \<Rightarrow> uint64 \<times> int \<times> string \<times> bool" where
  "parse_fraction [] = (0, 1, [], False)"
| "parse_fraction (c # t) =
     (if c = CHR ''.'' then
        let (f, scale, s2) = leadingFraction t in (f, scale, s2, length t \<noteq> length s2)
      else (0, 1, c # t, False))"

text \<open>One round of the loop: a number, its fraction and its unit, and the rest of the input.\<close>

definition parse_component :: "string \<Rightarrow> string \<Rightarrow> string + uint64 \<times> string" where
  "parse_component orig s =
     (if in_unit (hd s) then Inl (invalid_duration orig)
      else
        (case leadingInt s of
           None \<Rightarrow> Inl (invalid_duration orig)
         | Some (v, s1) \<Rightarrow>
             let pre = (length s \<noteq> length s1);
                 (f, scale, s2, post) = parse_fraction s1
             in
             if \<not> pre \<and> \<not> post then Inl (invalid_duration orig)
             else
               let u = takeWhile in_unit s2; s3 = dropWhile in_unit s2 in
               if u = [] then Inl (''time: missing unit in duration '' @ time_quote orig)
               else
                 (case unitMap u of
                    None \<Rightarrow>
                      Inl (''time: unknown unit '' @ time_quote u @
                           '' in duration '' @ time_quote orig)
                  | Some unit \<Rightarrow>
                      if 9223372036854775808 div unit < v then Inl (invalid_duration orig)
                      else
                        let v = v * unit;
                            w = (if 0 < f then v + fraction_value f unit scale else v)
                        in
                        if 0 < f \<and> 9223372036854775808 < w then Inl (invalid_duration orig)
                        else Inr (w, s3))))"

lemma leadingInt_loop_length: "leadingInt_loop x s = Some (v, t) \<Longrightarrow> length t \<le> length s"
  by (induction x s rule: leadingInt_loop.induct) (auto simp: Let_def split: if_splits)

lemma leadingFraction_loop_length:
  "leadingFraction_loop x scale ov s = (f, sc, t) \<Longrightarrow> length t \<le> length s"
proof (induction x scale ov s rule: leadingFraction_loop.induct)
  case (2 x scale ov c s)
  then show ?case by (fastforce simp: Let_def split: if_splits)
qed simp

lemma parse_fraction_length: "parse_fraction s = (f, scale, t, post) \<Longrightarrow> length t \<le> length s"
  by (cases s)
    (auto simp: leadingFraction_def Let_def split: if_splits prod.splits
      dest: leadingFraction_loop_length)

lemma dropWhile_shorter: "takeWhile P s \<noteq> [] \<Longrightarrow> length (dropWhile P s) < length s"
  using takeWhile_dropWhile_id [of P s]
  by (metis add_less_same_cancel2 length_0_conv length_append less_add_same_cancel2 neq0_conv)

text \<open>Each round consumes at least the unit.\<close>

lemma parse_component_length:
  assumes "parse_component orig s = Inr (v, t)"
  shows "length t < length s"
proof -
  obtain v1 s1 where 1: "leadingInt s = Some (v1, s1)"
    using assms by (auto simp: parse_component_def split: if_splits option.splits)
  have le1: "length s1 \<le> length s"
    using 1 by (simp add: leadingInt_def leadingInt_loop_length)
  obtain f scale s2 post where 2: "parse_fraction s1 = (f, scale, s2, post)"
    using prod_cases4 by blast
  have le2: "length s2 \<le> length s1"
    using 2 by (rule parse_fraction_length)
  have "takeWhile in_unit s2 \<noteq> [] \<and> t = dropWhile in_unit s2"
    using assms unfolding parse_component_def 1 option.case prod.case Let_def 2 prod.case
    by (auto split: if_splits option.splits)
  then show ?thesis using dropWhile_shorter [of in_unit s2] le1 le2 by simp
qed

text \<open>
  The sum \<open>d += v\<close> wraps: two values of \<open>2 ^ 63\<close> add up to 0, which the check after the
  addition lets through.
\<close>

function parse_components :: "string \<Rightarrow> string \<Rightarrow> uint64 \<Rightarrow> string + uint64" where
  "parse_components orig s d =
     (if s = [] then Inr d
      else
        (case parse_component orig s of
           Inl err \<Rightarrow> Inl err
         | Inr (v, t) \<Rightarrow>
             let d = d + v in
             if 9223372036854775808 < d then Inl (invalid_duration orig)
             else parse_components orig t d))"
  by pat_completeness auto
termination
  by (relation "measure (\<lambda>(orig, s, d). length s)") (auto simp: parse_component_length)

declare parse_components.simps [simp del]

definition ParseDuration :: "string \<Rightarrow> string + int" where
  "ParseDuration orig =
     (let signed = (orig \<noteq> [] \<and> (hd orig = CHR ''-'' \<or> hd orig = CHR ''+''));
          neg = (orig \<noteq> [] \<and> hd orig = CHR ''-'');
          s = (if signed then tl orig else orig)
      in
      if s = ''0'' then Inr 0
      else if s = [] then Inl (invalid_duration orig)
      else
        (case parse_components orig s 0 of
           Inl err \<Rightarrow> Inl err
         | Inr d \<Rightarrow>
             if neg then Inr (sint (- d))
             else if 9223372036854775807 < d then Inl (invalid_duration orig)
             else Inr (sint d)))"

subsection \<open>Lemmas: whole numbers\<close>

abbreviation digit :: "char \<Rightarrow> nat" where "digit c \<equiv> of_char c - 48"

definition digits_value :: "nat \<Rightarrow> string \<Rightarrow> nat" where
  "digits_value = foldl (\<lambda>x c. x * 10 + digit c)"

lemma digits_value_simps [simp]:
  "digits_value x [] = x"
  "digits_value x (c # s) = digits_value (x * 10 + digit c) s"
  "digits_value x (s @ t) = digits_value (digits_value x s) t"
  by (simp_all add: digits_value_def)

lemma digits_value_ge: "x \<le> digits_value x s"
proof (induction s arbitrary: x)
  case (Cons c s)
  have "x \<le> x * 10 + digit c" by simp
  also have "\<dots> \<le> digits_value x (c # s)" using Cons.IH by simp
  finally show ?case .
qed simp

lemma of_char_word: "(of_char c :: uint64) = of_nat (of_char c)"
  by (simp only: of_nat_of_char)

lemma next_digit:
  assumes "is_digit c" "a \<le> 922337203685477580"
  shows "(word_of_nat a * 10 + of_char c - 48 :: uint64) = word_of_nat (a * 10 + digit c)"
proof -
  have "48 \<le> (of_char c :: nat)" using assms by (simp add: is_digit_def)
  then have "(word_of_nat (a * 10 + digit c) :: uint64) =
      word_of_nat (a * 10) + (word_of_nat (of_char c) - word_of_nat 48)"
    by (simp only: of_nat_add of_nat_diff)
  then show ?thesis by (simp add: of_char_word del: of_nat_of_char)
qed

lemma less_word_of_nat:
  "m < 2 ^ 64 \<Longrightarrow> k < 2 ^ 64 \<Longrightarrow> (word_of_nat m < (word_of_nat k :: uint64)) \<longleftrightarrow> m < k"
  by (simp add: word_less_nat_alt take_bit_nat_eq_self unsigned_of_nat)

lemma leadingInt_loop_digits:
  "list_all is_digit s \<Longrightarrow> rest = [] \<or> \<not> is_digit (hd rest) \<Longrightarrow> a \<le> 9223372036854775808 \<Longrightarrow>
     leadingInt_loop (word_of_nat a) (s @ rest) =
       (if digits_value a s \<le> 9223372036854775808
        then Some (word_of_nat (digits_value a s), rest) else None)"
proof (induction s arbitrary: a)
  case Nil
  then show ?case by (cases rest) auto
next
  case (Cons c s)
  let ?b = "a * 10 + digit c"
  have dig: "is_digit c" "digit c \<le> 9" using Cons.prems by (auto simp: is_digit_def)
  have big: "(922337203685477580 < (word_of_nat a :: uint64)) \<longleftrightarrow> 922337203685477580 < a"
    using less_word_of_nat [of 922337203685477580 a] Cons.prems by simp
  show ?case
  proof (cases "922337203685477580 < a")
    case True
    then have "9223372036854775808 < digits_value a (c # s)"
      using digits_value_ge [of ?b s] by simp
    with True big dig show ?thesis by simp
  next
    case False
    have max: "(9223372036854775808 < (word_of_nat ?b :: uint64)) \<longleftrightarrow> 9223372036854775808 < ?b"
      using less_word_of_nat [of 9223372036854775808 ?b] False dig by simp
    have step: "leadingInt_loop (word_of_nat a) ((c # s) @ rest) =
        (if 9223372036854775808 < ?b then None else leadingInt_loop (word_of_nat ?b) (s @ rest))"
      using False big dig(1) max by (simp add: Let_def next_digit del: of_nat_add of_nat_mult)
    show ?thesis
    proof (cases "9223372036854775808 < ?b")
      case True
      then show ?thesis using step digits_value_ge [of ?b s] by simp
    next
      case False
      then show ?thesis using step Cons.IH [of ?b] Cons.prems by simp
    qed
  qed
qed

lemma digit_char: "(d :: nat) < 10 \<Longrightarrow> is_digit (char_of (48 + d))"
  by (simp add: is_digit_def take_bit_nat_eq_self)

lemma Itoa_digits: "list_all is_digit (Itoa n)"
proof (induction n rule: Itoa.induct)
  case (1 n)
  then show ?case
    using digit_char [of "n mod 10"] digit_char [of n]
    by (subst Itoa.simps) (auto simp del: of_char_of)
qed

lemma digits_value_Itoa: "digits_value 0 (Itoa n) = n"
proof (induction n rule: Itoa.induct)
  case (1 n)
  then show ?case
    by (subst Itoa.simps) (auto simp: take_bit_nat_eq_self)
qed

lemma Itoa_not_Nil: "Itoa n \<noteq> []"
  by (subst Itoa.simps) simp

lemma leadingInt_Itoa:
  "rest = [] \<or> \<not> is_digit (hd rest) \<Longrightarrow>
     leadingInt (Itoa n @ rest) =
       (if n \<le> 9223372036854775808 then Some (word_of_nat n, rest) else None)"
  using leadingInt_loop_digits [of "Itoa n" rest 0]
  by (simp add: leadingInt_def Itoa_digits digits_value_Itoa)

subsection \<open>Lemmas: sums of whole numbers with units\<close>

definition unit_names :: "string list" where
  "unit_names = [''ns'', ''us'', ''ms'', ''s'', ''m'', ''h'']"

text \<open>The value of a unit in nanoseconds.\<close>

definition unit_value :: "string \<Rightarrow> nat" where
  "unit_value u = (case unitMap u of None \<Rightarrow> 0 | Some w \<Rightarrow> unat w)"

lemma unit_name_cases:
  assumes "u \<in> set unit_names"
  obtains "u = ''ns'' \<or> u = ''us'' \<or> u = ''ms'' \<or> u = ''s'' \<or> u = ''m'' \<or> u = ''h''"
  using assms by (auto simp: unit_names_def)

lemma unit_name:
  assumes "u \<in> set unit_names"
  shows "u \<noteq> []" "list_all in_unit u" "unitMap u = Some (word_of_nat (unit_value u))"
    "0 < unit_value u" "unit_value u \<le> 3600000000000"
  using assms
  by (auto elim!: unit_name_cases simp: unitMap_def unit_value_def in_unit_def is_digit_def)

text \<open>A component as a text: a number and its unit; a duration is a list of them.\<close>

definition duration_text :: "(nat \<times> string) list \<Rightarrow> string" where
  "duration_text parts = concat (map (\<lambda>(n, u). Itoa n @ u) parts)"

definition nanoseconds :: "(nat \<times> string) list \<Rightarrow> nat" where
  "nanoseconds parts = sum_list (map (\<lambda>(n, u). n * unit_value u) parts)"

lemma duration_text_simps [simp]:
  "duration_text [] = []"
  "duration_text ((n, u) # parts) = Itoa n @ u @ duration_text parts"
  by (simp_all add: duration_text_def)

lemma nanoseconds_simps [simp]:
  "nanoseconds [] = 0"
  "nanoseconds ((n, u) # parts) = n * unit_value u + nanoseconds parts"
  by (simp_all add: nanoseconds_def)

lemma Itoa_hd: "is_digit (hd (Itoa n @ s))"
  using Itoa_digits [of n] Itoa_not_Nil [of n] by (cases "Itoa n") auto

lemma duration_text_hd: "duration_text parts = [] \<or> is_digit (hd (duration_text parts))"
  by (cases parts) (auto simp: Itoa_hd)

lemma parse_component_number:
  assumes u: "u \<in> set unit_names" and rest: "rest = [] \<or> is_digit (hd rest)"
  shows "parse_component orig (Itoa n @ u @ rest) =
    (if n * unit_value u \<le> 9223372036854775808
     then Inr (word_of_nat (n * unit_value u), rest) else Inl (invalid_duration orig))"
proof -
  note unit = unit_name [OF u]
  have "in_unit (hd u)" using unit by (cases u) auto
  then have hd_u: "\<not> is_digit (hd (u @ rest))" "hd (u @ rest) \<noteq> CHR ''.''"
    using unit(1) by (simp_all add: in_unit_def)
  have dig: "\<not> in_unit (hd (Itoa n @ u @ rest))" using Itoa_hd by (simp add: in_unit_def)
  have frac: "parse_fraction (u @ rest) = (0, 1, u @ rest, False)"
    using hd_u unit(1) by (cases "u @ rest") auto
  have split: "takeWhile in_unit (u @ rest) = u" "dropWhile in_unit (u @ rest) = rest"
    using unit(2) rest by (cases rest; auto simp: in_unit_def list_all_iff takeWhile_append2
        dropWhile_append2)+
  have lead: "leadingInt (Itoa n @ u @ rest) =
      (if n \<le> 9223372036854775808 then Some (word_of_nat n, u @ rest) else None)"
    using hd_u by (intro leadingInt_Itoa) simp
  show ?thesis
  proof (cases "n \<le> 9223372036854775808")
    case False
    then have "9223372036854775808 < n * unit_value u"
      using unit(4) by (metis less_le_trans mult_le_mono2 nat_mult_1_right not_le Suc_leI One_nat_def)
    then show ?thesis using False dig lead by (simp add: parse_component_def)
  next
    case True
    have "(9223372036854775808 div word_of_nat (unit_value u) < (word_of_nat n :: uint64)) \<longleftrightarrow>
        9223372036854775808 div unit_value u < n"
      using unit(5) True
      by (simp add: word_less_nat_alt unat_div_distrib unsigned_of_nat take_bit_nat_eq_self)
    also have "\<dots> \<longleftrightarrow> 9223372036854775808 < n * unit_value u"
      using unit(4) by (simp add: div_less_iff_less_mult)
    finally have ovf: "(9223372036854775808 div word_of_nat (unit_value u) <
        (word_of_nat n :: uint64)) \<longleftrightarrow> 9223372036854775808 < n * unit_value u" .
    show ?thesis
      using True dig unit(1,3) ovf
      by (simp add: parse_component_def lead frac split Itoa_not_Nil)
  qed
qed

lemma parse_components_text:
  "set (map snd parts) \<subseteq> set unit_names \<Longrightarrow> a + nanoseconds parts < 9223372036854775808 \<Longrightarrow>
     parse_components orig (duration_text parts) (word_of_nat a) =
       Inr (word_of_nat (a + nanoseconds parts))"
proof (induction parts arbitrary: a)
  case Nil
  then show ?case by (simp add: parse_components.simps)
next
  case (Cons part parts)
  obtain n u where part: "part = (n, u)" by (cases part)
  let ?b = "a + n * unit_value u"
  have "parse_component orig (duration_text (part # parts)) =
      Inr (word_of_nat (n * unit_value u), duration_text parts)"
    using Cons.prems duration_text_hd [of parts] part
    by (simp add: parse_component_number)
  moreover have "duration_text (part # parts) \<noteq> []" by (simp add: part Itoa_not_Nil)
  moreover have "\<not> 9223372036854775808 < (word_of_nat ?b :: uint64)"
    using Cons.prems part less_word_of_nat [of 9223372036854775808 ?b] by simp
  ultimately have "parse_components orig (duration_text (part # parts)) (word_of_nat a) =
      parse_components orig (duration_text parts) (word_of_nat ?b)"
    by (subst parse_components.simps) (simp add: Let_def)
  then show ?case using Cons.IH [of ?b] Cons.prems part by (simp add: add.assoc)
qed

lemma sint_word_of_nat: "n < 9223372036854775808 \<Longrightarrow> sint (word_of_nat n :: uint64) = int n"
  by (simp add: signed_of_nat signed_take_bit_int_eq_self)

lemma digit_no_sign: "is_digit c \<Longrightarrow> c \<noteq> CHR ''-'' \<and> c \<noteq> CHR ''+''"
  by (auto simp: is_digit_def)

lemma unit_text_not_zero: "parts \<noteq> [] \<Longrightarrow> set (map snd parts) \<subseteq> set unit_names \<Longrightarrow>
    duration_text parts \<noteq> [] \<and> duration_text parts \<noteq> ''0''"
proof (cases parts)
  case (Cons part ps)
  moreover assume "set (map snd parts) \<subseteq> set unit_names"
  moreover obtain n u where "part = (n, u)" by (cases part)
  ultimately have "u \<noteq> []" and eq: "duration_text parts = Itoa n @ u @ duration_text ps"
    using unit_name(1) [of u] by auto
  then have "1 < length (duration_text parts)"
    using Itoa_not_Nil [of n] by (cases "Itoa n"; cases u) auto
  then show ?thesis by auto
qed simp

text \<open>Whole numbers with units parse to their sum, with either sign.\<close>

lemma ParseDuration_text:
  assumes "parts \<noteq> []" "set (map snd parts) \<subseteq> set unit_names"
    and "nanoseconds parts < 9223372036854775808"
  shows "ParseDuration (duration_text parts) = Inr (int (nanoseconds parts))"
    and "ParseDuration (CHR ''-'' # duration_text parts) = Inr (- int (nanoseconds parts))"
proof -
  note nz = unit_text_not_zero [OF assms(1,2)]
  have sum: "parse_components orig (duration_text parts) 0 = Inr (word_of_nat (nanoseconds parts))"
    for orig
    using parse_components_text [of parts 0 orig] assms by simp
  have hd: "is_digit (hd (duration_text parts))"
    using duration_text_hd [of parts] nz by simp
  have "\<not> 9223372036854775807 < (word_of_nat (nanoseconds parts) :: uint64)"
    using assms(3) less_word_of_nat [of 9223372036854775807 "nanoseconds parts"] by simp
  then show "ParseDuration (duration_text parts) = Inr (int (nanoseconds parts))"
    using nz digit_no_sign [OF hd] assms(3)
    by (simp add: ParseDuration_def sum sint_word_of_nat)
  have "sint (- (word_of_nat (nanoseconds parts)) :: uint64) = - int (nanoseconds parts)"
  proof -
    have "(- (word_of_nat (nanoseconds parts)) :: uint64) = word_of_int (- int (nanoseconds parts))"
      by simp
    then show ?thesis
      using assms(3) by (simp only: signed_of_int) (simp add: signed_take_bit_int_eq_self)
  qed
  then show "ParseDuration (CHR ''-'' # duration_text parts) = Inr (- int (nanoseconds parts))"
    using nz by (simp add: ParseDuration_def sum)
qed

text \<open>
  What the loop accepts is the sum modulo \<open>2 ^ 64\<close>; it wraps only where a partial sum of \<open>2 ^ 63\<close>
  meets a part of \<open>2 ^ 63\<close>, which no other unit than nanoseconds can write.
\<close>

lemma unit_value_cases:
  assumes "u \<in> set unit_names"
  shows "unit_value u \<in> {1, 1000, 1000000, 1000000000, 60000000000, 3600000000000}"
  using assms by (auto simp: unit_names_def unit_value_def unitMap_def)

lemma part_of_two_63:
  assumes "u \<in> set unit_names" and "n * unit_value u = 9223372036854775808"
  shows "n = 9223372036854775808 \<and> u = ''ns''"
proof -
  have "9223372036854775808 mod unit_value u = 0"
    by (subst assms(2) [symmetric]) simp
  with unit_value_cases [OF assms(1)] have "unit_value u = 1" by auto
  with assms show ?thesis by (auto simp: unit_names_def unit_value_def unitMap_def)
qed

lemma parse_components_accepts:
  assumes "set (map snd parts) \<subseteq> set unit_names" and "a \<le> 9223372036854775808"
    and "parse_components orig (duration_text parts) (word_of_nat a) = Inr d"
  shows "d = word_of_nat (a + nanoseconds parts) \<and> d \<le> 9223372036854775808 \<and>
    (a + nanoseconds parts \<le> 9223372036854775808 \<or> (9223372036854775808, ''ns'') \<in> set parts)"
  using assms
proof (induction parts arbitrary: a)
  case Nil
  then have "d = word_of_nat a" by (simp add: parse_components.simps)
  with Nil.prems(2) show ?case
    using less_word_of_nat [of 9223372036854775808 a] by (simp add: not_less)
next
  case (Cons part parts)
  obtain n u where part: "part = (n, u)" by (cases part)
  let ?v = "n * unit_value u"
  let ?b = "a + ?v"
  have u: "u \<in> set unit_names" using Cons.prems(1) part by simp
  have comp: "parse_component orig (duration_text (part # parts)) =
      (if ?v \<le> 9223372036854775808 then Inr (word_of_nat ?v, duration_text parts)
       else Inl (invalid_duration orig))"
    using u duration_text_hd [of parts] part by (simp add: parse_component_number)
  have "duration_text (part # parts) \<noteq> []" by (simp add: part Itoa_not_Nil)
  with Cons.prems(3) comp have v: "?v \<le> 9223372036854775808"
    and le: "\<not> 9223372036854775808 < (word_of_nat ?b :: uint64)"
    and rest: "parse_components orig (duration_text parts) (word_of_nat ?b) = Inr d"
    by (subst (asm) parse_components.simps, simp add: Let_def split: if_splits)+
  show ?case
  proof (cases "?b \<le> 9223372036854775808")
    case True
    from Cons.IH [OF _ True rest] Cons.prems(1) part show ?thesis by (auto simp: add.assoc)
  next
    case False
    have "?b = 2 ^ 64"
      using False le less_word_of_nat [of 9223372036854775808 ?b] v Cons.prems(2)
      by (cases "?b < 2 ^ 64") auto
    then have b: "?b = 18446744073709551616" by simp
    then have "(word_of_nat ?b :: uint64) = word_of_nat 0" by simp
    with rest have "parse_components orig (duration_text parts) (word_of_nat 0) = Inr d" by simp
    from Cons.IH [OF _ _ this] Cons.prems(1)
    have ih: "d = word_of_nat (0 + nanoseconds parts) \<and> d \<le> 9223372036854775808" by fastforce
    have "(word_of_nat (?b + nanoseconds parts) :: uint64) = word_of_nat (nanoseconds parts)"
      by (simp add: b)
    moreover have "?v = 9223372036854775808" using b v Cons.prems(2) by simp
    then have "n = 9223372036854775808 \<and> u = ''ns''" using u part_of_two_63 by blast
    moreover have "d \<le> 9223372036854775808" using ih by blast
    moreover have "d = word_of_nat (nanoseconds parts)" using ih by simp
    ultimately show ?thesis using part by (simp add: add.assoc)
  qed
qed

text \<open>An accepted duration without a sign is the sum of its parts, save for that case.\<close>

lemma ParseDuration_accepts:
  assumes "parts \<noteq> []" and "set (map snd parts) \<subseteq> set unit_names"
    and "ParseDuration (duration_text parts) = Inr d"
  shows "d = int (nanoseconds parts mod 2 ^ 64) \<and>
    (nanoseconds parts < 2 ^ 63 \<or> (2 ^ 63, ''ns'') \<in> set parts)"
proof -
  let ?s = "duration_text parts"
  note nz = unit_text_not_zero [OF assms(1,2)]
  have "is_digit (hd ?s)" using duration_text_hd [of parts] nz by simp
  then have "hd ?s \<noteq> CHR ''-'' \<and> hd ?s \<noteq> CHR ''+''" by (rule digit_no_sign)
  with nz assms(3) obtain x where x: "parse_components ?s ?s (word_of_nat 0) = Inr x"
    "x \<le> 9223372036854775807" "d = sint x"
    by (auto simp: ParseDuration_def Let_def not_less split: sum.splits if_splits)
  from parse_components_accepts [OF assms(2) _ x(1)]
  have sum: "x = word_of_nat (nanoseconds parts)"
    "nanoseconds parts \<le> 9223372036854775808 \<or> (9223372036854775808, ''ns'') \<in> set parts"
    by simp_all
  have small: "unat x < 9223372036854775808"
    using x(2) by (simp add: word_le_nat_alt)
  have ux: "unat x = nanoseconds parts mod 2 ^ 64" by (simp add: sum(1) unsigned_of_nat take_bit_eq_mod)
  have "d = int (unat x)"
    using sint_word_of_nat [OF small] x(3) by simp
  moreover have "nanoseconds parts \<noteq> 9223372036854775808" using small ux by auto
  ultimately show ?thesis using sum(2) ux by auto
qed

text \<open>A single number that does not fit in 64 signed bits is an error.\<close>

lemma ParseDuration_overflow:
  assumes u: "u \<in> set unit_names" and big: "9223372036854775808 \<le> n * unit_value u"
  shows "ParseDuration (Itoa n @ u) = Inl (invalid_duration (Itoa n @ u))"
proof -
  let ?s = "Itoa n @ u"
  have "is_digit (hd ?s)" using Itoa_hd [of n u] .
  then have sign: "hd ?s \<noteq> CHR ''-'' \<and> hd ?s \<noteq> CHR ''+''" by (rule digit_no_sign)
  have nz: "?s \<noteq> [] \<and> ?s \<noteq> ''0''"
    using unit_text_not_zero [of "[(n, u)]"] u by simp
  have comp: "parse_component ?s ?s =
      (if n * unit_value u \<le> 9223372036854775808
       then Inr (word_of_nat (n * unit_value u), []) else Inl (invalid_duration ?s))"
    using parse_component_number [OF u, of "[]" ?s n] by simp
  show ?thesis
  proof (cases "n * unit_value u = 9223372036854775808")
    case True
    then have "parse_components ?s ?s 0 = Inr 9223372036854775808"
      using comp nz by (subst parse_components.simps) (simp add: Let_def parse_components.simps)
    then show ?thesis using sign nz by (simp add: ParseDuration_def Let_def Itoa_not_Nil)
  next
    case False
    then have "parse_components ?s ?s 0 = Inl (invalid_duration ?s)"
      using comp nz big by (subst parse_components.simps) simp
    then show ?thesis using sign nz by (simp add: ParseDuration_def Let_def Itoa_not_Nil)
  qed
qed

lemma ParseDuration_range:
  "ParseDuration s = Inr d \<Longrightarrow> - 9223372036854775808 \<le> d \<and> d < 9223372036854775808"
  using sint_greater_eq [where 'a = 64] sint_less [where 'a = 64]
  by (auto simp: ParseDuration_def Let_def split: if_splits sum.splits)

end
