(* ===== verification/Startup.thy ===== *)
theory Startup
  imports Webhook_Config Cache Duration
begin

section \<open>Start-up (\<open>cmd/webhook/main.go\<close>)\<close>

text \<open>
  From the environment and the command line to the handler and the reconciler \<open>main\<close> wires
  together, the exits on invalid values in the order \<open>main\<close> takes them, the readiness signal
  of the caches and the pre-warming of the informers.  The environment is a function from names
  to values.
\<close>

subsection \<open>Definitions\<close>

text \<open>An unset variable is the empty string, as for \<open>os.Getenv\<close>.\<close>

type_synonym environment = "string \<Rightarrow> string"

definition getEnv :: "environment \<Rightarrow> string \<Rightarrow> string \<Rightarrow> string" where
  "getEnv env key defaultValue = (let v = env key in if v \<noteq> [] then v else defaultValue)"

definition getEnvDuration ::
    "environment \<Rightarrow> string \<Rightarrow> int \<Rightarrow> string + int" where
  "getEnvDuration env key defaultValue =
     (let v = env key in
      if v = [] then Inr defaultValue
      else
        (case ParseDuration v of
           Inl err \<Rightarrow> Inl (''invalid duration '' @ Quote v @ '' for '' @ key @ '': '' @ err)
         | Inr d \<Rightarrow> Inr d))"

definition resyncIntervalDefault ::
    "environment \<Rightarrow> string + int" where
  "resyncIntervalDefault env =
     (case getEnvDuration env ''DISCOVERY_INTERVAL'' DefaultVWCResyncInterval of
        Inl err \<Rightarrow> Inl err
      | Inr legacy \<Rightarrow> getEnvDuration env ''VWC_RESYNC_INTERVAL'' legacy)"

definition parseFailurePolicy :: "string \<Rightarrow> string + string" where
  "parseFailurePolicy v =
     (if v = ''Ignore'' then Inr ''Ignore''
      else if v = ''Fail'' then Inr ''Fail''
      else Inl (''must be '' @ Quote ''Ignore'' @ '' or '' @ Quote ''Fail'' @ '', got '' @ Quote v))"

fun split_csv_loop :: "string list \<Rightarrow> string list \<Rightarrow> string list" where
  "split_csv_loop [] out = out"
| "split_csv_loop (e # es) out =
     (let e = TrimSpace e in if e \<noteq> [] then split_csv_loop es (out @ [e]) else split_csv_loop es out)"

definition splitCSV :: "string \<Rightarrow> string list" where
  "splitCSV csv = split_csv_loop (Split csv (CHR '','')) []"

text \<open>The set \<open>seen\<close> always holds the elements of \<open>result\<close>; it is a list of keys here.\<close>

fun merge_sas_loop :: "string list \<Rightarrow> string list \<Rightarrow> string list \<Rightarrow> string + string list" where
  "merge_sas_loop [] seen result = Inr result"
| "merge_sas_loop (e # es) seen result =
     (let e = TrimSpace e in
      if e = [] \<or> List.member seen e then merge_sas_loop es seen result
      else if HasPrefix e sa_prefix then
        Inl (''entry '' @ Quote e @
             '' uses the full service-account username form, which never matches; '' @
             ''use the namespace:name shorthand instead'')
      else if \<not> HasPrefix e system_prefix \<and>
              (let parts = Split e (CHR '':'') in
               length parts \<noteq> 2 \<or> parts ! 0 = [] \<or> parts ! 1 = []) then
        Inl (''entry '' @ Quote e @
             '' is neither a namespace:name service-account shorthand nor a '' @
             ''full system: component username'')
      else merge_sas_loop es (e # seen) (result @ [e]))"

definition mergeSystemControllerSAs :: "string \<Rightarrow> string + string list" where
  "mergeSystemControllerSAs csv =
     merge_sas_loop (Split csv (CHR '',''))
       DefaultSystemControllerServiceAccounts DefaultSystemControllerServiceAccounts"

text \<open>
  The flags of the program: \<^const>\<open>None\<close> for a flag the command line does not set.  A 32-bit
  float is a pair \<open>(m, e)\<close> for \<open>m * 2 ^ e\<close>; the leader-election flags are a record of fluxcd's
  runtime package.
\<close>

type_synonym float32 = "int \<times> int"

record leader_election_options =
  le_Enable :: bool
  le_ReleaseOnCancel :: bool
  le_LeaseDuration :: int
  le_RenewDeadline :: int
  le_RetryPeriod :: int

record command_line =
  fl_webhook_port :: "int option"
  fl_metrics_bind_addr :: "string option"
  fl_health_probe_bind_addr :: "string option"
  fl_cert_dir :: "string option"
  fl_audit_only :: "bool option"
  fl_flux_namespace :: "string option"
  fl_webhook_name :: "string option"
  fl_vwc_resync_interval :: "int option"
  fl_discovery_interval :: "int option"
  fl_namespace_label :: "string option"
  fl_namespace_label_value :: "string option"
  fl_namespace_fetch_timeout :: "int option"
  fl_system_controller_sas :: "string option"
  fl_kube_api_qps :: "float32 option"
  fl_kube_api_burst :: "int option"
  fl_failure_policy :: "string option"
  fl_webhook_timeout :: "32 word option"
  fl_extra_excluded_namespaces :: "string option"
  fl_leader_election :: leader_election_options

definition flag_value :: "'a option \<Rightarrow> 'a \<Rightarrow> 'a" where
  "flag_value flag defaultValue = (case flag of None \<Rightarrow> defaultValue | Some v \<Rightarrow> v)"

datatype startup_error =
    InvalidResyncDefault string
  | NamespaceLabelValueWithoutLabel
  | InvalidFailurePolicy string
  | InvalidWebhookTimeout
  | ManagerFailed
  | InvalidSystemControllerSAs string

text \<open>An explicit \<open>--vwc-resync-interval\<close> wins over its deprecated alias.\<close>

definition resync_interval :: "command_line \<Rightarrow> int \<Rightarrow> int" where
  "resync_interval cl resyncDefault =
     (let vwcResyncInterval = flag_value (fl_vwc_resync_interval cl) resyncDefault;
          discoveryInterval = flag_value (fl_discovery_interval cl) resyncDefault in
      if fl_discovery_interval cl \<noteq> None \<and> fl_vwc_resync_interval cl = None
      then discoveryInterval else vwcResyncInterval)"

text \<open>
  \<open>main\<close> up to the registration of the handler and the reconciler; \<open>mgr\<close> is the client of
  the manager, \<^const>\<open>None\<close> when the manager cannot be created.
\<close>

definition startup ::
    "environment \<Rightarrow> command_line \<Rightarrow> client option \<Rightarrow>
       startup_error + (handler \<times> webhook_config_reconciler)" where
  "startup env cl mgr =
     (case resyncIntervalDefault env of
        Inl err \<Rightarrow> Inl (InvalidResyncDefault err)
      | Inr resyncDefault \<Rightarrow>
          let fluxNamespace =
                flag_value (fl_flux_namespace cl) (getEnv env ''FLUX_NAMESPACE'' FluxNamespaceDefault);
              webhookName =
                flag_value (fl_webhook_name cl) (getEnv env ''WEBHOOK_NAME'' WebhookName);
              namespaceLabel = flag_value (fl_namespace_label cl) [];
              namespaceLabelValue = flag_value (fl_namespace_label_value cl) [];
              systemControllerSAs =
                flag_value (fl_system_controller_sas cl) (getEnv env ''SYSTEM_CONTROLLER_SAS'' []);
              failurePolicy =
                flag_value (fl_failure_policy cl) (getEnv env ''FAILURE_POLICY'' ''Ignore'');
              webhookTimeout = flag_value (fl_webhook_timeout cl) 3;
              extraExcludedNamespaces =
                flag_value (fl_extra_excluded_namespaces cl)
                  (getEnv env ''EXTRA_EXCLUDED_NAMESPACES'' []);
              vwcResyncInterval = resync_interval cl resyncDefault
          in
          if namespaceLabelValue \<noteq> [] \<and> namespaceLabel = [] then
            Inl NamespaceLabelValueWithoutLabel
          else
            (case parseFailurePolicy failurePolicy of
               Inl err \<Rightarrow> Inl (InvalidFailurePolicy err)
             | Inr vwcFailurePolicy \<Rightarrow>
                 if webhookTimeout <s 1 \<or> 30 <s webhookTimeout then Inl InvalidWebhookTimeout
                 else
                   (case mgr of
                      None \<Rightarrow> Inl ManagerFailed
                    | Some client \<Rightarrow>
                        (case mergeSystemControllerSAs systemControllerSAs of
                           Inl err \<Rightarrow> Inl (InvalidSystemControllerSAs err)
                         | Inr effectiveSystemSAs \<Rightarrow>
                             Inr
                               (\<lparr>FluxNamespace = fluxNamespace,
                                 AuditOnly = flag_value (fl_audit_only cl) False,
                                 NamespaceLabel = namespaceLabel,
                                 NamespaceLabelValue = namespaceLabelValue,
                                 NamespaceFetchTimeout =
                                   flag_value (fl_namespace_fetch_timeout cl)
                                     DefaultNamespaceFetchTimeout,
                                 Client = Some client,
                                 SystemControllerSAs = effectiveSystemSAs\<rparr>,
                                \<lparr>rc_WebhookName = webhookName,
                                 rc_WebhookNamespace = fluxNamespace,
                                 rc_WebhookService = ''flux-drift-webhook'',
                                 rc_WebhookPath = WebhookPath,
                                 rc_ResyncInterval = vwcResyncInterval,
                                 rc_FailurePolicy = vwcFailurePolicy,
                                 rc_TimeoutSeconds = webhookTimeout,
                                 rc_ExtraExcludedNamespaces = splitCSV extraExcludedNamespaces,
                                 HasEventRecorder = True\<rparr>)))))"

text \<open>
  \<open>cachesSynced\<close>: the state is whether the channel is closed.  Closing it twice panics
  (\<^const>\<open>None\<close>); \<open>Check\<close> returns the error of the \<open>default\<close> branch while it is open.
\<close>

record cachesSynced =
  ch_closed :: bool

definition cachesSynced_new :: cachesSynced where
  "cachesSynced_new = \<lparr>ch_closed = False\<rparr>"

definition cachesSynced_Start :: "cachesSynced \<Rightarrow> cachesSynced option" where
  "cachesSynced_Start c = (if ch_closed c then None else Some (c\<lparr>ch_closed := True\<rparr>))"

definition cachesSynced_NeedLeaderElection :: "cachesSynced \<Rightarrow> bool" where
  "cachesSynced_NeedLeaderElection c = False"

definition cachesSynced_Check :: "cachesSynced \<Rightarrow> string option" where
  "cachesSynced_Check c =
     (if ch_closed c then None
      else Some ''informer caches have not completed their initial sync'')"

text \<open>
  \<open>warmInformerCaches\<close>: the types whose informer is registered; \<open>get_informer\<close> says whether
  \<open>GetInformer\<close> succeeds.
\<close>

fun warm_loop :: "(cached_object \<Rightarrow> bool) \<Rightarrow> cached_object list \<Rightarrow> cached_object list" where
  "warm_loop get_informer [] = []"
| "warm_loop get_informer (obj # objs) =
     (if \<not> get_informer obj then warm_loop get_informer objs
      else obj # warm_loop get_informer objs)"

definition warmInformerCaches :: "(cached_object \<Rightarrow> bool) \<Rightarrow> cached_object list" where
  "warmInformerCaches get_informer = warm_loop get_informer CachedObjectTypes"

subsection \<open>Lemmas\<close>

lemma split_csv_loop_eq:
  "split_csv_loop es out = out @ filter (\<lambda>e. e \<noteq> []) (map TrimSpace es)"
  by (induction es arbitrary: out) (simp_all add: Let_def)

lemma splitCSV_eq: "splitCSV csv = filter (\<lambda>e. e \<noteq> []) (map TrimSpace (Split csv (CHR '','')))"
  by (simp add: splitCSV_def split_csv_loop_eq)

text \<open>The entries \<open>mergeSystemControllerSAs\<close> accepts.\<close>

definition valid_entry :: "string \<Rightarrow> bool" where
  "valid_entry e =
     (\<not> HasPrefix e sa_prefix \<and>
      (HasPrefix e system_prefix \<or>
       (\<exists>ns name. e = ns @ '':'' @ name \<and> ns \<noteq> [] \<and> name \<noteq> [] \<and>
          CHR '':'' \<notin> set ns \<and> CHR '':'' \<notin> set name)))"

lemma split_pair_iff:
  "(length (Split e sep) = 2 \<and> Split e sep ! 0 \<noteq> [] \<and> Split e sep ! 1 \<noteq> []) \<longleftrightarrow>
     (\<exists>a b. e = a @ sep # b \<and> a \<noteq> [] \<and> b \<noteq> [] \<and> sep \<notin> set a \<and> sep \<notin> set b)"
  (is "?L \<longleftrightarrow> ?R")
proof
  assume ?L
  then obtain a b where ab: "Split e sep = [a, b]" by (auto simp: eval_nat_numeral length_Suc_conv)
  with Split_Join_id [of e sep] have "e = a @ sep # b" by simp
  moreover have "sep \<notin> set a" "sep \<notin> set b" using Split_no_sep [of _ e sep] ab by auto
  ultimately show ?R using \<open>?L\<close> ab by auto
next
  assume ?R
  then show ?L by (auto simp: Split_append_sep Split_free)
qed

lemma entry_form_iff:
  "\<not> HasPrefix e sa_prefix \<Longrightarrow>
     (\<not> HasPrefix e system_prefix \<and>
       (let parts = Split e (CHR '':'') in
        length parts \<noteq> 2 \<or> parts ! 0 = [] \<or> parts ! 1 = [])) \<longleftrightarrow> \<not> valid_entry e"
  using split_pair_iff [of e "CHR '':''"] by (auto simp: valid_entry_def Let_def)

lemma merge_sas_loop_result:
  "set seen = set xs \<Longrightarrow>
     if \<exists>e\<in>set (map TrimSpace es). e \<noteq> [] \<and> e \<notin> set xs \<and> \<not> valid_entry e
     then \<exists>err. merge_sas_loop es seen (keep_first xs) = Inl err
     else merge_sas_loop es seen (keep_first xs) =
            Inr (keep_first (xs @ filter (\<lambda>e. e \<noteq> []) (map TrimSpace es)))"
proof (induction es arbitrary: seen xs)
  case Nil
  then show ?case by simp
next
  case (Cons e es)
  let ?e = "TrimSpace e"
  consider (skip) "?e = [] \<or> ?e \<in> set xs"
    | (bad) "?e \<noteq> []" "?e \<notin> set xs" "\<not> valid_entry ?e"
    | (add) "?e \<noteq> []" "?e \<notin> set xs" "valid_entry ?e"
    by blast
  then show ?case
  proof cases
    case skip
    with Cons.IH [OF Cons.prems] Cons.prems show ?thesis
      by (cases "?e = []") (auto simp: Let_def keep_first_dup)
  next
    case bad
    then have "\<exists>err. merge_sas_loop (e # es) seen (keep_first xs) = Inl err"
      using entry_form_iff [of ?e] Cons.prems by (auto simp: Let_def)
    with bad show ?thesis by auto
  next
    case add
    have "\<not> HasPrefix ?e sa_prefix" using add by (simp add: valid_entry_def)
    from entry_form_iff [OF this] add Cons.prems
    have "merge_sas_loop (e # es) seen (keep_first xs) =
        merge_sas_loop es (?e # seen) (keep_first (xs @ [?e]))"
      by (auto simp: Let_def keep_first_snoc valid_entry_def)
    with Cons.IH [of "?e # seen" "xs @ [?e]"] Cons.prems add show ?thesis
      by (auto simp del: merge_sas_loop.simps split: if_splits)
  qed
qed

lemma defaults_distinct: "distinct DefaultSystemControllerServiceAccounts"
  by (simp add: config_defs)

lemma mergeSystemControllerSAs_result:
  "if \<exists>e\<in>set (splitCSV csv). e \<notin> set DefaultSystemControllerServiceAccounts \<and> \<not> valid_entry e
   then \<exists>err. mergeSystemControllerSAs csv = Inl err
   else mergeSystemControllerSAs csv =
          Inr (keep_first (DefaultSystemControllerServiceAccounts @ splitCSV csv))"
proof -
  let ?D = DefaultSystemControllerServiceAccounts
  have "(\<exists>e\<in>set (splitCSV csv). e \<notin> set ?D \<and> \<not> valid_entry e) \<longleftrightarrow>
      (\<exists>e\<in>set (map TrimSpace (Split csv (CHR '',''))). e \<noteq> [] \<and> e \<notin> set ?D \<and> \<not> valid_entry e)"
    by (auto simp: splitCSV_eq)
  moreover have "keep_first ?D = ?D" using defaults_distinct by (rule keep_first_distinct)
  ultimately show ?thesis
    using merge_sas_loop_result [of ?D ?D "Split csv (CHR '','')"]
    unfolding mergeSystemControllerSAs_def splitCSV_eq by (auto split: if_splits)
qed

text \<open>Every accepted entry, built-in or supplied, recognises some identity.\<close>

lemma valid_entry_live:
  assumes "valid_entry e"
  shows "\<exists>u. IsSystemController u [e]"
proof (cases "HasPrefix e system_prefix")
  case True
  with assms have "IsSystemController \<lparr>Username = e, Groups = []\<rparr> [e]"
    by (simp add: IsSystemController_def valid_entry_def)
  then show ?thesis ..
next
  case False
  with assms obtain ns name where e: "e = ns @ '':'' @ name"
    and nc: "CHR '':'' \<notin> set ns" "CHR '':'' \<notin> set name"
    by (auto simp: valid_entry_def)
  let ?u = "\<lparr>Username = sa_username ns name, Groups = [sa_group]\<rparr>"
  have "ParseServiceAccount ?u = Some (ns, name)"
    using nc by (intro ParseServiceAccount_sa_username) simp_all
  with e False have "IsSystemController ?u [e]" by (auto simp: IsSystemController_iff)
  then show ?thesis ..
qed

lemma defaults_valid: "list_all valid_entry DefaultSystemControllerServiceAccounts"
proof -
  have sys: "valid_entry (''system:'' @ n)" if "\<not> prefix ''serviceaccount:'' n" for n
    using that by (simp add: valid_entry_def HasPrefix_def system_prefix_def sa_prefix_def)
  have short: "valid_entry (''kube-system'' @ '':'' @ n)" if "n \<noteq> []" "CHR '':'' \<notin> set n" for n
  proof -
    have "\<exists>ns name. ''kube-system'' @ '':'' @ n = ns @ '':'' @ name \<and> ns \<noteq> [] \<and> name \<noteq> [] \<and>
        CHR '':'' \<notin> set ns \<and> CHR '':'' \<notin> set name"
      by (rule exI [of _ "''kube-system''"], rule exI [of _ n]) (use that in simp)
    then show ?thesis
      unfolding valid_entry_def by (simp add: HasPrefix_def sa_prefix_def)
  qed
  show ?thesis
    using sys [of "''apiserver''"] sys [of "''kube-controller-manager''"]
      short [of "''generic-garbage-collector''"] short [of "''endpoint-controller''"]
      short [of "''endpointslice-controller''"] short [of "''endpointslicemirroring-controller''"]
      short [of "''ttl-after-finished-controller''"] short [of "''cronjob-controller''"]
    by (simp add: config_defs)
qed

lemma startup_Inr:
  assumes "startup env cl mgr = Inr (h, r)"
  shows "Client h \<noteq> None" and "NamespaceLabelValue h \<noteq> [] \<Longrightarrow> NamespaceLabel h \<noteq> []"
    and "rc_FailurePolicy r \<in> {''Ignore'', ''Fail''}"
    and "1 \<le> sint (rc_TimeoutSeconds r)" and "sint (rc_TimeoutSeconds r) \<le> 30"
    and "rc_WebhookNamespace r = FluxNamespace h"
    and "\<exists>csv. mergeSystemControllerSAs csv = Inr (SystemControllerSAs h)"
  using assms
  by (auto simp: startup_def Let_def parseFailurePolicy_def word_sless_alt
      split: sum.splits if_splits option.splits)

lemma startup_resync:
  "startup env cl mgr = Inr (h, r) \<Longrightarrow>
     \<exists>d. resyncIntervalDefault env = Inr d \<and> rc_ResyncInterval r = resync_interval cl d"
  by (auto simp: startup_def Let_def split: sum.splits if_splits option.splits)

lemma cached_owner_types:
  "ownerGVK managedBy = Some gvk \<Longrightarrow> CachedUnstructured gvk \<in> set CachedObjectTypes"
  by (auto simp: ownerGVK_def CachedObjectTypes_def List.map_filter_def split: if_splits)

lemma warm_loop_eq: "warm_loop get_informer objs = filter get_informer objs"
  by (induction objs) simp_all

text \<open>An explicit flag wins over the deprecated alias, which wins over the default.\<close>

lemma resync_interval_precedence:
  "resync_interval cl resyncDefault =
     (case fl_vwc_resync_interval cl of
        Some v \<Rightarrow> v
      | None \<Rightarrow> (case fl_discovery_interval cl of Some v \<Rightarrow> v | None \<Rightarrow> resyncDefault))"
  by (auto simp: resync_interval_def flag_value_def split: option.splits)

end
