(* ===== verification/Rules.thy ===== *)
theory Rules
  imports Drift
begin

section \<open>The rules of the handler\<close>

text \<open>
  When \<open>Handle\<close> allows a request in enforce mode, per operation and requester: the
  declarative reading of the decision procedure.
\<close>

definition allows :: "('s, 'k) deps \<Rightarrow> handler \<Rightarrow> request \<Rightarrow> world \<Rightarrow> bool" where
  "allows D h req w =
     (case Handle D h req w of None \<Rightarrow> False | Some (resp, w') \<Rightarrow> resp_Allowed resp)"

lemma allows_decision:
  assumes "in_scope h req w w1" and "extractRequestMetadata D req = Some (om, old)"
    and "IsManaged (request_fluxInfo req om old)" and "\<not> AuditOnly h"
  shows "allows D h req w \<longleftrightarrow>
     dr_allowed (fst (checkBypass D h req om old (request_fluxInfo req om old) w1))"
proof -
  let ?c = "checkBypass D h req om old (request_fluxInfo req om old) w1"
  have "answered_with D h req w (dr_reason (fst ?c))"
    using assms(1-3) by (rule answered_with_decision) (rule prod.collapse [symmetric])
  moreover have "decision_ok (fst ?c)" by (rule bypass.check_ok)
  ultimately show ?thesis
    using assms(4) by (auto simp: allows_def answered_with_def decision_ok_def split: option.splits)
qed

lemma allows_other:
  assumes "guarded_request D h req w = Some (om, old, w')" and "\<not> AuditOnly h"
  shows "allows D h req w \<longleftrightarrow>
     dr_allowed (fst (decide_other D h req om old (request_fluxInfo req om old) w'))"
proof -
  from assms(1) obtain w1 where w1: "in_scope h req w w1"
    "extractRequestMetadata D req = Some (om, old)"
    "IsManaged (request_fluxInfo req om old)"
    "isOwningFluxReconciler D h req (request_fluxInfo req om old) w1 = (False, w')"
    by (rule guarded_requestE)
  from allows_decision [OF w1(1-3) assms(2)] w1(4) show ?thesis by (simp add: checkBypass_split)
qed

subsection \<open>CREATE\<close>

text \<open>The entries of the owner's inventory, none when it cannot be read.\<close>

definition owner_entries ::
    "('s, 'k) deps \<Rightarrow> handler \<Rightarrow> flux_management_info \<Rightarrow> world \<Rightarrow> json list" where
  "owner_entries D h fi w =
     (case fst (getOwner h fi w) of
        None \<Rightarrow> []
      | Some owner \<Rightarrow>
          (case NestedSlice D owner [''status'', ''inventory'', ''entries''] of
             None \<Rightarrow> []
           | Some entries \<Rightarrow> entries))"

definition in_inventory :: "json list \<Rightarrow> string \<Rightarrow> bool" where
  "in_inventory entries objID =
     list_ex (\<lambda>e. case e of JObj entry \<Rightarrow> entry_id entry = objID | _ \<Rightarrow> False) entries"

lemma inventory_loop_in_inventory: "inventory_loop entries objID = in_inventory entries objID"
proof (induction entries)
  case Nil
  then show ?case by (simp add: in_inventory_def)
next
  case (Cons e entries)
  then show ?case by (cases e) (simp_all add: in_inventory_def)
qed

lemma ownerInventoryContains_entries:
  "fst (ownerInventoryContains D h req om fi w) =
     (in_inventory (owner_entries D h fi w) (request_inventory_id req om),
      owner_entries D h fi w \<noteq> [])"
  by (auto simp: ownerInventoryContains_def owner_entries_def inventory_lookup_def
      inventory_loop_in_inventory in_inventory_def split: option.splits prod.splits)

lemma decide_other_create:
  assumes "req_Operation req = Create"
  shows "decide_other D h req om old fi w = checkDerivedResourceCreate D h req om fi w"
  using assms
  by (simp add: decide_other_def checkBypassAnnotation_def checkReconcileDisabled_def
      operationDecision_def)

lemma checkDerivedResourceCreate_reason:
  "dr_reason (fst (checkDerivedResourceCreate D h req om fi w)) =
     (let entries = owner_entries D h fi w in
      if in_inventory entries (request_inventory_id req om) then ReasonDeniedCreateFluxLabels
      else if GetControllerOf D (om_OwnerReferences om) \<noteq> None then ReasonAllowedOwnedResource
      else if IsSystemController (req_UserInfo req) (SystemControllerSAs h)
      then ReasonAllowedSystemController
      else if entries \<noteq> [] then ReasonAllowedNotInOwnerInventory
      else ReasonDeniedCreateInventoryUnavail)"
proof -
  obtain w' where "ownerInventoryContains D h req om fi w =
      ((in_inventory (owner_entries D h fi w) (request_inventory_id req om),
        owner_entries D h fi w \<noteq> []), w')"
    using ownerInventoryContains_entries [of D h req om fi w] by (metis prod.collapse)
  moreover have "in_inventory [] x = False" for x by (simp add: in_inventory_def)
  ultimately show ?thesis
    by (auto simp: checkDerivedResourceCreate_def Let_def)
qed

text \<open>
  CREATE is allowed when the owner's inventory does not list the object, and either the object
  is derived (controlled, or made by a control-plane controller) or the inventory was read.
\<close>

definition create_rule ::
    "('s, 'k) deps \<Rightarrow> handler \<Rightarrow> request \<Rightarrow> object_meta \<Rightarrow> flux_management_info \<Rightarrow> world \<Rightarrow> bool" where
  "create_rule D h req om fi w =
     (let entries = owner_entries D h fi w in
      \<not> in_inventory entries (request_inventory_id req om) \<and>
      (GetControllerOf D (om_OwnerReferences om) \<noteq> None \<or>
       IsSystemController (req_UserInfo req) (SystemControllerSAs h) \<or> entries \<noteq> []))"

lemma create_allows:
  assumes "guarded_request D h req w = Some (om, old, w')" and "\<not> AuditOnly h"
    and "req_Operation req = Create"
  shows "allows D h req w \<longleftrightarrow> create_rule D h req om (request_fluxInfo req om old) w'"
proof -
  let ?fi = "request_fluxInfo req om old"
  have "decision_ok (fst (checkDerivedResourceCreate D h req om ?fi w'))"
    by (rule derived_create.check_ok)
  with allows_other [OF assms(1,2)] assms(3) show ?thesis
    by (auto simp: decide_other_create decision_ok_def checkDerivedResourceCreate_reason
        create_rule_def Let_def)
qed

subsection \<open>DELETE\<close>

text \<open>The deletions nobody has to justify: the object is exempt, or going away anyway.\<close>

definition delete_exempt ::
    "handler \<Rightarrow> request \<Rightarrow> object_meta \<Rightarrow> flux_management_info \<Rightarrow> world \<Rightarrow> bool" where
  "delete_exempt h req om fi w =
     (old_exempt om fi \<or> IsBeingDeleted om \<or> fst (namespaceIsTerminating h (req_Namespace req) w))"

lemma decide_other_delete:
  assumes "req_Operation req = Delete"
  shows "dr_allowed (fst (decide_other D h req om old fi w)) \<longleftrightarrow>
     delete_exempt h req om fi w \<or> dr_allowed (checkDeleteManaged D h req om fi)"
  using assms
  by (auto simp: decide_other_def checkBypassAnnotation_def checkReconcileDisabled_def
      delete_exempt_def old_exempt_def operationDecision_def split: prod.splits bool.splits)

text \<open>
  Otherwise DELETE is for objects without a field Flux applied, and for the control plane; an
  unreadable managed-fields entry forbids it.
\<close>

definition delete_rule ::
    "('s, 'k) deps \<Rightarrow> ('s \<Rightarrow> 'k field_path set) \<Rightarrow> handler \<Rightarrow> request \<Rightarrow> object_meta \<Rightarrow>
       flux_management_info \<Rightarrow> world \<Rightarrow> bool" where
  "delete_rule D members h req om fi w =
     (delete_exempt h req om fi w \<or>
      (case FluxManagedFields D (om_ManagedFields om) of
         None \<Rightarrow> False
       | Some F \<Rightarrow>
           members F = {} \<or> IsSystemController (req_UserInfo req) (SystemControllerSAs h)))"

context fieldpath_set
begin

text \<open>Whether an object carries a field Flux applied; no answer when an entry is unreadable.\<close>

lemma FluxManagedFields_members:
  "FluxManagedFields D mfs = Some F \<Longrightarrow>
     members F = {p. \<exists>mf\<in>set mfs. flux_entry mf \<and>
       (\<exists>raw fieldSet. mf_FieldsV1 mf = Some raw \<and> fs_FromJSON D raw = Some fieldSet \<and>
          p \<in> members fieldSet)}"
  unfolding FluxManagedFields_def
  by (drule flux_fields_loop_Some) (simp add: members_NewSet)

end

context deps_fieldset
begin

lemma checkDeleteManaged_allowed:
  "dr_allowed (checkDeleteManaged D h req om fi) \<longleftrightarrow>
     (\<exists>F. FluxManagedFields D (om_ManagedFields om) = Some F \<and>
        (members F = {} \<or> IsSystemController (req_UserInfo req) (SystemControllerSAs h)))"
  by (auto simp: checkDeleteManaged_def Empty_iff split: option.splits)

lemma delete_allows:
  assumes "guarded_request D h req w = Some (om, old, w')" and "\<not> AuditOnly h"
    and "req_Operation req = Delete"
  shows "allows D h req w \<longleftrightarrow>
     delete_rule D members h req om (request_fluxInfo req om old) w'"
  using allows_other [OF assms(1,2)] assms(3)
  by (auto simp: decide_other_delete checkDeleteManaged_allowed delete_rule_def split: option.splits)

end

subsection \<open>UPDATE\<close>

text \<open>
  UPDATE is allowed on an exempt object, on one without a field Flux applied, and when it adds
  no protection-disabling annotation, both objects parse and the field rule holds.
\<close>

definition update_rule ::
    "('s, 'k) deps \<Rightarrow> ('s \<Rightarrow> 'k field_path set) \<Rightarrow> handler \<Rightarrow> request \<Rightarrow> object_meta \<Rightarrow>
       object_meta \<Rightarrow> flux_management_info \<Rightarrow> world \<Rightarrow> bool" where
  "update_rule D members h req om old fi w =
     (old_exempt old fi \<or>
      (case FluxManagedFields D (om_ManagedFields old) of
         None \<Rightarrow> False
       | Some F \<Rightarrow>
           members F = {} \<or>
           \<not> snd (protectionDisablingAnnotationAdded (om_Annotations old) (om_Annotations om)) \<and>
           (case (unmarshal_object D (req_OldObject req), unmarshal_object D (req_Object req)) of
              (Some oldObj, Some newObj) \<Rightarrow>
                field_rule (modified_paths oldObj newObj) (members F)
                  (map_option members (FluxManagedFields D (om_ManagedFields om)))
                  (members (update_ignore_set D h req old fi w))
            | _ \<Rightarrow> False)))"

context object_decoding
begin

lemma update_allows:
  assumes "guarded_request D h req w = Some (om, old, w')" and "\<not> AuditOnly h"
    and "req_Operation req = Update"
  shows "allows D h req w \<longleftrightarrow>
     update_rule D members h req om old (request_fluxInfo req om old) w'"
proof (cases "FluxManagedFields D (om_ManagedFields old)")
  case None
  with allows_other [OF assms(1,2)] assms(3) show ?thesis
    by (simp add: decide_other_update checkUpdateFieldConflict_def update_rule_def)
next
  case (Some F)
  with allows_other [OF assms(1,2)] assms(3) update_field_rule [OF Some] show ?thesis
    by (auto simp: decide_other_update update_rule_def split: option.splits)
qed

text \<open>A change at, above or below a field Flux applied, which no ignore rule covers, is denied.\<close>

lemma drift_not_allowed:
  assumes "guarded_request D h req w = Some (om, old, w')" and "\<not> AuditOnly h"
    and "req_Operation req = Update" and "\<not> old_exempt old (request_fluxInfo req om old)"
    and F: "FluxManagedFields D (om_ManagedFields old) = Some F" and p: "p \<in> members F"
    and objs: "unmarshal_object D (req_OldObject req) = Some oldObj"
      "unmarshal_object D (req_Object req) = Some newObj"
    and ks: "(names ks :: 'k field_path) \<in> modified_paths oldObj newObj" and cmp: "comparable p (names ks)"
    and unignored: "\<And>q. q \<in> {p, names ks} \<Longrightarrow>
      \<not> covered (members (update_ignore_set D h req old (request_fluxInfo req om old) w')) q"
  shows "\<not> allows D h req w"
proof -
  let ?T = "touched (modified_paths oldObj newObj) (members F)" and ?ks = "names ks :: 'k field_path"
  have "p \<in> ?T \<or> ?ks \<in> ?T"
    using p ks cmp by (auto simp: touched_def covered_def comparable_def)
  then obtain q where q: "q \<in> {p, ?ks}" "q \<in> ?T" by blast
  let ?I = "members (update_ignore_set D h req old (request_fluxInfo req om old) w')"
  from q(1) have "\<not> covered ?I q" by (rule unignored)
  moreover from q(2) have "?T \<noteq> {}" by blast
  ultimately have "\<not> field_rule (modified_paths oldObj newObj) (members F) F' ?I" for F'
    using q(2) by (auto simp: field_rule_def Let_def split: option.splits)
  with update_allows [OF assms(1-3)] assms(4) F p objs show ?thesis
    by (auto simp: update_rule_def)
qed

end

subsection \<open>The owning reconciler\<close>

lemma owner_allows:
  assumes "in_scope h req w w1" and "extractRequestMetadata D req = Some (om, old)"
    and "IsManaged (request_fluxInfo req om old)"
    and "isOwningFluxReconciler D h req (request_fluxInfo req om old) w1 = (True, w2)"
    and "\<not> AuditOnly h"
  shows "allows D h req w \<longleftrightarrow>
     isOwningController (req_Operation req) (om_Labels om) (om_Labels old)"
  using allows_decision [OF assms(1-3,5)] assms(4)
  by (simp add: checkBypass_split checkFluxOwnership_def)

end
