(* ===== verification/Admission.thy ===== *)
theory Admission
  imports Startup Rules
begin

section \<open>From the write to the answer: the API server, the configuration and the handler\<close>

text \<open>
  The configuration the controller applies decides which writes reach the handler, the handler
  decides those, and the failure policy decides when there is no answer.  This theory puts the
  three together: a write as the API server sees it, the calls of the matching webhook
  entries, and the invariant of objects under protection across the whole chain.
\<close>

subsection \<open>Definitions\<close>

text \<open>
  The write the API server matches against the configuration.  Every namespace carries its name
  as a label, the only one the namespace selector reads; a cluster-scoped object has none, save
  a namespace, which is matched by its own labels.
\<close>

definition decoded_labels :: "('s, 'k) deps \<Rightarrow> string \<Rightarrow> string_map" where
  "decoded_labels D raw =
     (case extractMetadata D raw of None \<Rightarrow> Map.empty | Some om \<Rightarrow> om_Labels om)"

definition server_view :: "('s, 'k) deps \<Rightarrow> request \<Rightarrow> api_write" where
  "server_view D req =
     \<lparr>aw_Operation = req_Operation req,
      aw_Group = gvr_Group (req_Resource req),
      aw_Version = gvr_Version (req_Resource req),
      aw_SubResource = req_SubResource req,
      aw_Namespaced =
        (req_Namespace req \<noteq> [] \<and>
         \<not> (gvr_Group (req_Resource req) = [] \<and> gvr_Resource (req_Resource req) = ''namespaces'')),
      aw_NamespaceLabels =
        (if req_Namespace req = [] then Map.empty
         else [''kubernetes.io/metadata.name'' \<mapsto> req_Namespace req]),
      aw_Labels = decoded_labels D (req_Object req),
      aw_OldLabels = decoded_labels D (req_OldObject req)\<rparr>"

text \<open>
  The entries that match are called; a refusal is final, and an entry whose call gets no answer
  is skipped or refuses as its failure policy says.
\<close>

fun call_entries ::
    "api_server \<Rightarrow> bool \<Rightarrow> ('s, 'k) deps \<Rightarrow> handler \<Rightarrow> request \<Rightarrow> validating_webhook list \<Rightarrow>
       world \<Rightarrow> bool \<times> world" where
  "call_entries S reachable D h req [] w = (True, w)"
| "call_entries S reachable D h req (vw # vws) w =
     (if \<not> as_calls S vw (server_view D req) then call_entries S reachable D h req vws w
      else
        (case (if reachable then Handle D h req w else None) of
           None \<Rightarrow>
             if vw_FailurePolicy vw = ''Ignore'' then call_entries S reachable D h req vws w
             else (False, w)
         | Some (resp, w') \<Rightarrow>
             if resp_Allowed resp then call_entries S reachable D h req vws w'
             else (False, w')))"

definition server_admits ::
    "api_server \<Rightarrow> bool \<Rightarrow> ('s, 'k) deps \<Rightarrow> handler \<Rightarrow> webhook_config_reconciler \<Rightarrow> request \<Rightarrow>
       world \<Rightarrow> bool" where
  "server_admits S reachable D h r req w =
     fst (call_entries S reachable D h req (vwc_Webhooks (desired_configuration r)) w)"

text \<open>
  An update from a requester that is not the reconciler of \<open>fi\<close>, on a main resource outside the
  excluded groups and namespaces, which leaves an object of a HelmRelease unclaimed and for
  which the ignore rules consulted do not touch \<open>P\<close>.
\<close>

definition foreign_update ::
    "('s, 'k) deps \<Rightarrow> ('s \<Rightarrow> 'k field_path set) \<Rightarrow> handler \<Rightarrow> webhook_config_reconciler \<Rightarrow>
       flux_management_info \<Rightarrow> 'k field_path set \<Rightarrow> request \<Rightarrow> world \<Rightarrow> bool" where
  "foreign_update D members h r fi P req w =
     (req_Operation req = Update \<and> req_SubResource req = [] \<and>
      gvr_Group (req_Resource req) \<notin> set ExcludedGroups \<and>
      req_Namespace req \<notin> set (ExcludedNamespaces @ excludedNamespaces r) \<and>
      \<not> fst (isOwningFluxReconciler D h req fi w) \<and>
      (case extractRequestMetadata D req of
         None \<Rightarrow> True
       | Some (om, old) \<Rightarrow>
           let fi' = request_fluxInfo req om old in
           unclaimed fi (om_Labels om) \<and>
           disjoint_paths P
             (members (update_ignore_set D h req old fi'
                (snd (isOwningFluxReconciler D h req fi' w))))))"

text \<open>
  A deletion from such a requester, on such a resource.  It is excused when the requester belongs
  to the control plane, or when the object is going away already, with its namespace or by
  itself: these the handler lets through.
\<close>

definition foreign_delete ::
    "('s, 'k) deps \<Rightarrow> handler \<Rightarrow> webhook_config_reconciler \<Rightarrow> flux_management_info \<Rightarrow>
       request \<Rightarrow> world \<Rightarrow> bool" where
  "foreign_delete D h r fi req w =
     (req_Operation req = Delete \<and> req_SubResource req = [] \<and>
      gvr_Group (req_Resource req) \<notin> set ExcludedGroups \<and>
      req_Namespace req \<notin> set (ExcludedNamespaces @ excludedNamespaces r) \<and>
      \<not> fst (isOwningFluxReconciler D h req fi w))"

definition excused_delete ::
    "('s, 'k) deps \<Rightarrow> handler \<Rightarrow> flux_management_info \<Rightarrow> request \<Rightarrow> world \<Rightarrow> bool" where
  "excused_delete D h fi req w =
     (req_Operation req = Delete \<and>
      (IsSystemController (req_UserInfo req) (SystemControllerSAs h) \<or>
       fst (namespaceIsTerminating h (req_Namespace req)
         (snd (isOwningFluxReconciler D h req fi w))) \<or>
       (case extractMetadata D (req_OldObject req) of
          None \<Rightarrow> False
        | Some om \<Rightarrow> IsBeingDeleted om)))"

text \<open>Whatever somebody else may do: create the object while it is absent, update or delete it.\<close>

definition foreign_write ::
    "('s, 'k) deps \<Rightarrow> ('s \<Rightarrow> 'k field_path set) \<Rightarrow> handler \<Rightarrow> webhook_config_reconciler \<Rightarrow>
       flux_management_info \<Rightarrow> 'k field_path set \<Rightarrow> request \<Rightarrow> world \<Rightarrow> bool" where
  "foreign_write D members h r fi P req w =
     (req_Operation req = Create \<or> foreign_update D members h r fi P req w \<or>
      foreign_delete D h r fi req w)"

text \<open>A write that fits the stored object, \<^const>\<open>None\<close> when there is none, and what it leaves behind.\<close>

definition fits :: "request \<Rightarrow> string option \<Rightarrow> bool" where
  "fits req stored =
     (if req_Operation req = Create then stored = None
      else req_Operation req \<in> {Update, Delete} \<and> stored = Some (req_OldObject req))"

definition written :: "request \<Rightarrow> string option" where
  "written req = (if req_Operation req = Delete then None else Some (req_Object req))"

subsection \<open>Which entries are called\<close>

text \<open>The first entry that matches is called in the world of the write.\<close>

lemma refused_by_matching_entry:
  assumes "list_ex (\<lambda>vw. as_calls S vw (server_view D req)) vws"
    and "\<not> allows D h req w" and "Handle D h req w \<noteq> None"
    and "reachable \<or> (\<forall>vw\<in>set vws. vw_FailurePolicy vw \<noteq> ''Ignore'')"
  shows "\<not> fst (call_entries S reachable D h req vws w)"
  using assms by (induction vws) (auto simp: allows_def split: option.splits prod.splits)

lemma entry_policy:
  "vw_FailurePolicy (buildWebhookEntry r name labelKey rules) =
     (if rc_FailurePolicy r = [] then ''Ignore'' else rc_FailurePolicy r)"
  by (simp add: buildWebhookEntry_def Let_def)

text \<open>Without a namespace label filter, every such request is in the handler's scope.\<close>

lemma in_scope_unfiltered:
  "NamespaceLabel h = [] \<Longrightarrow> req_SubResource req = [] \<Longrightarrow>
     gvr_Group (req_Resource req) \<notin> set ExcludedGroups \<Longrightarrow>
     req_Namespace req \<notin> set ExcludedNamespaces \<Longrightarrow> in_scope h req w w"
  by (simp add: in_scope_iff checkNamespaceScope_def shouldProcessNamespace_def)

subsection \<open>The protection holds across the chain\<close>

text \<open>What a started handler in enforce mode, with an answer or failure policy \<open>Fail\<close>, is.\<close>

definition enforcing :: "bool \<Rightarrow> handler \<Rightarrow> webhook_config_reconciler \<Rightarrow> bool" where
  "enforcing reachable h r =
     (\<not> AuditOnly h \<and> NamespaceLabel h = [] \<and> Client h \<noteq> None \<and>
      (reachable \<or> rc_FailurePolicy r = ''Fail''))"

lemma admitted_is_allowed:
  assumes api: "api_dispatch S" and mode: "enforcing reachable h r"
    and req: "req_Operation req \<in> {Update, Delete}" "req_SubResource req = []"
      "gvr_Group (req_Resource req) \<notin> set ExcludedGroups"
      "req_Namespace req \<notin> set (ExcludedNamespaces @ excludedNamespaces r)"
    and label: "IsManaged (GetFluxManagementInfo (decoded_labels D (req_OldObject req)))"
    and admits: "server_admits S reachable D h r req w"
  shows "allows D h req w" and "in_scope h req w w"
proof -
  let ?vws = "vwc_Webhooks (desired_configuration r)"
  have "\<exists>vw\<in>set ?vws. as_calls S vw (server_view D req)"
    using req label
    unfolding api_dispatch.calls_desired_iff [OF api] by (auto simp: server_view_def)
  then have called: "list_ex (\<lambda>vw. as_calls S vw (server_view D req)) ?vws"
    by (simp only: list_ex_iff)
  have run: "Handle D h req w \<noteq> None"
    using mode checkNamespaceScope_None_iff [of h req w]
    by (auto simp: Handle_None_iff enforcing_def)
  have "reachable \<or> (\<forall>vw\<in>set ?vws. vw_FailurePolicy vw \<noteq> ''Ignore'')"
    using mode by (auto simp: enforcing_def desired_configuration_def Let_def entry_policy)
  from refused_by_matching_entry [OF called _ run this] admits
  show "allows D h req w" unfolding server_admits_def by blast
  show "in_scope h req w w"
    using mode req by (intro in_scope_unfiltered) (auto simp: enforcing_def)
qed

context object_decoding
begin

lemma protected_object_managed:
  assumes "protected_object D members fi P raw" and "flux_owner fi"
  obtains om where "extractMetadata D raw = Some om" "GetFluxManagementInfo (om_Labels om) = fi"
    "IsManaged (GetFluxManagementInfo (decoded_labels D raw))"
proof -
  obtain om where om: "extractMetadata D raw = Some om"
    using assms(1) by (auto simp: protected_object_def split: option.splits)
  with assms have "GetFluxManagementInfo (om_Labels om) = fi"
    by (intro protected_object_owner)
  with om assms(2) that show thesis by (auto simp: decoded_labels_def flux_owner_def)
qed

lemma admitted_update_is_handled:
  assumes "api_dispatch S" and mode: "enforcing reachable h r"
    and foreign: "foreign_update D members h r fi P req w"
    and "server_admits S reachable D h r req w"
    and "IsManaged (GetFluxManagementInfo (decoded_labels D (req_OldObject req)))"
  shows "admitted_update D members h fi P req w"
proof -
  note req = foreign [unfolded foreign_update_def]
  have ok: "allows D h req w" "in_scope h req w w"
    using admitted_is_allowed [OF assms(1,2) _ _ _ _ assms(5,4)] req by auto
  then have "extractRequestMetadata D req \<noteq> None"
    using answered_with_metadata_error [OF ok(2), of D] mode
      allow_not_deny [of ReasonDeniedMetadataError]
    by (intro notI, cases "Handle D h req w")
      (auto simp: answered_with_def allows_def enforcing_def)
  with ok req mode show ?thesis
    by (auto simp: admitted_update_def allows_def enforcing_def Let_def split: option.splits)
qed

lemma foreign_delete_refused:
  assumes "api_dispatch S" and mode: "enforcing reachable h r"
    and foreign: "foreign_delete D h r fi req w"
    and unexcused: "\<not> excused_delete D h fi req w"
    and admits: "server_admits S reachable D h r req w"
    and law: "protection_law fi P"
    and prot: "protected_object D members fi P (req_OldObject req)"
  shows False
proof -
  note req = foreign [unfolded foreign_delete_def]
  have owner: "flux_owner fi" using law by (simp add: protection_law_def)
  obtain om where om: "extractMetadata D (req_OldObject req) = Some om"
    and info: "GetFluxManagementInfo (om_Labels om) = fi"
    and managed: "IsManaged (GetFluxManagementInfo (decoded_labels D (req_OldObject req)))"
    using prot owner by (rule protected_object_managed)
  from prot om obtain F where F: "FluxManagedFields D (om_ManagedFields om) = Some F"
    and PF: "P \<subseteq> members F" and active: "protection_active (om_Annotations om)"
    by (rule protected_objectD)
  have ok: "allows D h req w" "in_scope h req w w"
    using admitted_is_allowed [OF assms(1,2) _ _ _ _ managed admits] req by auto
  have ext: "extractRequestMetadata D req = Some (om, zero_object_meta)"
    using req om by (simp add: extractRequestMetadata_def)
  let ?fi = "request_fluxInfo req om zero_object_meta"
  have fi: "?fi = fi"
    using info owner by (simp add: request_fluxInfo_def Let_def flux_owner_def)
  obtain w2 where own: "isOwningFluxReconciler D h req fi w = (False, w2)"
    using req by (cases "isOwningFluxReconciler D h req fi w") auto
  have "guarded_request D h req w = Some (om, zero_object_meta, w2)"
    using ok(2) ext own fi owner by (simp add: guarded_request_def flux_owner_def)
  moreover have "\<not> delete_rule D members h req om ?fi w2"
    using req unexcused own om active F PF shields_nonempty [OF law]
    by (auto simp: excused_delete_def delete_rule_def delete_exempt_def old_exempt_def protection_active_def)
  moreover have "req_Operation req = Delete" "\<not> AuditOnly h"
    using req mode by (simp_all add: enforcing_def)
  ultimately show False using delete_allows ok(1) by blast
qed

text \<open>One write: the object stays, under protection, with the values below \<open>P\<close>.\<close>

lemma foreign_write_protects:
  assumes foreign: "foreign_write D members h r fi P req w" and fits: "fits req (Some raw)"
    and "server_admits S reachable D h r req w" and unexcused: "\<not> excused_delete D h fi req w"
    and api: "api_dispatch S" and mode: "enforcing reachable h r"
    and law: "protection_law fi P" and prot: "protected_object D members fi P raw"
  shows "\<exists>raw'. written req = Some raw' \<and> protected_object D members fi P raw' \<and> agrees D P raw raw'"
proof -
  have raw: "raw = req_OldObject req" and op: "req_Operation req \<noteq> Create"
    using fits by (auto simp: fits_def split: if_splits)
  show ?thesis
  proof (cases "foreign_update D members h r fi P req w")
    case True
    have "flux_owner fi" using law by (simp add: protection_law_def)
    with prot have "IsManaged (GetFluxManagementInfo (decoded_labels D (req_OldObject req)))"
      unfolding raw by (auto elim: protected_object_managed)
    with api mode True assms(3) have adm: "admitted_update D members h fi P req w"
      by (rule admitted_update_is_handled)
    have "req_Operation req \<noteq> Delete" using True by (simp add: foreign_update_def)
    with admitted_update_protects [OF adm law] prot show ?thesis by (simp add: raw written_def)
  next
    case False
    with foreign op have "foreign_delete D h r fi req w" by (simp add: foreign_write_def)
    from foreign_delete_refused [OF api mode this unexcused assms(3) law] prot
    show ?thesis by (simp add: raw)
  qed
qed

end

text \<open>What start-up fixes: the mode, the filter and the client of the handler.\<close>

lemma startup_handler:
  assumes "startup env cl mgr = Inr (h, r)"
  shows "AuditOnly h = flag_value (fl_audit_only cl) False"
    and "NamespaceLabel h = flag_value (fl_namespace_label cl) []"
    and "FluxNamespace h = flag_value (fl_flux_namespace cl) (getEnv env ''FLUX_NAMESPACE'' FluxNamespaceDefault)"
    and "rc_FailurePolicy r = flag_value (fl_failure_policy cl) (getEnv env ''FAILURE_POLICY'' ''Ignore'')"
    and "rc_WebhookPath r = WebhookPath"
  using assms
  by (auto simp: startup_def Let_def parseFailurePolicy_def
      split: sum.splits if_splits option.splits)

lemma started_enforcing:
  assumes "startup env cl mgr = Inr (h, r)" and "fl_audit_only cl \<noteq> Some True"
    and "flag_value (fl_namespace_label cl) [] = []"
    and "reachable \<or> rc_FailurePolicy r = ''Fail''"
  shows "enforcing reachable h r"
  using assms(2-4) startup_Inr(1) [OF assms(1)] startup_handler(1,2) [OF assms(1)]
  by (auto simp: enforcing_def flag_value_def split: option.splits)

subsection \<open>The two filters together\<close>

text \<open>A write on an object that carries an ownership label before or after it.\<close>

definition managed_write :: "('s, 'k) deps \<Rightarrow> request \<Rightarrow> bool" where
  "managed_write D req =
     (IsManaged (GetFluxManagementInfo (decoded_labels D (req_Object req))) \<or>
      IsManaged (GetFluxManagementInfo (decoded_labels D (req_OldObject req))))"

definition called :: "api_server \<Rightarrow> ('s, 'k) deps \<Rightarrow> webhook_config_reconciler \<Rightarrow> request \<Rightarrow> bool" where
  "called S D r req =
     (\<exists>vw\<in>set (vwc_Webhooks (desired_configuration r)). as_calls S vw (server_view D req))"

lemma called_iff:
  assumes "api_dispatch S"
  shows "called S D r req \<longleftrightarrow>
     req_Operation req \<in> {Create, Update, Delete} \<and> req_SubResource req = [] \<and>
     gvr_Group (req_Resource req) \<notin> set ExcludedGroups \<and>
     (req_Namespace req = [] \<or> req_Namespace req \<notin> set (excludedNamespaces r)) \<and>
     managed_write D req"
  unfolding called_def managed_write_def api_dispatch.calls_desired_iff [OF assms]
  by (auto simp: server_view_def)

lemma in_scope_unfiltered_iff:
  assumes "NamespaceLabel h = []"
  shows "in_scope h req w w \<longleftrightarrow>
     req_SubResource req = [] \<and> gvr_Group (req_Resource req) \<notin> set ExcludedGroups \<and>
     (req_Namespace req = [] \<or> req_Namespace req \<notin> set ExcludedNamespaces)"
  using assms by (auto simp: in_scope_iff checkNamespaceScope_def shouldProcessNamespace_def Let_def
      split: if_splits)

lemma filters_agree:
  assumes "api_dispatch S" and "startup env cl mgr = Inr (h, r)" and "NamespaceLabel h = []"
  shows "called S D r req \<and> in_scope h req w w \<longleftrightarrow>
     req_Operation req \<in> {Create, Update, Delete} \<and> req_SubResource req = [] \<and>
     gvr_Group (req_Resource req) \<notin> set ExcludedGroups \<and>
     (req_Namespace req = [] \<or>
      req_Namespace req \<notin> {''kube-system'', ''kube-public'', ''kube-node-lease'', ''flux-system'',
        FluxNamespace h} \<union> set (rc_ExtraExcludedNamespaces r)) \<and>
     managed_write D req"
    and "called S D r req \<Longrightarrow>
     in_scope h req w w \<or> req_Namespace req = ''flux-system'' \<and> FluxNamespace h \<noteq> ''flux-system''"
  using startup_Inr(6) [OF assms(2)]
  by (auto simp: called_iff [OF assms(1)] in_scope_unfiltered_iff [OF assms(3)]
      set_excludedNamespaces ExcludedNamespaces_def)

text \<open>
  The handler skips \<open>flux-system\<close> whatever the Flux namespace is set to; the configuration
  excludes the namespace that is set.
\<close>

lemma default_flux_namespace_skipped:
  assumes "req_Namespace req = FluxNamespaceDefault"
    and "Handle D h req w = Some (resp, w')"
  shows "resp_Allowed resp"
proof -
  have "shouldProcessNamespace h (req_Namespace req) w = Some ((False, False), w)"
    by (simp add: shouldProcessNamespace_def assms(1) FluxNamespaceDefault_def ExcludedNamespaces_def)
  then show ?thesis
    using assms(2)
    by (auto simp: Handle_def checkNamespaceScope_def admission_Allowed_def Let_def
        split: if_splits)
qed

end
