(* ===== verification/Process.thy ===== *)
theory Process
  imports Startup
begin

section \<open>The process: \<open>main\<close> to its end, and readiness (\<open>cmd/webhook/main.go\<close>)\<close>

text \<open>
  \<open>main\<close> as a whole: the manager it creates, what it registers with it and in which order, its
  exit code; then the running manager, whose readiness probe answers from the checks that were
  registered.  controller-runtime is a parameter: \<open>manager\<close> holds what its calls return, and
  the steps of the running manager follow its documented order, which the comments of the code
  quote.
\<close>

subsection \<open>Definitions\<close>

text \<open>
  The API types \<open>init\<close> registers with the scheme, by their package, errors ignored, and the
  handlers of the metrics server.
\<close>

datatype scheme_types = ClientGoScheme | AdmissionRegistrationV1

definition scheme :: "scheme_types list" where
  "scheme = [ClientGoScheme, AdmissionRegistrationV1]"

datatype extra_handlers = NoHandlers | PprofHandlers

record 'o manager_options =
  mo_Scheme :: "scheme_types list"
  mo_QPS :: float32
  mo_Burst :: int
  mo_UnstructuredFromCache :: bool
  mo_Cache :: "'o cache_options"
  mo_MetricsBindAddress :: string
  mo_MetricsExtraHandlers :: extra_handlers
  mo_HealthProbeBindAddress :: string
  mo_WebhookPort :: int
  mo_CertDir :: string
  mo_LeaderElection :: leader_election_options
  mo_LeaderElectionID :: string
  mo_LeaderElectionNamespace :: string

text \<open>The configuration of the client and the manager that the flags select.\<close>

definition manager_options_of ::
    "'o cache_options \<Rightarrow> environment \<Rightarrow> command_line \<Rightarrow> 'o manager_options" where
  "manager_options_of cacheOptions env cl =
     \<lparr>mo_Scheme = scheme,
      mo_QPS = flag_value (fl_kube_api_qps cl) (50, 0),
      mo_Burst = flag_value (fl_kube_api_burst cl) 300,
      mo_UnstructuredFromCache = True,
      mo_Cache = cacheOptions,
      mo_MetricsBindAddress = flag_value (fl_metrics_bind_addr cl) '':8080'',
      mo_MetricsExtraHandlers = PprofHandlers,
      mo_HealthProbeBindAddress = flag_value (fl_health_probe_bind_addr cl) '':8081'',
      mo_WebhookPort = flag_value (fl_webhook_port cl) DefaultWebhookPort,
      mo_CertDir = flag_value (fl_cert_dir cl) DefaultCertDir,
      mo_LeaderElection = fl_leader_election cl,
      mo_LeaderElectionID = ''flux-drift-webhook-leader'',
      mo_LeaderElectionNamespace =
        flag_value (fl_flux_namespace cl) (getEnv env ''FLUX_NAMESPACE'' FluxNamespaceDefault)\<rparr>"

text \<open>
  What the calls on the manager return, \<^const>\<open>None\<close> for success, and the metric names that
  controller-runtime's registry already holds.
\<close>

record manager =
  mg_Client :: client
  mg_Registry :: "string list"
  mg_NewRecorder :: "string option"
  mg_SetupController :: "webhook_config_reconciler \<Rightarrow> string option"
  mg_AddReadyzCheck :: "string \<Rightarrow> string option"
  mg_Add :: "string option"
  mg_GetInformer :: "cached_object \<Rightarrow> bool"
  mg_Start :: "string option"

datatype 'o main_action =
    NewManager "'o manager_options"
  | RegisterWebhook string handler
  | NewRecorder string string
  | SetupController webhook_config_reconciler
  | SetupChecks
  | AddReadyzCheck string
  | AddRunnable cachesSynced
  | RegisterInformer cached_object
  | StartManager

text \<open>From the registration of the handler on: the exit code and the calls made.\<close>

definition setup_and_start ::
    "manager \<Rightarrow> handler \<Rightarrow> webhook_config_reconciler \<Rightarrow> 'o main_action list \<Rightarrow>
       int \<times> 'o main_action list" where
  "setup_and_start mgr h r acts =
     (let acts = acts @ [RegisterWebhook WebhookPath h, NewRecorder [] ''flux-drift-webhook''] in
      if mg_NewRecorder mgr \<noteq> None then (1, acts)
      else
        let acts = acts @ [SetupController r] in
        if mg_SetupController mgr r \<noteq> None then (1, acts)
        else
          let acts = acts @ [SetupChecks, AddReadyzCheck ''webhook-server''] in
          if mg_AddReadyzCheck mgr ''webhook-server'' \<noteq> None then (1, acts)
          else
            let synced = cachesSynced_new; acts = acts @ [AddRunnable synced] in
            if mg_Add mgr \<noteq> None then (1, acts)
            else
              let acts = acts @ [AddReadyzCheck ''cache-sync''] in
              if mg_AddReadyzCheck mgr ''cache-sync'' \<noteq> None then (1, acts)
              else
                let acts = acts @ map RegisterInformer (warmInformerCaches (mg_GetInformer mgr));
                    acts = acts @ [StartManager]
                in if mg_Start mgr \<noteq> None then (1, acts) else (0, acts))"

text \<open>
  The whole of \<open>main\<close>.  \<open>newManager\<close> is \<^const>\<open>None\<close> when there is no client configuration or no
  manager; the metrics are registered before the allow-list is merged, and a name that is
  taken panics, which is exit code 2.
\<close>

definition main ::
    "'o cache_options \<Rightarrow> ('o manager_options \<Rightarrow> manager option) \<Rightarrow> environment \<Rightarrow> command_line \<Rightarrow>
       int \<times> 'o main_action list" where
  "main cacheOptions newManager env cl =
     (let options = manager_options_of cacheOptions env cl;
          mgr = newManager options;
          metricsPanic = (case mgr of None \<Rightarrow> False | Some m \<Rightarrow> NewMetrics (mg_Registry m) = None)
      in
      case startup env cl (map_option mg_Client mgr) of
        Inl err \<Rightarrow>
          (case err of
             ManagerFailed \<Rightarrow> (1, [NewManager options])
           | InvalidSystemControllerSAs e \<Rightarrow>
               (if metricsPanic then 2 else 1, [NewManager options])
           | _ \<Rightarrow> (1, []))
      | Inr (h, r) \<Rightarrow>
          (case mgr of
             None \<Rightarrow> (1, [NewManager options])
           | Some mgr \<Rightarrow>
               if metricsPanic then (2, [NewManager options])
               else setup_and_start mgr h r [NewManager options]))"

text \<open>
  The running manager: whether the TLS listener is up, the informer caches have completed their
  first sync, the runnable has been started and the replica leads, and the channel of
  \<open>cachesSynced\<close>.
\<close>

record process =
  pr_listening :: bool
  pr_cachesSynced :: bool
  pr_synced :: cachesSynced
  pr_started :: bool
  pr_leader :: bool

definition process_start :: process where
  "process_start =
     \<lparr>pr_listening = False, pr_cachesSynced = False, pr_synced = cachesSynced_new,
      pr_started = False, pr_leader = False\<rparr>"

text \<open>
  The listener and the caches come up independently; a runnable is started once, after the
  caches, and if it needs leader election only on the leader.
\<close>

inductive manager_step :: "'o main_action list \<Rightarrow> process \<Rightarrow> process \<Rightarrow> bool" for acts where
  listen: "manager_step acts p (p\<lparr>pr_listening := True\<rparr>)"
| sync: "manager_step acts p (p\<lparr>pr_cachesSynced := True\<rparr>)"
| start: "AddRunnable c \<in> set acts \<Longrightarrow> pr_cachesSynced p \<Longrightarrow> \<not> pr_started p \<Longrightarrow>
     cachesSynced_NeedLeaderElection c \<longrightarrow> pr_leader p \<Longrightarrow>
     cachesSynced_Start (pr_synced p) = Some c' \<Longrightarrow>
     manager_step acts p (p\<lparr>pr_started := True, pr_synced := c'\<rparr>)"
| lead: "manager_step acts p (p\<lparr>pr_leader := True\<rparr>)"

inductive_cases manager_stepE: "manager_step acts p p'"

text \<open>The checks by name; the ping checks of \<open>SetupChecks\<close> always succeed.\<close>

definition check_passes :: "process \<Rightarrow> string \<Rightarrow> bool" where
  "check_passes p name =
     (if name = ''webhook-server'' then pr_listening p
      else if name = ''cache-sync'' then cachesSynced_Check (pr_synced p) = None
      else True)"

fun registered_check :: "'o main_action \<Rightarrow> string option" where
  "registered_check (AddReadyzCheck name) = Some name"
| "registered_check a = None"

definition readyz :: "'o main_action list \<Rightarrow> process \<Rightarrow> bool" where
  "readyz acts p = list_all (check_passes p) (List.map_filter registered_check acts)"

subsection \<open>The calls of \<open>main\<close>\<close>

definition wired_calls ::
    "'o manager_options \<Rightarrow> manager \<Rightarrow> handler \<Rightarrow> webhook_config_reconciler \<Rightarrow> 'o main_action list"
  where
  "wired_calls options mgr h r =
     [NewManager options, RegisterWebhook WebhookPath h, NewRecorder [] ''flux-drift-webhook'',
      SetupController r, SetupChecks, AddReadyzCheck ''webhook-server'',
      AddRunnable cachesSynced_new, AddReadyzCheck ''cache-sync''] @
     map RegisterInformer (filter (mg_GetInformer mgr) CachedObjectTypes) @ [StartManager]"

lemma setup_and_start_cases:
  "StartManager \<notin> set acts \<Longrightarrow>
     setup_and_start mgr h r acts = (code, acts') \<Longrightarrow> StartManager \<in> set acts' \<or> code = 0 \<Longrightarrow>
     acts' = acts @ tl (wired_calls options mgr h r) \<and>
     code = (if mg_Start mgr = None then 0 else 1)"
  by (auto simp: setup_and_start_def wired_calls_def warmInformerCaches_def warm_loop_eq Let_def
      split: if_splits)

text \<open>The manager is started, and the process ends without error, only fully wired.\<close>

lemma main_cases:
  assumes "main co nm env cl = (code, acts)" and "StartManager \<in> set acts \<or> code = 0"
  obtains mgr h r where "nm (manager_options_of co env cl) = Some mgr"
    and "startup env cl (Some (mg_Client mgr)) = Inr (h, r)"
    and "NewMetrics (mg_Registry mgr) \<noteq> None"
    and "acts = wired_calls (manager_options_of co env cl) mgr h r"
    and "code = (if mg_Start mgr = None then 0 else 1)"
proof -
  let ?o = "manager_options_of co env cl"
  have "\<exists>h r mgr. startup env cl (map_option mg_Client (nm ?o)) = Inr (h, r) \<and> nm ?o = Some mgr \<and>
      NewMetrics (mg_Registry mgr) \<noteq> None \<and> setup_and_start mgr h r [NewManager ?o] = (code, acts)"
  proof (cases "startup env cl (map_option mg_Client (nm ?o))")
    case (Inl err)
    with assms have False
      by (cases err) (auto simp: main_def Let_def split: if_split_asm option.split_asm)
    then show ?thesis ..
  next
    case (Inr hr)
    then show ?thesis
      using assms
      by (cases hr; cases "nm ?o")
        (auto simp: main_def Let_def split: if_split_asm)
  qed
  then obtain h r mgr where ok: "startup env cl (map_option mg_Client (nm ?o)) = Inr (h, r)"
    "nm ?o = Some mgr" "NewMetrics (mg_Registry mgr) \<noteq> None"
    "setup_and_start mgr h r [NewManager ?o] = (code, acts)"
    by blast
  from setup_and_start_cases [OF _ ok(4) assms(2), of ?o] ok that show thesis
    by (simp add: wired_calls_def)
qed

subsection \<open>Readiness\<close>

definition process_ok :: "process \<Rightarrow> bool" where
  "process_ok p \<longleftrightarrow> (ch_closed (pr_synced p) \<longleftrightarrow> pr_started p) \<and> (pr_started p \<longrightarrow> pr_cachesSynced p)"

lemma process_ok_start: "process_ok process_start"
  by (simp add: process_ok_def process_start_def cachesSynced_new_def)

lemma process_ok_step: "manager_step acts p p' \<Longrightarrow> process_ok p \<Longrightarrow> process_ok p'"
  by (erule manager_stepE) (auto simp: process_ok_def cachesSynced_Start_def split: if_splits)

lemma process_ok_reachable: "(manager_step acts)\<^sup>*\<^sup>* process_start p \<Longrightarrow> process_ok p"
  by (induction rule: rtranclp_induct) (auto intro: process_ok_start process_ok_step)

lemma readyz_wired:
  "readyz (wired_calls options mgr h r) p \<longleftrightarrow> pr_listening p \<and> ch_closed (pr_synced p)"
proof -
  have "List.map_filter registered_check
      (map RegisterInformer xs @ [StartManager :: 'a main_action]) = []" for xs
    by (induction xs) (simp_all add: List.map_filter_def)
  then show ?thesis
    by (simp add: readyz_def wired_calls_def List.map_filter_def check_passes_def
        cachesSynced_Check_def)
qed

text \<open>A step that does not make the replica a leader.\<close>

definition standby_step :: "'o main_action list \<Rightarrow> process \<Rightarrow> process \<Rightarrow> bool" where
  "standby_step acts p p' \<longleftrightarrow> manager_step acts p p' \<and> pr_leader p' = pr_leader p"

lemma standby_becomes_ready:
  assumes "process_ok p" and acts: "acts = wired_calls options mgr h r"
  shows "\<exists>p'. (standby_step acts)\<^sup>*\<^sup>* p p' \<and> readyz acts p'"
proof -
  let ?p1 = "p\<lparr>pr_listening := True\<rparr>" and ?p2 = "p\<lparr>pr_listening := True, pr_cachesSynced := True\<rparr>"
  have steps: "standby_step acts p ?p1" "standby_step acts ?p1 ?p2"
    using manager_step.listen [of acts p] manager_step.sync [of acts ?p1]
    by (simp_all add: standby_step_def)
  show ?thesis
  proof (cases "pr_started p")
    case True
    then have "readyz acts ?p2" using assms by (simp add: readyz_wired process_ok_def)
    with steps show ?thesis by (meson converse_rtranclp_into_rtranclp rtranclp.rtrancl_refl)
  next
    case False
    let ?c = "pr_synced p\<lparr>ch_closed := True\<rparr>"
    let ?p3 = "?p2\<lparr>pr_started := True, pr_synced := ?c\<rparr>"
    have "manager_step acts ?p2 ?p3"
      using False assms
      by (intro manager_step.start [of cachesSynced_new])
        (auto simp: acts wired_calls_def cachesSynced_NeedLeaderElection_def process_ok_def
          cachesSynced_Start_def)
    then have "standby_step acts ?p2 ?p3" by (simp add: standby_step_def)
    moreover have "readyz acts ?p3" by (simp add: acts readyz_wired)
    ultimately show ?thesis
      using steps by (meson converse_rtranclp_into_rtranclp rtranclp.rtrancl_refl)
  qed
qed

lemma ready_stays:
  "manager_step acts p p' \<Longrightarrow> acts = wired_calls options mgr h r \<Longrightarrow> readyz acts p \<Longrightarrow>
     readyz acts p'"
  by (erule manager_stepE) (auto simp: readyz_wired cachesSynced_Start_def split: if_splits)

end
