(* ===== verification/Controller_Loop.thy ===== *)
theory Controller_Loop
  imports Webhook_Config
begin

section \<open>The controller at work (\<open>SetupWithManager\<close> and \<open>Reconcile\<close> together)\<close>

text \<open>
  How watch events, the work queue and the requeue timer drive the reconcile step.  The state
  holds the stored configuration, as far as the controller applies it, the informer's view of
  whether it exists, the watch events on their way, the work item and the timer.  The event
  filter and the reconcile step are the program's; what controller-runtime does with the result
  of a reconcile step is the parameter \<open>requeue\<close> (\<^const>\<open>None\<close>: the item is forgotten), with
  its documented behaviour as the assumptions of a locale.
\<close>

subsection \<open>Definitions\<close>

record loop_state =
  lp_stored :: "json_map option"
  lp_cached :: bool
  lp_events :: "watch_event list"
  lp_queued :: bool
  lp_timer :: "nat option"
  lp_world :: reconcile_world

text \<open>
  The client of one step: reads come from the informer's view, writes reach the server.  An apply
  that would change what others have written conflicts with them unless it forces ownership.
\<close>

definition loop_client ::
    "(webhook_configuration \<Rightarrow> string + json_map) \<Rightarrow> string option \<Rightarrow> loop_state \<Rightarrow> vwc_client" where
  "loop_client conv apply_error s =
     \<lparr>vc_Get = (\<lambda>name. if lp_cached s then None else Some NotFound),
      vc_ToUnstructured = conv,
      vc_Apply = (\<lambda>uns options.
        if ForceOwnership \<in> set options \<or> lp_stored s \<in> {None, Some uns} then apply_error
        else Some ''conflict'')\<rparr>"

text \<open>The earlier of two deadlines wins.\<close>

fun earlier :: "nat option \<Rightarrow> nat option \<Rightarrow> nat option" where
  "earlier None t = t"
| "earlier t None = t"
| "earlier (Some m) (Some n) = Some (min m n)"

text \<open>
  One run of the reconciler: a write that creates or changes the configuration sends an event
  back to the controller, one that changes nothing does not.
\<close>

definition run_reconcile ::
    "webhook_config_reconciler \<Rightarrow> (string + int \<Rightarrow> nat option) \<Rightarrow>
       (webhook_configuration \<Rightarrow> string + json_map) \<Rightarrow> string option \<Rightarrow> loop_state \<Rightarrow> loop_state" where
  "run_reconcile r requeue conv apply_error s =
     (let (res, w) = Reconcile r (loop_client conv apply_error s) (lp_world s);
          stored =
            (if length (rw_applied (lp_world s)) < length (rw_applied w)
             then Some (last (rw_applied w)) else lp_stored s);
          echo =
            (if stored = lp_stored s then []
             else if lp_stored s = None then [CreateEvent (rc_WebhookName r)]
             else [UpdateEvent (rc_WebhookName r)])
      in s\<lparr>lp_stored := stored, lp_events := lp_events s @ echo, lp_queued := False,
           lp_timer := earlier (lp_timer s) (requeue res), lp_world := w\<rparr>)"

fun informer_view :: "string \<Rightarrow> watch_event \<Rightarrow> bool \<Rightarrow> bool" where
  "informer_view name (CreateEvent n) b = (if n = name then True else b)"
| "informer_view name (DeleteEvent n) b = (if n = name then False else b)"
| "informer_view name e b = b"

fun event_name :: "watch_event \<Rightarrow> string" where
  "event_name (CreateEvent n) = n"
| "event_name (UpdateEvent n) = n"
| "event_name (DeleteEvent n) = n"
| "event_name (GenericEvent n) = n"

datatype loop_action =
    Deliver
  | Run "string option"
  | Tick
  | Expire
  | OutsideDelete
  | OutsideCreate json_map
  | OutsideEdit json_map
  | OutsideTouch
  | OtherObject watch_event

text \<open>
  The first four actions are the controller's own; the others are those of anybody else: an
  edit changes what the controller applies, a touch does not (the CA injector writes the CA
  bundle, which the controller does not apply).
\<close>

inductive loop_step ::
    "webhook_config_reconciler \<Rightarrow> (string + int \<Rightarrow> nat option) \<Rightarrow>
       (webhook_configuration \<Rightarrow> string + json_map) \<Rightarrow>
       loop_action \<Rightarrow> loop_state \<Rightarrow> loop_state \<Rightarrow> bool"
  for r requeue conv
where
  deliver: "lp_events s = e # es \<Longrightarrow>
     loop_step r requeue conv Deliver s
       (s\<lparr>lp_events := es, lp_cached := informer_view (rc_WebhookName r) e (lp_cached s),
          lp_queued := (lp_queued s \<or> ctl_Filter (SetupWithManager r) e)\<rparr>)"
| run: "lp_queued s \<Longrightarrow>
     loop_step r requeue conv (Run apply_error) s (run_reconcile r requeue conv apply_error s)"
| tick: "lp_timer s = Some (Suc n) \<Longrightarrow>
     loop_step r requeue conv Tick s (s\<lparr>lp_timer := Some n\<rparr>)"
| expire: "lp_timer s = Some 0 \<Longrightarrow>
     loop_step r requeue conv Expire s (s\<lparr>lp_timer := None, lp_queued := True\<rparr>)"
| outside_delete: "lp_stored s \<noteq> None \<Longrightarrow>
     loop_step r requeue conv OutsideDelete s
       (s\<lparr>lp_stored := None, lp_events := lp_events s @ [DeleteEvent (rc_WebhookName r)]\<rparr>)"
| outside_create: "lp_stored s = None \<Longrightarrow>
     loop_step r requeue conv (OutsideCreate x) s
       (s\<lparr>lp_stored := Some x, lp_events := lp_events s @ [CreateEvent (rc_WebhookName r)]\<rparr>)"
| outside_edit: "lp_stored s \<noteq> None \<Longrightarrow>
     loop_step r requeue conv (OutsideEdit x) s
       (s\<lparr>lp_stored := Some x, lp_events := lp_events s @ [UpdateEvent (rc_WebhookName r)]\<rparr>)"
| outside_touch: "lp_stored s \<noteq> None \<Longrightarrow>
     loop_step r requeue conv OutsideTouch s
       (s\<lparr>lp_events := lp_events s @ [UpdateEvent (rc_WebhookName r)]\<rparr>)"
| other_object: "event_name e \<noteq> rc_WebhookName r \<Longrightarrow>
     loop_step r requeue conv (OtherObject e) s (s\<lparr>lp_events := lp_events s @ [e]\<rparr>)"

lemma controller_filter [simp]: "ctl_Filter (SetupWithManager r) = watch_filter r"
  by (simp add: SetupWithManager_def)

inductive_cases loop_stepE: "loop_step r requeue conv a s s'"

text \<open>The state when the manager starts: the informer lists what is stored.\<close>

definition loop_start :: "webhook_config_reconciler \<Rightarrow> json_map option \<Rightarrow> reconcile_world \<Rightarrow> loop_state"
  where
  "loop_start r stored w =
     \<lparr>lp_stored = stored, lp_cached = False,
      lp_events = (if stored = None then [] else [CreateEvent (rc_WebhookName r)]),
      lp_queued = False, lp_timer = None, lp_world = w\<rparr>"

inductive loop_trace ::
    "webhook_config_reconciler \<Rightarrow> (string + int \<Rightarrow> nat option) \<Rightarrow>
       (webhook_configuration \<Rightarrow> string + json_map) \<Rightarrow>
       loop_action list \<Rightarrow> loop_state \<Rightarrow> loop_state \<Rightarrow> bool"
  for r requeue conv
where
  trace_Nil: "loop_trace r requeue conv [] s s"
| trace_Cons: "loop_step r requeue conv a s s' \<Longrightarrow> loop_trace r requeue conv as s' s'' \<Longrightarrow>
     loop_trace r requeue conv (a # as) s s''"

inductive_simps loop_trace_Nil [simp]: "loop_trace r requeue conv [] s s'"
inductive_simps loop_trace_Cons: "loop_trace r requeue conv (a # as) s s''"

text \<open>The controller's own actions while the API server accepts its writes.\<close>

fun own_action :: "loop_action \<Rightarrow> bool" where
  "own_action Deliver = True"
| "own_action (Run apply_error) = (apply_error = None)"
| "own_action Tick = True"
| "own_action Expire = True"
| "own_action a = False"

text \<open>
  Others tamper with the configuration, or only make noise: they touch what the controller does
  not apply, or write other objects of the same kind.
\<close>

fun tampers :: "loop_action \<Rightarrow> bool" where
  "tampers OutsideDelete = True"
| "tampers (OutsideCreate x) = True"
| "tampers (OutsideEdit x) = True"
| "tampers a = False"

fun noise :: "loop_action \<Rightarrow> bool" where
  "noise OutsideTouch = True"
| "noise (OtherObject e) = True"
| "noise a = False"

text \<open>The steps that can still happen before the next run of the reconciler.\<close>

definition patience :: "loop_state \<Rightarrow> nat" where
  "patience s = length (lp_events s) + (case lp_timer s of None \<Rightarrow> 0 | Some n \<Rightarrow> n + 1) + 1"

text \<open>How many runs a state still owes, and how many an action can add.\<close>

definition run_budget ::
    "webhook_config_reconciler \<Rightarrow> json_map \<Rightarrow> loop_state \<Rightarrow> nat" where
  "run_budget r uns s =
     (if lp_stored s = Some uns then 0 else 1) + length (filter (watch_filter r) (lp_events s)) +
     (if lp_queued s then 1 else 0)"

fun run_cost :: "loop_action \<Rightarrow> nat" where
  "run_cost Expire = 1"
| "run_cost OutsideDelete = 2"
| "run_cost (OutsideCreate x) = 1"
| "run_cost (OutsideEdit x) = 1"
| "run_cost a = 0"

fun is_run :: "loop_action \<Rightarrow> bool" where
  "is_run (Run apply_error) = True"
| "is_run a = False"

subsection \<open>One run\<close>

lemma run_reconcile_ok:
  assumes "conv (desired_configuration r) = Inr uns"
  shows "lp_stored (run_reconcile r requeue conv None s) = Some uns"
    and "lp_queued (run_reconcile r requeue conv None s) = False"
    and "lp_timer (run_reconcile r requeue conv None s) =
           earlier (lp_timer s) (requeue (Inr (rc_ResyncInterval r)))"
    and "lp_events (run_reconcile r requeue conv None s) = lp_events s @
           (if lp_stored s = Some uns then []
            else if lp_stored s = None then [CreateEvent (rc_WebhookName r)]
            else [UpdateEvent (rc_WebhookName r)])"
  using assms by (simp_all add: run_reconcile_def Reconcile_def loop_client_def Let_def)

lemma run_reconcile_failed:
  assumes "conv (desired_configuration r) = Inr uns"
  shows "lp_stored (run_reconcile r requeue conv (Some err) s) = lp_stored s"
    and "lp_queued (run_reconcile r requeue conv (Some err) s) = False"
    and "lp_timer (run_reconcile r requeue conv (Some err) s) =
           earlier (lp_timer s) (requeue (Inl err))"
    and "lp_events (run_reconcile r requeue conv (Some err) s) = lp_events s"
  using assms by (simp_all add: run_reconcile_def Reconcile_def loop_client_def Let_def)

lemma earlier_None_iff [simp]: "earlier t u = None \<longleftrightarrow> t = None \<and> u = None"
  by (cases t; cases u) auto

subsection \<open>Runs are bounded\<close>

text \<open>Whatever is requeued later: it is the timer that brings it back.\<close>

lemma run_budget_step:
  assumes conv: "conv (desired_configuration r) = Inr uns"
    and step: "loop_step r requeue conv a s s'"
  shows "(if is_run a then 1 else 0) + run_budget r uns s' \<le> run_budget r uns s + run_cost a"
  using step
proof cases
  case (run apply_error)
  then show ?thesis
    using conv
    by (cases apply_error) (auto simp: run_budget_def run_reconcile_ok run_reconcile_failed)
next
  case (other_object e)
  then show ?thesis by (cases e) (auto simp: run_budget_def)
qed (auto simp: run_budget_def)

lemma run_budget_trace:
  assumes "loop_trace r requeue conv as s s'" and "conv (desired_configuration r) = Inr uns"
  shows "length (filter is_run as) + run_budget r uns s' \<le>
    run_budget r uns s + sum_list (map run_cost as)"
  using assms
proof (induction rule: loop_trace.induct)
  case (trace_Cons a s s' as s'')
  then show ?case using run_budget_step [of conv r uns requeue a s s'] by (auto split: if_splits)
qed simp

text \<open>Without timers and foreign writes, the work on hand is finished in bounded time.\<close>

fun immediate :: "loop_action \<Rightarrow> bool" where
  "immediate Deliver = True"
| "immediate (Run apply_error) = True"
| "immediate a = False"

lemma immediate_length:
  assumes "loop_trace r requeue conv as s s'" and "list_all immediate as"
    and "conv (desired_configuration r) = Inr uns"
  shows "length as \<le> length (lp_events s) + 2 * length (filter is_run as)"
  using assms
proof (induction rule: loop_trace.induct)
  case (trace_Cons a s s' as s'')
  from trace_Cons.hyps(1) trace_Cons.prems
  have "length (lp_events s') + 1 \<le> length (lp_events s) + (if is_run a then 2 else 0)"
  proof cases
    case (run apply_error)
    then show ?thesis
      using trace_Cons.prems
      by (cases apply_error) (auto simp: run_reconcile_ok run_reconcile_failed)
  qed auto
  with trace_Cons show ?case by (auto split: if_splits)
qed simp

subsection \<open>The controller never falls asleep, and converges\<close>

definition awake :: "webhook_config_reconciler \<Rightarrow> loop_state \<Rightarrow> bool" where
  "awake r s = (lp_queued s \<or> lp_timer s \<noteq> None \<or> list_ex (watch_filter r) (lp_events s))"

lemma untampered_step:
  assumes "loop_step r requeue conv a s s'" "\<not> tampers a"
    and "conv (desired_configuration r) = Inr uns" "lp_stored s = Some uns"
  shows "lp_stored s' = Some uns"
  using assms(1)
proof cases
  case (run apply_error)
  then show ?thesis
    using assms(3,4) by (cases apply_error) (simp_all add: run_reconcile_ok run_reconcile_failed)
qed (use assms in auto)

lemma untampered_trace:
  assumes "loop_trace r requeue conv as s s'" "\<not> list_ex tampers as"
    and "conv (desired_configuration r) = Inr uns" "lp_stored s = Some uns"
  shows "lp_stored s' = Some uns"
  using assms by (induction rule: loop_trace.induct) (auto intro: untampered_step)

lemma patience_step:
  assumes "loop_step r requeue conv a s s'" "own_action a"
    and "conv (desired_configuration r) = Inr uns" "lp_stored s' \<noteq> Some uns"
  shows "patience s' < patience s"
  using assms by (cases rule: loop_stepE) (auto simp: patience_def run_reconcile_ok)

lemma patience_noise:
  "loop_step r requeue conv a s s' \<Longrightarrow> noise a \<Longrightarrow> patience s' = Suc (patience s)"
  by (cases rule: loop_stepE) (auto simp: patience_def)

text \<open>Every own step brings the controller closer to its next run, noise sets it back by one.\<close>

lemma noisy_trace_converges:
  assumes "loop_trace r requeue conv as s s'" "list_all (\<lambda>a. own_action a \<or> noise a) as"
    and "conv (desired_configuration r) = Inr uns"
    and "patience s + length (filter noise as) \<le> length (filter own_action as)"
  shows "lp_stored s' = Some uns"
  using assms
proof (induction rule: loop_trace.induct)
  case (trace_Nil s)
  then show ?case by (simp add: patience_def)
next
  case (trace_Cons a s s' as s'')
  have "\<not> tampers b" if "own_action b \<or> noise b" for b
    using that by (cases b) auto
  then have quiet: "\<not> list_ex tampers as"
    using trace_Cons.prems(1) by (auto simp: list_all_iff list_ex_iff)
  show ?case
  proof (cases "lp_stored s' = Some uns")
    case True
    with trace_Cons.hyps(2) quiet trace_Cons.prems(2) show ?thesis by (rule untampered_trace)
  next
    case False
    have "noise a \<longleftrightarrow> \<not> own_action a" using trace_Cons.prems(1) by (cases a) auto
    then have "patience s' + length (filter noise as) \<le> length (filter own_action as)"
      using False trace_Cons.prems patience_step [OF trace_Cons.hyps(1)]
        patience_noise [OF trace_Cons.hyps(1)]
      by (cases "own_action a") fastforce+
    with trace_Cons show ?thesis by simp
  qed
qed

locale work_queue =
  fixes requeue :: "string + int \<Rightarrow> nat option"
  assumes requeue_after: "0 < d \<Longrightarrow> requeue (Inr d) = Some (nat d)"
    and requeue_never: "d \<le> 0 \<Longrightarrow> requeue (Inr d) = None"
    and requeue_error: "requeue (Inl err) \<noteq> None"
begin

lemma awake_step:
  assumes "0 < rc_ResyncInterval r" "conv (desired_configuration r) = Inr uns"
    and "loop_step r requeue conv a s s'" "awake r s"
  shows "awake r s'"
  using assms(3)
proof cases
  case (run apply_error)
  then show ?thesis
    using assms(1,2) requeue_after requeue_error
    by (cases apply_error) (auto simp: awake_def run_reconcile_ok run_reconcile_failed)
qed (use assms(4) in \<open>auto simp: awake_def\<close>)

lemma awake_trace:
  assumes "loop_trace r requeue conv as s s'" "awake r s"
    and "0 < rc_ResyncInterval r" "conv (desired_configuration r) = Inr uns"
  shows "awake r s'"
  using assms by (induction rule: loop_trace.induct) (auto intro: awake_step)

end

lemma awake_progress:
  assumes "awake r s"
  shows "\<exists>a s'. own_action a \<and> loop_step r requeue conv a s s'"
proof -
  consider "lp_queued s" | n where "lp_timer s = Some n" | e es where "lp_events s = e # es"
    using assms by (cases "lp_events s") (auto simp: awake_def)
  then show ?thesis
  proof cases
    case 1
    then show ?thesis by (intro exI [of _ "Run None"]) (auto intro: loop_step.run)
  next
    case (2 n)
    then show ?thesis
      using loop_step.tick [of s] loop_step.expire [of s] own_action.simps(3,4)
      by (cases n) blast+
  next
    case (3 e es)
    then show ?thesis by (intro exI [of _ Deliver]) (auto intro: loop_step.deliver)
  qed
qed

lemma awake_start: "stored \<noteq> None \<Longrightarrow> awake r (loop_start r stored w)"
  by (simp add: awake_def loop_start_def)

text \<open>What the work queue does, with a fixed delay after an error.\<close>

definition reference_requeue :: "string + int \<Rightarrow> nat option" where
  "reference_requeue res =
     (case res of Inl err \<Rightarrow> Some 5000000 | Inr d \<Rightarrow> if 0 < d then Some (nat d) else None)"

interpretation ref_queue: work_queue reference_requeue
  by unfold_locales (simp_all add: reference_requeue_def)

subsection \<open>Where it does fall asleep\<close>

text \<open>A configuration that is absent when the manager starts sends no event.\<close>

definition dormant :: "webhook_config_reconciler \<Rightarrow> loop_state \<Rightarrow> bool" where
  "dormant r s =
     (lp_stored s = None \<and> \<not> lp_queued s \<and> lp_timer s = None \<and>
      list_all (\<lambda>e. \<not> watch_filter r e) (lp_events s))"

fun creates :: "loop_action \<Rightarrow> bool" where
  "creates (OutsideCreate x) = True"
| "creates a = False"

lemma dormant_step:
  "loop_step r requeue conv a s s' \<Longrightarrow> dormant r s \<Longrightarrow> \<not> creates a \<Longrightarrow> dormant r s' \<and> \<not> is_run a"
proof (induction rule: loop_step.induct)
  case (other_object e s)
  then show ?case by (cases e) (auto simp: dormant_def)
qed (auto simp: dormant_def)

lemma dormant_trace:
  "loop_trace r requeue conv as s s' \<Longrightarrow> dormant r s \<Longrightarrow> \<not> list_ex creates as \<Longrightarrow>
     dormant r s' \<and> \<not> list_ex is_run as"
proof (induction rule: loop_trace.induct)
  case (trace_Cons a s s' as s'')
  then show ?case using dormant_step [of r requeue conv a s s'] by auto
qed simp

lemma dormant_start: "dormant r (loop_start r None w)"
  by (simp add: dormant_def loop_start_def)

text \<open>Without a requeue after success, an edit that follows the first run stays.\<close>

lemma asleep_after_edit:
  assumes conv: "conv (desired_configuration r) = Inr uns"
    and never: "requeue (Inr (rc_ResyncInterval r)) = None"
  shows "\<exists>as s'. loop_trace r requeue conv as (loop_start r (Some y) w) s' \<and>
    lp_stored s' = Some x \<and> (\<forall>a s''. own_action a \<longrightarrow> \<not> loop_step r requeue conv a s' s'')"
proof -
  let ?s0 = "loop_start r (Some y) w"
  let ?s1 = "?s0\<lparr>lp_events := [], lp_cached := True, lp_queued := True\<rparr>"
  let ?s2 = "run_reconcile r requeue conv None ?s1"
  let ?s3 = "?s2\<lparr>lp_events := [], lp_cached := True, lp_queued := False\<rparr>"
  let ?s4 = "?s3\<lparr>lp_stored := Some x, lp_events := [UpdateEvent (rc_WebhookName r)]\<rparr>"
  let ?s5 = "?s4\<lparr>lp_events := [], lp_cached := True, lp_queued := False\<rparr>"
  have 1: "loop_step r requeue conv Deliver ?s0 ?s1"
    using loop_step.deliver [of ?s0 "CreateEvent (rc_WebhookName r)" "[]" r requeue conv]
    by (simp add: loop_start_def)
  have 2: "loop_step r requeue conv (Run None) ?s1 ?s2"
    by (rule loop_step.run) (simp add: loop_start_def)
  have s2: "lp_stored ?s2 = Some uns" "lp_queued ?s2 = False" "lp_timer ?s2 = None"
    "lp_events ?s2 = (if y = uns then [] else [UpdateEvent (rc_WebhookName r)])"
    using conv never by (simp_all add: run_reconcile_ok loop_start_def)
  have cached: "lp_cached ?s2 = True"
    by (simp add: run_reconcile_def Let_def split: prod.splits)
  have 3: "\<exists>as. loop_trace r requeue conv as ?s2 ?s3"
  proof (cases "y = uns")
    case True
    then have "?s3 = ?s2" using s2 cached by simp
    then show ?thesis using trace_Nil by metis
  next
    case False
    then have "loop_step r requeue conv Deliver ?s2 ?s3"
      using loop_step.deliver [of ?s2 "UpdateEvent (rc_WebhookName r)" "[]" r requeue conv]
        s2 cached by simp
    then show ?thesis using trace_Cons trace_Nil by metis
  qed
  have 4: "loop_step r requeue conv (OutsideEdit x) ?s3 ?s4"
    using loop_step.outside_edit [of ?s3 r requeue conv x] s2 by simp
  have 5: "loop_step r requeue conv Deliver ?s4 ?s5"
    using loop_step.deliver [of ?s4 "UpdateEvent (rc_WebhookName r)" "[]" r requeue conv]
      s2 cached by simp
  from 3 obtain as where "loop_trace r requeue conv as ?s2 ?s3" ..
  then have "loop_trace r requeue conv (as @ [OutsideEdit x, Deliver]) ?s2 ?s5"
    using 4 5 by (induction rule: loop_trace.induct) (auto simp: loop_trace_Cons)
  with 1 2 have "loop_trace r requeue conv (Deliver # Run None # as @ [OutsideEdit x, Deliver])
      ?s0 ?s5"
    by (blast intro: trace_Cons)
  moreover have "\<not> loop_step r requeue conv a ?s5 s''" if "own_action a" for a s''
    using that s2 by (auto elim: loop_stepE)
  moreover have "lp_stored ?s5 = Some x" by simp
  ultimately show ?thesis by blast
qed

end
