(* ===== verification/Identity.thy ===== *)
theory Identity
  imports Drift
begin

section \<open>Who may act for the owner, and which object an inventory entry names\<close>

text \<open>
  The identities \<open>isOwningFluxReconciler\<close> recognises, the metrics of an ownership conflict, the
  namespace filter as a rule, and the injectivity of the inventory ids.
\<close>

subsection \<open>The owning reconciler\<close>

text \<open>The service account the owner declares for its reconciler, as the client answers now.\<close>

definition declared_sa ::
    "('s, 'k) deps \<Rightarrow> handler \<Rightarrow> flux_management_info \<Rightarrow> world \<Rightarrow> string option" where
  "declared_sa D h fi w =
     (case fst (getOwner h fi w) of
        None \<Rightarrow> None
      | Some owner \<Rightarrow> if owner_sa D owner = [] then None else Some (owner_sa D owner))"

lemma owningReconcilerSA_declared:
  "fst (owningReconcilerSA D h fi w) = map_option (Pair (ControllerNS fi)) (declared_sa D h fi w)"
  by (simp add: owningReconcilerSA_def declared_sa_def Let_def split: prod.splits option.splits)

lemma isOwningFluxReconciler_iff:
  "fst (isOwningFluxReconciler D h req fi w) \<longleftrightarrow>
     IsFluxController (req_UserInfo req) (FluxNamespace h) \<or>
     (\<exists>name. ParseServiceAccount (req_UserInfo req) = Some (ControllerNS fi, name) \<and>
        (case declared_sa D h fi w of
           Some sa \<Rightarrow> name = sa
         | None \<Rightarrow> name \<in> set FluxReconcilerServiceAccounts))"
  using owningReconcilerSA_declared [of D h fi w]
  by (auto simp: isOwningFluxReconciler_def split: option.splits prod.splits)

text \<open>
  The same on the client's answers: the account that the owner declares in the \<open>n\<close>-th read, none
  when it cannot be read or declares none; and who is the owner's reconciler whatever read comes
  first: a core controller, the account that every read declares, or, when no read declares
  one, a default account in the owner's namespace.
\<close>

definition declared_in_read ::
    "('s, 'k) deps \<Rightarrow> handler \<Rightarrow> flux_management_info \<Rightarrow> nat \<Rightarrow> string option" where
  "declared_in_read D h fi n =
     (if ControllerName fi = [] \<or> ControllerNS fi = [] then None
      else
        (case (ownerGVK (ManagedBy fi), Client h) of
           (Some gvk, Some c) \<Rightarrow>
             (case get_unstructured c n (fetch_timeout h) gvk (ControllerNS fi) (ControllerName fi) of
                None \<Rightarrow> None
              | Some owner \<Rightarrow>
                  let sa = NestedString D owner [''spec'', ''serviceAccountName''] in
                  if sa = [] then None else Some sa)
         | _ \<Rightarrow> None))"

definition reconciler_account ::
    "('s, 'k) deps \<Rightarrow> handler \<Rightarrow> flux_management_info \<Rightarrow> user_info \<Rightarrow> bool" where
  "reconciler_account D h fi u =
     (\<exists>ns name. Username u = sa_username ns name \<and>
        sa_group \<in> set (Groups u) \<and> CHR '':'' \<notin> set ns \<and> CHR '':'' \<notin> set name \<and>
        (ns = FluxNamespace h \<and> name \<in> set FluxServiceAccounts \<or>
         ns = ControllerNS fi \<and> (\<forall>n. declared_in_read D h fi n = Some name) \<or>
         ns = ControllerNS fi \<and> name \<in> set FluxReconcilerServiceAccounts \<and>
           (\<forall>n. declared_in_read D h fi n = None)))"

lemma declared_sa_read: "declared_sa D h fi w = declared_in_read D h fi (w_reads w)"
  by (auto simp: declared_sa_def declared_in_read_def getOwner_def owner_sa_def Let_def
      split: option.splits)

lemma reconciler_account_declared:
  "Username u = sa_username (ControllerNS fi) name \<Longrightarrow> sa_group \<in> set (Groups u) \<Longrightarrow>
     CHR '':'' \<notin> set (ControllerNS fi) \<Longrightarrow> CHR '':'' \<notin> set name \<Longrightarrow>
     (\<And>n. declared_in_read D h fi n = Some name) \<Longrightarrow> reconciler_account D h fi u"
  unfolding reconciler_account_def by blast

lemma reconciler_account_recognised:
  assumes "reconciler_account D h fi (req_UserInfo req)"
  shows "fst (isOwningFluxReconciler D h req fi w)"
proof -
  let ?u = "req_UserInfo req"
  from assms obtain ns name where sa: "ParseServiceAccount ?u = Some (ns, name)"
    and cases: "ns = FluxNamespace h \<and> name \<in> set FluxServiceAccounts \<or>
      ns = ControllerNS fi \<and> (\<forall>n. declared_in_read D h fi n = Some name) \<or>
      ns = ControllerNS fi \<and> name \<in> set FluxReconcilerServiceAccounts \<and>
        (\<forall>n. declared_in_read D h fi n = None)"
    unfolding reconciler_account_def ParseServiceAccount_iff by blast
  from cases show ?thesis
    by (elim disjE conjE)
      (simp_all add: isOwningFluxReconciler_iff IsFluxController_iff declared_sa_read sa)
qed

text \<open>No requester outside the Flux namespace and the owner's namespace is recognised.\<close>

lemma owning_reconciler_namespace:
  assumes "fst (isOwningFluxReconciler D h req fi w)"
  shows "\<exists>ns name. Username (req_UserInfo req) = sa_username ns name \<and>
     sa_group \<in> set (Groups (req_UserInfo req)) \<and> ns \<in> {FluxNamespace h, ControllerNS fi}"
  using assms by (auto simp: isOwningFluxReconciler_iff IsFluxController_iff ParseServiceAccount_iff)

subsection \<open>Ownership conflicts\<close>

definition conflict_event ::
    "request \<Rightarrow> flux_management_info \<Rightarrow> flux_management_info \<Rightarrow> metric_event" where
  "conflict_event req previous new =
     CounterInc (col_Name ownershipConflictsTotal)
       [gvk_Kind (req_Kind req), fluxOwnerKey previous, fluxOwnerKey new]"

lemma calls_conflicts:
  "calls ownershipConflictsTotal (snd (checkFluxOwnership req om old fi w)) =
     calls ownershipConflictsTotal w @
       (if isOwningController (req_Operation req) (om_Labels om) (om_Labels old) then []
        else [conflict_event req (GetFluxManagementInfo (om_Labels old)) fi])"
  by (simp add: checkFluxOwnership_def conflict_event_def calls_def record_metrics)

lemma lookup_error_no_conflict: "lookup_error e \<Longrightarrow> \<not> counter_call ownershipConflictsTotal e"
  by (cases e) (auto simp: collector_defs)

lemma only_reads_conflicts:
  "only_reads n w w' \<Longrightarrow> calls ownershipConflictsTotal w' = calls ownershipConflictsTotal w"
  by (auto simp: only_reads_def calls_def list_all_iff filter_empty_conv lookup_error_no_conflict)

lemma conflict_calls_simps [simp]:
  "calls ownershipConflictsTotal (snd (buildResponse h req d w)) = calls ownershipConflictsTotal w"
  by (simp add: buildResponse_def Let_def)

lemma scope_only_reads: "in_scope h req w w' \<Longrightarrow> only_reads 1 w w'"
  using only_reads_shouldProcessNamespace [of h "req_Namespace req" w]
  by (auto simp: in_scope_iff checkNamespaceScope_def split: option.splits if_splits)

text \<open>A request of the owning reconciler: allowed, or refused and counted as a conflict.\<close>

lemma owner_answer:
  assumes sc: "in_scope h req w w1" and ext: "extractRequestMetadata D req = Some (om, old)"
    and man: "IsManaged (request_fluxInfo req om old)"
    and own: "isOwningFluxReconciler D h req (request_fluxInfo req om old) w1 = (True, w2)"
  shows "\<exists>resp w'. Handle D h req w = Some (resp, w') \<and>
    (resp_Allowed resp \<longleftrightarrow>
       isOwningController (req_Operation req) (om_Labels om) (om_Labels old) \<or> AuditOnly h) \<and>
    calls ownershipConflictsTotal w' =
      calls ownershipConflictsTotal w @
        (if isOwningController (req_Operation req) (om_Labels om) (om_Labels old) then []
         else [conflict_event req (GetFluxManagementInfo (om_Labels old))
                 (request_fluxInfo req om old)])"
proof -
  let ?fi = "request_fluxInfo req om old" and ?t = "StartTimer (req_Operation req)"
  obtain d w3 where d: "checkFluxOwnership req om old ?fi w2 = (d, w3)" by fastforce
  have "Handle D h req w =
      Some (fst (buildResponse h req d w3), ObserveDuration ?t (snd (buildResponse h req d w3)))"
    using own d by (simp add: Handle_in_scope [OF sc] handle_scoped_managed [OF ext man]
        checkBypass_split split: prod.splits)
  moreover have "dr_allowed d \<longleftrightarrow> isOwningController (req_Operation req) (om_Labels om) (om_Labels old)"
    using d by (auto simp: checkFluxOwnership_def split: if_splits)
  moreover have "calls ownershipConflictsTotal w2 = calls ownershipConflictsTotal w"
    using only_reads_conflicts [OF scope_only_reads [OF sc]]
      only_reads_conflicts [OF only_reads_isOwningFluxReconciler [of w1 D h req ?fi]] own by simp
  moreover have "calls ownershipConflictsTotal w3 =
      calls ownershipConflictsTotal w2 @
        (if isOwningController (req_Operation req) (om_Labels om) (om_Labels old) then []
         else [conflict_event req (GetFluxManagementInfo (om_Labels old)) ?fi])"
    using calls_conflicts [of req om old ?fi w2] d by simp
  ultimately show ?thesis by (simp add: buildResponse_Allowed)
qed

subsection \<open>The namespace filter\<close>

text \<open>The label requirement on a namespace, when one is configured.\<close>

definition namespace_selected :: "handler \<Rightarrow> namespace_metadata \<Rightarrow> bool" where
  "namespace_selected h ns =
     (case ns_Labels ns (NamespaceLabel h) of
        None \<Rightarrow> False
      | Some v \<Rightarrow> NamespaceLabelValue h = [] \<or> v = NamespaceLabelValue h)"

lemma shouldProcessNamespace_iff:
  assumes "Client h = Some c"
  shows "map_option (fst \<circ> fst) (shouldProcessNamespace h ns w) =
     Some (ns = [] \<or>
       ns \<notin> set ExcludedNamespaces \<and>
       (NamespaceLabel h = [] \<or>
        (case get_namespace c (w_reads w) (fetch_timeout h) ns of
           None \<Rightarrow> True
         | Some meta \<Rightarrow> namespace_selected h meta)))"
  using assms
  by (auto simp: shouldProcessNamespace_def namespace_selected_def split: option.splits)

subsection \<open>Inventory ids\<close>

lemma split_at_first:
  "x \<notin> set a \<Longrightarrow> x \<notin> set b \<Longrightarrow> a @ x # s = b @ x # t \<longleftrightarrow> a = b \<and> s = t"
proof (induction a arbitrary: b)
  case Nil
  then show ?case by (cases b) auto
next
  case (Cons c a)
  then show ?case by (cases b) auto
qed

lemma split_at_last:
  assumes "x \<notin> set s" and "x \<notin> set t"
  shows "a @ x # s = b @ x # t \<longleftrightarrow> a = b \<and> s = t"
proof -
  have "a @ x # s = b @ x # t \<longleftrightarrow> rev (a @ x # s) = rev (b @ x # t)" by (simp only: rev_is_rev_conv)
  also have "\<dots> \<longleftrightarrow> rev s @ x # rev a = rev t @ x # rev b" by simp
  also have "\<dots> \<longleftrightarrow> rev s = rev t \<and> rev a = rev b"
    using assms by (intro split_at_first) simp_all
  finally show ?thesis by auto
qed

lemma colon_escape_inj:
  "CHR ''_'' \<notin> set a \<Longrightarrow> CHR ''_'' \<notin> set b \<Longrightarrow>
     ReplaceAll a '':'' ''__'' = ReplaceAll b '':'' ''__'' \<Longrightarrow> a = b"
proof (induction a arbitrary: b)
  case Nil
  then show ?case by (cases b) (auto split: if_splits)
next
  case (Cons c a)
  then show ?case by (cases b) (auto split: if_splits)
qed

text \<open>
  No component has an underscore.  Namespaces, groups, kinds and DNS names never do; an RBAC
  name may, and then \<open>a:b\<close> and \<open>a__b\<close> share an id.
\<close>

definition id_safe :: "string \<Rightarrow> string \<Rightarrow> string \<Rightarrow> string \<Rightarrow> bool" where
  "id_safe grp kind namespace name =
     (CHR ''_'' \<notin> set grp \<union> set kind \<union> set namespace \<union> set name)"

lemma inventoryID_inject:
  assumes "id_safe g k ns n" and "id_safe g' k' ns' n'"
    and "inventoryID g k ns n = inventoryID g' k' ns' n'"
  shows "g = g' \<and> k = k' \<and> ns = ns' \<and> n = n'"
proof -
  define esc where "esc = (\<lambda>g k n. if g = ''rbac.authorization.k8s.io'' \<and> k \<in> set rbacKinds
    then ReplaceAll n '':'' ''__'' else n)"
  have id: "inventoryID g k ns n = ((ns @ CHR ''_'' # esc g k n) @ CHR ''_'' # g) @ CHR ''_'' # k"
    for g k ns n
    by (simp add: inventoryID_def esc_def)
  have "CHR ''_'' \<notin> set k" "CHR ''_'' \<notin> set k'" "CHR ''_'' \<notin> set g" "CHR ''_'' \<notin> set g'"
    "CHR ''_'' \<notin> set ns" "CHR ''_'' \<notin> set ns'"
    using assms(1,2) by (simp_all add: id_safe_def)
  note split = split_at_last [OF this(1,2)] split_at_last [OF this(3,4)] split_at_first [OF this(5,6)]
  have "ns = ns' \<and> esc g k n = esc g' k' n' \<and> g = g' \<and> k = k'"
    using assms(3) unfolding id split by (elim conjE) (intro conjI)
  moreover from this have "n = n'"
    using assms(1,2) colon_escape_inj [of n n']
    by (auto simp: esc_def id_safe_def split: if_splits)
  ultimately show ?thesis by simp
qed

end
