(* ===== verification/Example_Cluster.thy ===== *)
theory Example_Cluster
  imports Admission Process Controller_Loop Identity
begin

section \<open>A concrete cluster\<close>

text \<open>
  A small cluster on which the theorems are applied: a Kustomization \<open>apps\<close> in the namespace
  \<open>flux-system\<close> that applied the field \<open>spec.replicas\<close> and the two ownership labels of one
  object, requests on that object, and the third-party functions of \<^const>\<open>reference_deps\<close>.
\<close>

definition object_of ::
    "(string \<times> json) list \<Rightarrow> (string \<times> json) list \<Rightarrow> string \<Rightarrow> string \<Rightarrow> json_map \<Rightarrow> json_map"
  where
  "object_of labels annotations manager fieldsV1 spec =
     [(''metadata'', JObj
         [(''name'', JStr ''web''), (''namespace'', JStr ''shop''),
          (''labels'', JObj labels), (''annotations'', JObj annotations),
          (''managedFields'', JArr
             [JObj [(''manager'', JStr manager),
                    (''operation'', JStr ManagedFieldsOperationApply),
                    (''fieldsV1'', JStr fieldsV1)]])]),
      (''spec'', JObj spec)]"

definition kustomize_labels :: "string \<Rightarrow> string \<Rightarrow> (string \<times> json) list" where
  "kustomize_labels ns name =
     [(KustomizeLabelName, JStr name), (KustomizeLabelNamespace, JStr ns)]"

definition helm_labels :: "string \<Rightarrow> string \<Rightarrow> (string \<times> json) list" where
  "helm_labels ns name = [(HelmLabelName, JStr name), (HelmLabelNamespace, JStr ns)]"

definition app_object :: "(string \<times> json) list \<Rightarrow> string \<Rightarrow> json_map \<Rightarrow> json_map" where
  "app_object annotations fieldsV1 spec =
     object_of (kustomize_labels ''flux-system'' ''apps'') annotations FluxKustomizeManager
       fieldsV1 spec"

definition replicas :: "string \<Rightarrow> string \<times> json" where
  "replicas n = (''replicas'', JStr n)"

text \<open>
  The stored object and new versions of it: a changed replica count, a field Flux did not
  apply, both, the bypass annotation, a managed-fields entry without its fields, and the owner's
  labels replaced by those of a Kustomization \<open>evil\<close> in the namespace \<open>mallory\<close>, or removed.  Then an
  object a HelmRelease manages, with a field of its own added,
  with Kustomization labels added and changed after that, with only
  a Kustomization namespace label added and an empty name label after that, and one that
  nobody manages.
\<close>

definition ex_objects :: "(string \<times> json_map) list" where
  "ex_objects =
     [(''stored'', app_object [] ''F'' [replicas ''1'']),
      (''scaled'', app_object [] ''F'' [replicas ''9'']),
      (''paused'', app_object [] ''F'' [replicas ''1'', (''paused'', JBool True)]),
      (''scaled_paused'', app_object [] ''F'' [replicas ''9'', (''paused'', JBool True)]),
      (''bypass'', app_object [(BypassAnnotation, JStr BypassValue)] ''F'' [replicas ''1'']),
      (''released'', app_object [] ''E'' [replicas ''1'']),
      (''relabelled'',
         object_of (kustomize_labels ''mallory'' ''evil'') [] FluxKustomizeManager ''F''
           [replicas ''9'']),
      (''stripped'', object_of [] [] FluxKustomizeManager ''F'' [replicas ''9'']),
      (''stripped_bypass'',
         object_of [] [(BypassAnnotation, JStr BypassValue)] FluxKustomizeManager ''F'' [replicas ''9'']),
      (''helm'',
         object_of (helm_labels ''shop'' ''chart'') [] FluxHelmManager ''H'' [replicas ''1'']),
      (''helm_paused'',
         object_of (helm_labels ''shop'' ''chart'') [] FluxHelmManager ''H''
           [replicas ''1'', (''paused'', JBool True)]),
      (''helm_claimed'',
         object_of (helm_labels ''shop'' ''chart'' @ kustomize_labels ''mallory'' ''evil'') []
           FluxHelmManager ''H'' [replicas ''1'']),
      (''helm_scaled'',
         object_of (helm_labels ''shop'' ''chart'' @ kustomize_labels ''mallory'' ''evil'') []
           FluxHelmManager ''H'' [replicas ''9'']),
      (''helm_tagged'',
         object_of ((KustomizeLabelNamespace, JStr ''mallory'') # helm_labels ''shop'' ''chart'') []
           FluxHelmManager ''H'' [replicas ''1'']),
      (''helm_emptied'',
         object_of (kustomize_labels ''mallory'' [] @ helm_labels ''shop'' ''chart'') []
           FluxHelmManager ''H'' [replicas ''9'']),
      (''unmanaged'', object_of [] [] ''kubectl'' ''E'' [replicas ''1''])]"

definition ex_parse :: "string \<Rightarrow> json_map option" where
  "ex_parse = map_of ex_objects"

definition ex_flux_paths :: "unit field_path list" where
  "ex_flux_paths =
     [names (label_path KustomizeLabelName), names (label_path KustomizeLabelNamespace),
      names [''spec'', ''replicas'']]"

definition ex_helm_paths :: "unit field_path list" where
  "ex_helm_paths =
     [names (label_path HelmLabelName), names (label_path HelmLabelNamespace),
      names [''spec'', ''replicas'']]"

definition ex_fieldsV1 :: "string \<Rightarrow> unit field_path list option" where
  "ex_fieldsV1 = map_of [(''F'', ex_flux_paths), (''H'', ex_helm_paths), (''E'', [])]"

fun ex_encode :: "json \<Rightarrow> string" where
  "ex_encode (JStr s) = s"
| "ex_encode _ = []"

definition ex_deps :: "(unit field_path list, unit) deps" where
  "ex_deps =
     reference_deps ex_parse ex_encode ex_fieldsV1 (\<lambda>_. []) word_regexp word_selector"

text \<open>The owner's inventory lists the object; its reconciler runs as \<open>flux-system/deployer\<close>.\<close>

definition ex_owner :: json_map where
  "ex_owner =
     [(''spec'', JObj [(''serviceAccountName'', JStr ''deployer'')]),
      (''status'', JObj [(''inventory'', JObj [(''entries'',
         JArr [JObj [(''id'', JStr ''shop_web_apps_Deployment'')]])])])]"

text \<open>The Kustomization \<open>evil\<close> ignores the labels and the spec of every object.\<close>

definition evil_owner :: json_map where
  "evil_owner =
     [(''spec'', JObj
         [(''serviceAccountName'', JStr ''robot''),
          (''ignore'', JArr
             [JObj [(''paths'', JArr [JStr ''/spec'', JStr ''/metadata/labels''])]])])]"

definition ex_owners :: "(string \<times> json_map) list" where
  "ex_owners = [(''flux-system/apps'', ex_owner), (''mallory/evil'', evil_owner)]"

definition ex_client :: client where
  "ex_client =
     \<lparr>get_namespace = (\<lambda>n timeout ns.
        Some \<lparr>ns_Labels = Map.empty, ns_DeletionTimestamp = None\<rparr>),
      get_unstructured = (\<lambda>n timeout gvk ns name.
        if ownerGVK ManagedByKustomization = Some gvk
        then map_of ex_owners (ns @ ''/'' @ name) else None)\<rparr>"

definition ex_handler :: handler where
  "ex_handler =
     \<lparr>FluxNamespace = ''flux-system'', AuditOnly = False, NamespaceLabel = [],
      NamespaceLabelValue = [], NamespaceFetchTimeout = 0, Client = Some ex_client,
      SystemControllerSAs = DefaultSystemControllerServiceAccounts\<rparr>"

definition alice :: user_info where
  "alice = \<lparr>Username = ''alice'', Groups = [''devs'']\<rparr>"

definition service_account :: "string \<Rightarrow> string \<Rightarrow> user_info" where
  "service_account ns name = \<lparr>Username = sa_username ns name, Groups = [sa_group]\<rparr>"

definition ex_request :: "string \<Rightarrow> user_info \<Rightarrow> string \<Rightarrow> string \<Rightarrow> request" where
  "ex_request operation user old new =
     \<lparr>req_Operation = operation, req_SubResource = [], req_Namespace = ''shop'',
      req_Name = ''web'',
      req_Kind = \<lparr>gvk_Group = ''apps'', gvk_Version = ''v1'', gvk_Kind = ''Deployment''\<rparr>,
      req_Resource =
        \<lparr>gvr_Group = ''apps'', gvr_Version = ''v1'', gvr_Resource = ''deployments''\<rparr>,
      req_UserInfo = user, req_Object = new, req_OldObject = old\<rparr>"

definition ex_world :: world where
  "ex_world = \<lparr>w_metrics = [], w_reads = 0\<rparr>"

text \<open>Requests on the stored object, ignore rules, a command line, a write and a reconciler.\<close>

abbreviation ex_update :: "string \<Rightarrow> request" where
  "ex_update new \<equiv> ex_request Update alice ''stored'' new"

abbreviation ex_create :: "string \<Rightarrow> request" where
  "ex_create new \<equiv> ex_request Create alice [] new"

abbreviation ex_delete :: "user_info \<Rightarrow> request" where
  "ex_delete user \<equiv> ex_request Delete user ''stored'' []"

abbreviation ex_old :: json_map where "ex_old \<equiv> app_object [] ''F'' [replicas ''1'']"
abbreviation ex_new :: json_map where "ex_new \<equiv> app_object [] ''F'' [replicas ''9'']"

abbreviation ex_gvk :: group_version_kind where
  "ex_gvk \<equiv> \<lparr>gvk_Group = ''apps'', gvk_Version = ''v1'', gvk_Kind = ''Deployment''\<rparr>"

definition ex_rules :: "ignore_rule list" where
  "ex_rules =
     [\<lparr>ir_paths = [''/spec'', ''/metadata/labels''], ir_target = []\<rparr>,
      \<lparr>ir_paths = [''spec''], ir_target = [(''labelSelector'', JStr ''(?'')]\<rparr>]"

text \<open>Rules with targets: one for the object, one for objects whose name is just \<open>we\<close>.\<close>

definition ex_target :: "string \<Rightarrow> json_map" where
  "ex_target name =
     [(''kind'', JStr ''Deployment''), (''name'', JStr name), (''labelSelector'', JStr ''tier'')]"

definition ex_target_rules :: "ignore_rule list" where
  "ex_target_rules =
     [\<lparr>ir_paths = [''/spec'', []], ir_target = ex_target ''web''\<rparr>,
      \<lparr>ir_paths = [''/metadata''], ir_target = ex_target ''we''\<rparr>]"

definition ex_command_line :: command_line where
  "ex_command_line =
     \<lparr>fl_webhook_port = None, fl_metrics_bind_addr = None, fl_health_probe_bind_addr = None,
      fl_cert_dir = Some ''/tmp/certs'', fl_audit_only = None, fl_flux_namespace = None, fl_webhook_name = None,
      fl_vwc_resync_interval = Some 60, fl_discovery_interval = Some 30,
      fl_namespace_label = Some ''guarded'', fl_namespace_label_value = None,
      fl_namespace_fetch_timeout = None, fl_system_controller_sas = None,
      fl_kube_api_qps = None, fl_kube_api_burst = Some 20,
      fl_failure_policy = Some ''Fail'', fl_webhook_timeout = None,
      fl_extra_excluded_namespaces = Some ''monitoring, kube-system,'',
      fl_leader_election =
        \<lparr>le_Enable = True, le_ReleaseOnCancel = True, le_LeaseDuration = 35000000000,
         le_RenewDeadline = 30000000000, le_RetryPeriod = 5000000000\<rparr>\<rparr>"

definition ex_startup :: "startup_error + (handler \<times> webhook_config_reconciler)" where
  "ex_startup = startup (\<lambda>_. []) ex_command_line (Some ex_client)"

text \<open>Enforcing in every namespace, with failure policy \<open>Fail\<close> and a resync of ninety minutes.\<close>

definition ex_enforcing :: command_line where
  "ex_enforcing =
     ex_command_line\<lparr>fl_namespace_label := None, fl_vwc_resync_interval := None,
       fl_discovery_interval := None\<rparr>"

definition ex_environment :: environment where
  "ex_environment key = (if key = ''VWC_RESYNC_INTERVAL'' then ''1h30m'' else [])"

definition ex_serving :: "startup_error + (handler \<times> webhook_config_reconciler)" where
  "ex_serving = startup ex_environment ex_enforcing (Some ex_client)"

text \<open>A manager on which every call succeeds, in a cluster without the HelmRelease CRD.\<close>

definition ex_manager :: manager where
  "ex_manager =
     \<lparr>mg_Client = ex_client, mg_Registry = [''workqueue_depth''], mg_NewRecorder = None, mg_SetupController = (\<lambda>r. None),
      mg_AddReadyzCheck = (\<lambda>name. None), mg_Add = None,
      mg_GetInformer = (\<lambda>obj. Some obj \<noteq> map_option CachedUnstructured (ownerGVK ManagedByHelmRelease)),
      mg_Start = None\<rparr>"

definition ex_cache_options :: "unit cache_options" where
  "ex_cache_options =
     CacheOptions (\<lambda>u. the (ownerGVK ManagedByKustomization)) (\<lambda>obj. Some obj)"

definition ex_main :: "int \<times> unit main_action list" where
  "ex_main = main ex_cache_options (\<lambda>options. Some ex_manager) ex_environment ex_enforcing"

text \<open>A conversion of the configuration, and the state of a controller that just started.\<close>

definition ex_uns :: json_map where
  "ex_uns = [(''kind'', JStr ''ValidatingWebhookConfiguration'')]"

definition ex_conv :: "webhook_configuration \<Rightarrow> string + json_map" where
  "ex_conv vwc = Inr ex_uns"

definition ex_write :: api_write where
  "ex_write =
     \<lparr>aw_Operation = Update, aw_Group = ''apps'', aw_Version = ''v1'', aw_SubResource = [],
      aw_Namespaced = True,
      aw_NamespaceLabels = [''kubernetes.io/metadata.name'' \<mapsto> ''shop''],
      aw_Labels = Map.empty, aw_OldLabels = [HelmLabelName \<mapsto> ''chart'']\<rparr>"

definition ex_reconciler :: webhook_config_reconciler where
  "ex_reconciler =
     \<lparr>rc_WebhookName = ''drift'', rc_WebhookNamespace = ''flux-system'',
      rc_WebhookService = ''svc'', rc_WebhookPath = ''/validate'', rc_ResyncInterval = 60,
      rc_FailurePolicy = [], rc_TimeoutSeconds = 0, rc_ExtraExcludedNamespaces = [''monitoring''],
      HasEventRecorder = True\<rparr>"

subsection \<open>The example cluster satisfies the interfaces\<close>

lemma ex_decoding: "object_decoding ex_deps set"
  unfolding ex_deps_def by (rule ref_decoding.object_decoding_axioms)

lemma ex_fieldset: "deps_fieldset ex_deps set"
  using ex_decoding by (rule object_decoding.axioms)

lemma ex_fieldpath: "fieldpath_set ex_deps set"
  using ex_fieldset by (rule deps_fieldset.axioms)

lemma ex_access: "nested_access ex_deps"
  unfolding ex_deps_def by (rule ref_access.nested_access_axioms)

lemma ex_guarded:
  "\<exists>om old w'. guarded_request ex_deps ex_handler (ex_update new) ex_world = Some (om, old, w')"
  if "new \<in> {''paused'', ''scaled'', ''bypass''}"
proof -
  have "list_all (\<lambda>new. \<not> Option.is_none (guarded_request ex_deps ex_handler (ex_update new) ex_world))
      [''paused'', ''scaled'', ''bypass'']"
    by code_simp
  with that show ?thesis by (auto simp: Option.is_none_def)
qed

text \<open>The accounts the two Kustomizations declare act for them.\<close>

lemma ex_account:
  assumes "Client h = Some ex_client"
  shows "reconciler_account ex_deps h (owner_info ''flux-system'' ''apps'')
      (service_account ''flux-system'' ''deployer'')"
    and "reconciler_account ex_deps h (owner_info ''mallory'' ''evil'') (service_account ''mallory'' ''robot'')"
proof -
  have "NestedString ex_deps ex_owner [''spec'', ''serviceAccountName''] = ''deployer''"
    "NestedString ex_deps evil_owner [''spec'', ''serviceAccountName''] = ''robot''"
    by code_simp+
  then show "reconciler_account ex_deps h (owner_info ''flux-system'' ''apps'')
      (service_account ''flux-system'' ''deployer'')"
    and "reconciler_account ex_deps h (owner_info ''mallory'' ''evil'') (service_account ''mallory'' ''robot'')"
    using assms
    by (intro reconciler_account_declared;
        simp add: service_account_def owner_info_def declared_in_read_def ex_client_def
          ownerGVK_def ex_owners_def)+
qed

lemma ex_pattern_order: "pattern_order_ok ex_deps"
  by (simp add: pattern_order_ok_def ex_deps_def reference_deps_def list_fieldset_def deps.defs
      pattern_keys_def)

lemma ex_started: "\<exists>h r. ex_startup = Inr (h, r)"
proof -
  have "case ex_startup of Inl _ \<Rightarrow> False | Inr _ \<Rightarrow> True" by code_simp
  then show ?thesis by (auto split: sum.splits)
qed

lemma ex_serving_started: "\<exists>h r. ex_serving = Inr (h, r)"
proof -
  have "case ex_serving of Inl _ \<Rightarrow> False | Inr _ \<Rightarrow> True" by code_simp
  then show ?thesis by (auto split: sum.splits)
qed

lemma ex_serving_client: "ex_serving = Inr (h, r) \<Longrightarrow> Client h = Some ex_client"
  by (auto simp: ex_serving_def startup_def Let_def split: sum.splits if_splits)

lemma ex_main_run:
  "main ex_cache_options (\<lambda>options. Some ex_manager) ex_environment ex_enforcing = (0, snd ex_main)"
  "StartManager \<in> set (snd ex_main)"
proof -
  have 0: "fst ex_main = 0" by code_simp
  then show main: "main ex_cache_options (\<lambda>options. Some ex_manager) ex_environment ex_enforcing =
      (0, snd ex_main)"
    by (simp add: ex_main_def prod_eq_iff)
  show "StartManager \<in> set (snd ex_main)"
    by (rule main_cases [OF main]) (simp_all add: wired_calls_def)
qed

definition ex_ready :: process where
  "ex_ready =
     \<lparr>pr_listening = True, pr_cachesSynced = True, pr_synced = \<lparr>ch_closed = True\<rparr>,
      pr_started = True, pr_leader = False\<rparr>"

lemma ex_ready_reachable: "(manager_step (snd ex_main))\<^sup>*\<^sup>* process_start ex_ready"
proof -
  let ?p1 = "process_start\<lparr>pr_listening := True\<rparr>" and ?a = "snd ex_main"
  let ?p2 = "?p1\<lparr>pr_cachesSynced := True\<rparr>"
  have "manager_step ?a process_start ?p1" "manager_step ?a ?p1 ?p2"
    by (rule manager_step.intros)+
  moreover have "manager_step ?a ?p2 ex_ready"
  proof -
    have "AddRunnable cachesSynced_new \<in> set ?a"
      by (rule main_cases [OF ex_main_run(1)]) (simp_all add: wired_calls_def)
    from manager_step.start [OF this, of ?p2 "\<lparr>ch_closed = True\<rparr>"] show ?thesis
      by (simp add: process_start_def ex_ready_def cachesSynced_new_def
          cachesSynced_Start_def cachesSynced_NeedLeaderElection_def)
  qed
  ultimately show ?thesis by (meson converse_rtranclp_into_rtranclp rtranclp.rtrancl_refl)
qed

end
