(* ===== verification/Policy.thy ===== *)
theory Policy
  imports Rules
begin

section \<open>The admission policy\<close>

text \<open>
  What the webhook promises, as one predicate over the request and what the cluster says of it,
  without messages, reasons, metrics or responses; and that \<open>Handle\<close> implements it.
\<close>

subsection \<open>The policy\<close>

text \<open>What a requester other than the owning reconciler may do to a managed object.\<close>

definition guarded_policy ::
    "('s, 'k) deps \<Rightarrow> ('s \<Rightarrow> 'k field_path set) \<Rightarrow> handler \<Rightarrow> request \<Rightarrow> object_meta \<Rightarrow>
       object_meta \<Rightarrow> flux_management_info \<Rightarrow> world \<Rightarrow> bool" where
  "guarded_policy D members h req om old fi w =
     (if req_Operation req = Create then create_rule D h req om fi w
      else if req_Operation req = Update then update_rule D members h req om old fi w
      else if req_Operation req = Delete then delete_rule D members h req om fi w
      else True)"

text \<open>
  Out of scope everything is allowed, an undecodable request in scope nothing; an unmanaged
  object is free, and the owner of a managed one may do all but change the ownership labels.
\<close>

definition admission_policy ::
    "('s, 'k) deps \<Rightarrow> ('s \<Rightarrow> 'k field_path set) \<Rightarrow> handler \<Rightarrow> request \<Rightarrow> world \<Rightarrow> bool" where
  "admission_policy D members h req w =
     (case scope_world h req w of
        None \<Rightarrow> True
      | Some w1 \<Rightarrow>
          (case extractRequestMetadata D req of
             None \<Rightarrow> False
           | Some (om, old) \<Rightarrow>
               let fi = request_fluxInfo req om old;
                   (owner, w2) = isOwningFluxReconciler D h req fi w1
               in
               \<not> IsManaged fi \<or>
               (if owner then isOwningController (req_Operation req) (om_Labels om) (om_Labels old)
                else guarded_policy D members h req om old fi w2)))"

subsection \<open>The handler implements it\<close>

lemma allows_out_of_scope:
  assumes "scope_world h req w = None" and "Client h \<noteq> None"
  shows "allows D h req w"
proof (cases "req_SubResource req \<noteq> [] \<or> gvr_Group (req_Resource req) \<in> set ExcludedGroups")
  case True
  then show ?thesis by (auto simp: allows_def Handle_def admission_Allowed_def)
next
  case False
  obtain ro w1 where c: "checkNamespaceScope h req w = Some (ro, w1)"
    using assms(2) checkNamespaceScope_None_iff [of h req w]
    by (cases "checkNamespaceScope h req w") auto
  then obtain resp where "ro = Some resp"
    using assms(1) False by (auto simp: scope_world_def split: option.splits)
  with c False show ?thesis
    by (auto simp: allows_def Handle_def checkNamespaceScope_def admission_Allowed_def Let_def
        split: option.splits if_splits)
qed

lemma allows_audit: "AuditOnly h \<Longrightarrow> Handle D h req w \<noteq> None \<Longrightarrow> allows D h req w"
  using Handle_answer [of D h req w] by (auto simp: allows_def answer_ok_def)

lemma allows_undecodable:
  assumes "in_scope h req w w1" and "extractRequestMetadata D req = None" and "\<not> AuditOnly h"
  shows "\<not> allows D h req w"
  using answered_with_metadata_error [OF assms(1,2)] assms(3)
    allow_not_deny [of ReasonDeniedMetadataError]
  by (cases "Handle D h req w") (auto simp: allows_def answered_with_def)

lemma allows_unmanaged:
  assumes "in_scope h req w w1" and "extractRequestMetadata D req = Some (om, old)"
    and "\<not> IsManaged (request_fluxInfo req om old)"
  shows "allows D h req w"
  using assms(2,3)
  by (simp add: allows_def Handle_in_scope [OF assms(1)] handle_scoped_unmanaged
      admission_Allowed_def)

lemma decide_other_unknown:
  assumes "req_Operation req \<notin> {Create, Update, Delete}"
  shows "dr_allowed (fst (decide_other D h req om old fi w))"
  using assms
  by (auto simp: decide_other_def checkBypassAnnotation_def checkReconcileDisabled_def
      operationDecision_def split: option.splits)

lemma guarded_request_intro:
  "in_scope h req w w1 \<Longrightarrow> extractRequestMetadata D req = Some (om, old) \<Longrightarrow>
     IsManaged (request_fluxInfo req om old) \<Longrightarrow>
     isOwningFluxReconciler D h req (request_fluxInfo req om old) w1 = (False, w2) \<Longrightarrow>
     guarded_request D h req w = Some (om, old, w2)"
  by (simp add: guarded_request_def)

context object_decoding
begin

lemma allows_guarded:
  assumes "guarded_request D h req w = Some (om, old, w')" and "\<not> AuditOnly h"
  shows "allows D h req w \<longleftrightarrow>
     guarded_policy D members h req om old (request_fluxInfo req om old) w'"
proof -
  consider "req_Operation req = Create" | "req_Operation req = Update"
    | "req_Operation req = Delete" | "req_Operation req \<notin> {Create, Update, Delete}"
    by blast
  then show ?thesis
    using create_allows [OF assms] update_allows [OF assms] delete_allows [OF assms]
      allows_other [OF assms] decide_other_unknown [of req]
    by cases (simp_all add: guarded_policy_def)
qed

lemma Handle_implements_policy:
  assumes "Client h \<noteq> None"
  shows "allows D h req w \<longleftrightarrow> AuditOnly h \<or> admission_policy D members h req w"
proof (cases "AuditOnly h")
  case True
  have "Handle D h req w \<noteq> None"
    using assms checkNamespaceScope_None_iff [of h req w] by (auto simp: Handle_None_iff)
  with True allows_audit show ?thesis by blast
next
  case enforce: False
  show ?thesis
  proof (cases "scope_world h req w")
    case None
    with assms enforce allows_out_of_scope show ?thesis by (simp add: admission_policy_def)
  next
    case scope: (Some w1)
    show ?thesis
    proof (cases "extractRequestMetadata D req")
      case None
      with scope enforce allows_undecodable show ?thesis
        by (simp add: admission_policy_def)
    next
      case (Some p)
      obtain om old where ext: "extractRequestMetadata D req = Some (om, old)"
        using Some by (cases p) auto
      let ?fi = "request_fluxInfo req om old"
      obtain owner w2 where own: "isOwningFluxReconciler D h req ?fi w1 = (owner, w2)"
        by fastforce
      have policy: "admission_policy D members h req w \<longleftrightarrow>
          \<not> IsManaged ?fi \<or>
          (if owner then isOwningController (req_Operation req) (om_Labels om) (om_Labels old)
           else guarded_policy D members h req om old ?fi w2)"
        using scope ext own by (simp add: admission_policy_def Let_def)
      consider "\<not> IsManaged ?fi" | "IsManaged ?fi" "owner" | "IsManaged ?fi" "\<not> owner" by blast
      then show ?thesis
      proof cases
        case 1
        with allows_unmanaged [OF scope ext] policy show ?thesis by simp
      next
        case 2
        with owner_allows [OF scope ext _ _ enforce] own policy enforce show ?thesis by simp
      next
        case 3
        with allows_guarded [OF guarded_request_intro [OF scope ext] enforce] own policy enforce
        show ?thesis by simp
      qed
    qed
  qed
qed

end

end
