(* ===== verification/Last_Applied.thy ===== *)
theory Last_Applied
  imports Admission Policy Identity
begin

section \<open>The stored object and what Flux last applied\<close>

text \<open>
  The life of one object: its reconciler writes it and finally removes it, everybody else creates,
  updates and deletes in between.  The state keeps, beside the stored object, what the
  reconciler wrote last and still wants, and the invariant says that the two agree on the fields
  Flux applied.  The theory also shows the other half of the contract, that the chain never
  refuses the reconciler.
\<close>

subsection \<open>Definitions\<close>

text \<open>
  What the reconciler applied last: \<^const>\<open>None\<close> before its first write, after it removed the
  object, and after a deletion that is excused.
\<close>

record sync_state =
  ss_Stored :: "string option"
  ss_Applied :: "string option"

definition still_applied ::
    "('s, 'k) deps \<Rightarrow> handler \<Rightarrow> flux_management_info \<Rightarrow> request \<Rightarrow> world \<Rightarrow> string option \<Rightarrow>
       string option" where
  "still_applied D h fi req w applied = (if excused_delete D h fi req w then None else applied)"

text \<open>
  What the reconciler of \<open>fi\<close> writes: the owner's labels and the paths \<open>P\<close> are among the fields
  it applies, and it sets no protection-disabling annotation; or it removes the object.
\<close>

definition reconciles ::
    "('s, 'k) deps \<Rightarrow> ('s \<Rightarrow> 'k field_path set) \<Rightarrow> handler \<Rightarrow> flux_management_info \<Rightarrow>
       'k field_path set \<Rightarrow> request \<Rightarrow> world \<Rightarrow> bool" where
  "reconciles D members h fi P req w =
     (fst (isOwningFluxReconciler D h req fi w) \<and>
      (req_Operation req = Delete \<or> protected_object D members fi P (req_Object req)))"

inductive sync_step ::
    "api_server \<Rightarrow> bool \<Rightarrow> ('s, 'k) deps \<Rightarrow> ('s \<Rightarrow> 'k field_path set) \<Rightarrow> handler \<Rightarrow>
       webhook_config_reconciler \<Rightarrow> flux_management_info \<Rightarrow> 'k field_path set \<Rightarrow>
       sync_state \<Rightarrow> sync_state \<Rightarrow> bool"
  for S reachable D members h r fi P where
  others_write:
    "foreign_write D members h r fi P req w \<Longrightarrow> fits req stored \<Longrightarrow>
     server_admits S reachable D h r req w \<Longrightarrow>
     sync_step S reachable D members h r fi P
       \<lparr>ss_Stored = stored, ss_Applied = applied\<rparr>
       \<lparr>ss_Stored = written req, ss_Applied = still_applied D h fi req w applied\<rparr>"
| reconciler_writes:
    "reconciles D members h fi P req w \<Longrightarrow> fits req stored \<Longrightarrow>
     server_admits S reachable D h r req w \<Longrightarrow>
     sync_step S reachable D members h r fi P
       \<lparr>ss_Stored = stored, ss_Applied = applied\<rparr>
       \<lparr>ss_Stored = written req, ss_Applied = written req\<rparr>"

inductive_cases sync_stepE: "sync_step S reachable D members h r fi P s s'"

text \<open>
  As long as the reconciler wants the object it exists, is under protection, and agrees with what
  the reconciler applied last.
\<close>

definition in_sync ::
    "('s, 'k) deps \<Rightarrow> ('s \<Rightarrow> 'k field_path set) \<Rightarrow> flux_management_info \<Rightarrow>
       'k field_path set \<Rightarrow> sync_state \<Rightarrow> bool" where
  "in_sync D members fi P s =
     (case ss_Applied s of
        None \<Rightarrow> True
      | Some a \<Rightarrow>
          (case ss_Stored s of
             None \<Rightarrow> False
           | Some raw \<Rightarrow> protected_object D members fi P raw \<and> agrees D P a raw))"

subsection \<open>The invariant\<close>

lemma reconciler_in_sync:
  "reconciles D members h fi P req w \<Longrightarrow>
     in_sync D members fi P \<lparr>ss_Stored = written req, ss_Applied = written req\<rparr>"
  by (auto simp: in_sync_def written_def reconciles_def agrees_refl)

context object_decoding
begin

lemma others_in_sync:
  assumes foreign: "foreign_write D members h r fi P req w" and fits: "fits req stored"
    and admits: "server_admits S reachable D h r req w"
    and api: "api_dispatch S" and mode: "enforcing reachable h r" and law: "protection_law fi P"
    and sync: "in_sync D members fi P \<lparr>ss_Stored = stored, ss_Applied = applied\<rparr>"
  shows "in_sync D members fi P
    \<lparr>ss_Stored = written req, ss_Applied = still_applied D h fi req w applied\<rparr>"
proof (cases "applied = None \<or> excused_delete D h fi req w")
  case True
  then show ?thesis by (auto simp: in_sync_def still_applied_def)
next
  case False
  with sync obtain a raw where a: "applied = Some a" "stored = Some raw"
    "protected_object D members fi P raw" "agrees D P a raw"
    by (auto simp: in_sync_def split: option.splits)
  from foreign_write_protects [OF foreign _ admits _ api mode law a(3)] fits False a(2)
  obtain raw' where "written req = Some raw'" "protected_object D members fi P raw'"
    "agrees D P raw raw'"
    by auto
  with a False show ?thesis by (auto simp: in_sync_def still_applied_def intro: agrees_trans)
qed

lemma sync_step_in_sync:
  assumes "sync_step S reachable D members h r fi P s s'"
    and "api_dispatch S" and "enforcing reachable h r"
    and "protection_law fi P" and "in_sync D members fi P s"
  shows "in_sync D members fi P s'"
  using assms by cases (auto intro: others_in_sync reconciler_in_sync)

lemma sync_steps_in_sync:
  assumes "(sync_step S reachable D members h r fi P)\<^sup>*\<^sup>* s s'"
    and "api_dispatch S" and "enforcing reachable h r"
    and "protection_law fi P" and "in_sync D members fi P s"
  shows "in_sync D members fi P s'"
  using assms by (induction rule: rtranclp_induct) (auto intro: sync_step_in_sync)

end

subsection \<open>The reconciler is never refused\<close>

lemma call_entries_admits:
  assumes "reachable \<Longrightarrow> \<forall>w. allows D h req w"
    and "\<not> reachable \<Longrightarrow> \<forall>vw\<in>set vws. vw_FailurePolicy vw = ''Ignore''"
  shows "fst (call_entries S reachable D h req vws w)"
  using assms
proof (induction vws arbitrary: w)
  case Nil
  show ?case by simp
next
  case (Cons vw vws)
  have IH: "fst (call_entries S reachable D h req vws w')" for w'
    using Cons by simp
  show ?case
  proof (cases reachable)
    case True
    with Cons.prems(1) have "allows D h req w" by blast
    with IH True show ?thesis by (auto simp: allows_def split: option.splits)
  next
    case False
    with Cons.prems(2) IH show ?thesis by simp
  qed
qed

lemma reconciler_allowed:
  assumes "extractRequestMetadata D req = Some (om, old)" and "Client h \<noteq> None"
    and "\<forall>w. fst (isOwningFluxReconciler D h req (request_fluxInfo req om old) w)"
    and "isOwningController (req_Operation req) (om_Labels om) (om_Labels old)"
  shows "allows D h req w"
proof (cases "scope_world h req w")
  case None
  then show ?thesis using assms(2) by (rule allows_out_of_scope)
next
  case (Some w1)
  obtain w2 where own: "isOwningFluxReconciler D h req (request_fluxInfo req om old) w1 = (True, w2)"
    using assms(3) by (metis prod.collapse)
  have run: "Handle D h req w \<noteq> None"
    using assms(2) checkNamespaceScope_None_iff [of h req w] by (auto simp: Handle_None_iff)
  show ?thesis
  proof (cases "IsManaged (request_fluxInfo req om old) \<and> \<not> AuditOnly h")
    case True
    with owner_allows [OF Some assms(1) _ own] assms(4) show ?thesis by blast
  next
    case False
    with allows_unmanaged [OF Some assms(1)] allows_audit run show ?thesis by blast
  qed
qed

text \<open>For an account that every read recognises, and with the ownership labels kept.\<close>

lemma reconciler_admitted:
  assumes "extractRequestMetadata D req = Some (om, old)" and "Client h \<noteq> None"
    and "reconciler_account D h (request_fluxInfo req om old) (req_UserInfo req)"
    and "req_Operation req = Update \<longrightarrow> same_ownership_labels (om_Labels om) (om_Labels old)"
    and "reachable \<or> rc_FailurePolicy r \<in> {[], ''Ignore''}"
  shows "server_admits S reachable D h r req w"
  unfolding server_admits_def
proof (rule call_entries_admits)
  show "\<forall>w. allows D h req w"
    using reconciler_allowed [OF assms(1,2)] reconciler_account_recognised [OF assms(3)] assms(4)
    by (simp add: isOwningController_iff)
  assume "\<not> reachable"
  with assms(5) show "\<forall>vw\<in>set (vwc_Webhooks (desired_configuration r)). vw_FailurePolicy vw = ''Ignore''"
    by (auto simp: desired_configuration_def Let_def entry_policy)
qed

text \<open>
  The stored object is gone, or decodes and carries the four ownership labels of the object that
  the request writes.
\<close>

definition labels_intact :: "('s, 'k) deps \<Rightarrow> request \<Rightarrow> string option \<Rightarrow> bool" where
  "labels_intact D req stored =
     (case stored of
        None \<Rightarrow> True
      | Some raw \<Rightarrow>
          (case (extractMetadata D (req_Object req), extractMetadata D raw) of
             (Some new, Some old) \<Rightarrow> same_ownership_labels (om_Labels new) (om_Labels old)
           | _ \<Rightarrow> False))"

context object_decoding
begin

text \<open>The reconciler can create or repair such an object.\<close>

lemma repair_admitted:
  assumes client: "Client h \<noteq> None" and owner: "flux_owner fi"
    and account: "reconciler_account D h fi (req_UserInfo req)"
    and op: "req_Operation req \<in> {Create, Update}" and fits: "fits req stored"
    and prot: "protected_object D members fi P (req_Object req)"
    and labels: "labels_intact D req stored"
    and "reachable \<or> rc_FailurePolicy r \<in> {[], ''Ignore''}"
  shows "server_admits S reachable D h r req w"
proof -
  obtain om where om: "extractMetadata D (req_Object req) = Some om"
    and info: "GetFluxManagementInfo (om_Labels om) = fi"
    using prot owner by (rule protected_object_managed)
  have "\<exists>old. extractRequestMetadata D req = Some (om, old) \<and>
      (req_Operation req = Update \<longrightarrow> same_ownership_labels (om_Labels om) (om_Labels old))"
    using op fits labels om
    by (auto simp: extractRequestMetadata_def fits_def labels_intact_def split: if_splits option.splits)
  then obtain old where ext: "extractRequestMetadata D req = Some (om, old)"
    and same: "req_Operation req = Update \<longrightarrow> same_ownership_labels (om_Labels om) (om_Labels old)"
    by blast
  have "request_fluxInfo req om old = fi"
    using info owner by (simp add: request_fluxInfo_def Let_def flux_owner_def)
  with account have "reconciler_account D h (request_fluxInfo req om old) (req_UserInfo req)" by simp
  from reconciler_admitted [OF ext client this same assms(8)] show ?thesis .
qed

end

end
