(* ===== verification/Further_Facts.thy ===== *)
theory Further_Facts
  imports Example_Cluster Identity Last_Applied
begin

section \<open>Further facts\<close>

text \<open>
  Facts about single operations, beside the properties of the root theory: panics, undecodable
  metadata, the empty diff, value equality, names and identities, and what start-up promises of
  the handler and of the configuration.
\<close>

text \<open>
  The handler panics in one situation only: a namespaced request in scope under a configured
  namespace label, on a handler without a client.
\<close>

theorem panics_exactly_without_client:
  "Handle D h req w = None \<longleftrightarrow>
     req_SubResource req = [] \<and> gvr_Group (req_Resource req) \<notin> set ExcludedGroups \<and>
     req_Namespace req \<noteq> [] \<and> req_Namespace req \<notin> set ExcludedNamespaces \<and>
     NamespaceLabel h \<noteq> [] \<and> Client h = None"
  by (simp add: Handle_None_iff checkNamespaceScope_None_iff)

text \<open>
  A request in scope whose metadata cannot be decoded is denied.
\<close>

theorem unreadable_metadata_denied:
  assumes "in_scope h req w w1" and "extractRequestMetadata D req = None"
  shows "answered_with D h req w ReasonDeniedMetadataError"
  using assms by (rule answered_with_metadata_error)

lemma unreadable_metadata_denied_witness:
  "answered_with ex_deps ex_handler (ex_update ''garbage'') ex_world ReasonDeniedMetadataError"
proof (rule unreadable_metadata_denied)
  show "in_scope ex_handler (ex_update ''garbage'') ex_world ex_world" by code_simp
  show "extractRequestMetadata ex_deps (ex_update ''garbage'') = None"
    by (simp add: ex_request_def ex_deps_def extractRequestMetadata_def extractMetadata_def
        parse_object_def ex_parse_def ex_objects_def)
qed

text \<open>
  Within the depth limit, the diff is empty exactly when the objects are equal as values.
\<close>

theorem diff_empty_iff_equal:
  assumes "fieldpath_set D members" and "wf_map old" and "wf_map new"
    and "object_depth (JObj old) \<le> maxDiffDepth" and "object_depth (JObj new) \<le> maxDiffDepth"
  shows "fs_Empty D (ComputeFieldDiff D (Some old) (Some new)) \<longleftrightarrow>
     abs_json (JObj old) = abs_json (JObj new)"
  using assms by (rule fieldpath_set.ComputeFieldDiff_Empty_iff)

lemma diff_empty_iff_equal_witness: "abs_json (JObj ex_old) \<noteq> abs_json (JObj ex_new)"
proof -
  have "wf_map ex_old" "wf_map ex_new" "object_depth (JObj ex_old) \<le> maxDiffDepth"
    "object_depth (JObj ex_new) \<le> maxDiffDepth" by code_simp+
  from diff_empty_iff_equal [OF ex_fieldpath this]
  have "fs_Empty ex_deps (ComputeFieldDiff ex_deps (Some ex_old) (Some ex_new)) \<longleftrightarrow>
      abs_json (JObj ex_old) = abs_json (JObj ex_new)" .
  moreover have "\<not> fs_Empty ex_deps (ComputeFieldDiff ex_deps (Some ex_old) (Some ex_new))"
    by code_simp
  ultimately show ?thesis by simp
qed

text \<open>
  \<open>valuesEqual\<close> decides equality of JSON values, objects taken as finite maps.
\<close>

theorem valuesEqual_is_semantic_equality:
  assumes "wf_json a" and "wf_json b"
  shows "valuesEqual a b \<longleftrightarrow> abs_json a = abs_json b"
  using assms by (rule valuesEqual_abs)

lemma valuesEqual_is_semantic_equality_witness:
  "abs_json (JObj [(''a'', JNull), (''b'', JBool True)]) =
     abs_json (JObj [(''b'', JBool True), (''a'', JNull)])"
  by (subst valuesEqual_is_semantic_equality [symmetric]) simp_all

text \<open>
  A manager counts as Flux exactly when it is one of the two controllers, or one of them
  followed by a slash and a version.
\<close>

theorem flux_manager_names:
  "isFluxFieldManager m \<longleftrightarrow>
     (\<exists>base\<in>{''kustomize-controller'', ''helm-controller''}. m = base \<or> (\<exists>v. m = base @ ''/'' @ v))"
  using isFluxFieldManager_iff by (simp add: FluxKustomizeManager_def FluxHelmManager_def)

text \<open>
  A service-account identity is parsed from exactly the user names the API server gives service
  accounts, and only with their group.
\<close>

theorem service_account_user_names:
  "ParseServiceAccount u = Some (ns, name) \<longleftrightarrow>
     Username u = sa_username ns name \<and> ''system:serviceaccounts'' \<in> set (Groups u) \<and>
     CHR '':'' \<notin> set ns \<and> CHR '':'' \<notin> set name"
  using ParseServiceAccount_iff by (simp add: sa_group_def)

text \<open>
  What the allow-list recognises: a reserved component user name listed in full, or a service
  account listed by its shorthand; a full service-account user name, or a shorthand in a
  namespace that would spell a reserved name, matches nothing.
\<close>

theorem system_controller_allow_list:
  "IsSystemController u entries \<longleftrightarrow>
     Username u \<in> set entries \<and> HasPrefix (Username u) ''system:'' \<and>
       \<not> HasPrefix (Username u) ''system:serviceaccount:'' \<or>
     (\<exists>ns name. ParseServiceAccount u = Some (ns, name) \<and>
        ns @ '':'' @ name \<in> set entries \<and> \<not> HasPrefix (ns @ '':'' @ name) ''system:'')"
  using IsSystemController_iff by (simp add: system_prefix_def sa_prefix_def)

text \<open>
  The handler \<open>main\<close> starts never panics.
\<close>

theorem started_handler_never_panics:
  assumes "startup env cl mgr = Inr (h, r)"
  shows "Handle D h req w \<noteq> None"
  using startup_Inr(1) [OF assms] by (simp add: Handle_None_iff checkNamespaceScope_None_iff)

lemma started_handler_never_panics_witness:
  "\<exists>h r. ex_startup = Inr (h, r) \<and> Handle ex_deps h (ex_update ''scaled'') ex_world \<noteq> None"
proof -
  obtain h r where hr: "ex_startup = Inr (h, r)" using ex_started by blast
  from started_handler_never_panics [OF hr [unfolded ex_startup_def]] hr show ?thesis by blast
qed

text \<open>
  The configuration \<open>main\<close> starts with is applied as it is: the failure policy is valid, the
  timeout is within the API server's bounds, neither default of the reconciler is used, and the
  handler and the reconciler agree on the Flux namespace.
\<close>

theorem started_configuration_valid:
  assumes "startup env cl mgr = Inr (h, r)"
  shows "vw_FailurePolicy (buildWebhookEntry r name key rules) = rc_FailurePolicy r \<and>
    rc_FailurePolicy r \<in> {''Ignore'', ''Fail''} \<and>
    vw_TimeoutSeconds (buildWebhookEntry r name key rules) = rc_TimeoutSeconds r \<and>
    1 \<le> sint (rc_TimeoutSeconds r) \<and> sint (rc_TimeoutSeconds r) \<le> 30 \<and>
    FluxNamespace h = rc_WebhookNamespace r"
  using startup_Inr(3-6) [OF assms]
  by (auto simp: buildWebhookEntry_def Let_def)

lemma started_configuration_valid_witness:
  "\<exists>h r. ex_startup = Inr (h, r) \<and>
     vw_FailurePolicy (buildWebhookEntry r ''kustomize.w'' KustomizeLabelName wildcardRules) \<in>
       {''Ignore'', ''Fail''}"
proof -
  obtain h r where hr: "ex_startup = Inr (h, r)" using ex_started by blast
  from started_configuration_valid [OF hr [unfolded ex_startup_def]] hr show ?thesis by metis
qed

text \<open>
  The excluded namespaces of the configuration: the three built-in ones, the webhook's own and
  the extra ones, non-empty, in this order and without repetitions.
\<close>

theorem excluded_namespaces_in_order:
  "excludedNamespaces r =
     keep_first ([''kube-system'', ''kube-public'', ''kube-node-lease''] @
       filter (\<lambda>ns. ns \<noteq> []) (rc_WebhookNamespace r # rc_ExtraExcludedNamespaces r))"
  by (rule excludedNamespaces_eq)

text \<open>
  Two field sets conflict exactly when some path of one lies at, above or below one of the other.
\<close>

theorem conflict_iff_comparable_paths:
  assumes "fieldpath_set D members"
  shows "HasFluxManagedFieldConflict D (Some m) (Some f) \<longleftrightarrow>
     (\<exists>p\<in>members m. \<exists>q\<in>members f. comparable p q)"
  unfolding comparable_def by (rule fieldpath_set.HasFluxManagedFieldConflict_iff [OF assms])

lemma conflict_iff_comparable_paths_witness:
  "HasFluxManagedFieldConflict ex_deps (Some [names [''spec'']]) (Some ex_flux_paths)"
  unfolding conflict_iff_comparable_paths [OF ex_fieldpath]
  by (simp add: ex_flux_paths_def comparable_def)

text \<open>
  A conflict is waived exactly when an ignored path lies at or above each of its paths.
\<close>

theorem conflict_waived_iff_ignored:
  assumes "fieldpath_set D members"
  shows "fs_Empty D (WaiveIgnoredConflicts D (Some (GetConflictingFields D (Some m) (Some f))) (Some ig))
     \<longleftrightarrow> (\<forall>p\<in>touched (members m) (members f). covered (members ig) p)"
  using assms
  by (auto simp: fieldpath_set.Empty_iff fieldpath_set.members_WaiveIgnoredConflicts
      fieldpath_set.members_GetConflictingFields touched_def)

lemma conflict_waived_iff_ignored_witness:
  "fs_Empty ex_deps (WaiveIgnoredConflicts ex_deps
     (Some (GetConflictingFields ex_deps (Some [names [''spec'', ''replicas'']]) (Some ex_flux_paths)))
     (Some [names [''spec'']]))"
  unfolding conflict_waived_iff_ignored [OF ex_fieldpath]
  by (auto simp: ex_flux_paths_def touched_def covered_def)

text \<open>
  The handler makes no Prometheus call that panics: every call has a registered name and the
  right number of labels, and the registered names are distinct.
\<close>

theorem metrics_never_mislabelled:
  assumes "Handle D h req w = Some (resp, w')" and "metrics_ok w"
  shows "metrics_ok w' \<and> distinct (map col_Name NewMetricsWithRegistry)"
  using Handle_answer [OF assms(1)] assms(2) by (simp add: answer_ok_def collector_names_distinct)

lemma metrics_never_mislabelled_witness:
  "\<exists>resp w'. Handle ex_deps ex_handler (ex_update ''scaled'') ex_world = Some (resp, w') \<and>
     metrics_ok w'"
proof -
  have "\<not> Option.is_none (Handle ex_deps ex_handler (ex_update ''scaled'') ex_world)" by code_simp
  then obtain resp w' where h: "Handle ex_deps ex_handler (ex_update ''scaled'') ex_world = Some (resp, w')"
    by (auto simp: Option.is_none_def)
  have "metrics_ok ex_world" by (simp add: metrics_ok_def ex_world_def)
  from metrics_never_mislabelled [OF h this] h show ?thesis by blast
qed

text \<open>
  The effective allow-list is the built-in one followed by the new entries in their order,
  without repetitions; a single entry of an invalid form is an error.
\<close>

theorem system_controllers_merged:
  "if \<exists>e\<in>set (splitCSV csv). e \<notin> set DefaultSystemControllerServiceAccounts \<and> \<not> valid_entry e
   then \<exists>err. mergeSystemControllerSAs csv = Inl err
   else mergeSystemControllerSAs csv =
          Inr (keep_first (DefaultSystemControllerServiceAccounts @ splitCSV csv))"
  by (rule mergeSystemControllerSAs_result)

text \<open>
  Every entry of an accepted allow-list recognises some identity: none is silently inert.
\<close>

theorem accepted_entries_are_live:
  assumes "mergeSystemControllerSAs csv = Inr entries" and "e \<in> set entries"
  shows "\<exists>u. IsSystemController u [e]"
proof -
  have "valid_entry e"
    using mergeSystemControllerSAs_result [of csv] assms defaults_valid
    by (auto simp: list_all_iff split: if_splits)
  then show ?thesis by (rule valid_entry_live)
qed

lemma accepted_entries_are_live_witness: "\<exists>u. IsSystemController u [''ci:deployer'']"
proof -
  have "mergeSystemControllerSAs '' ci:deployer, system:apiserver'' =
      Inr (DefaultSystemControllerServiceAccounts @ [''ci:deployer''])"
    by code_simp
  from accepted_entries_are_live [OF this] show ?thesis by simp
qed

text \<open>
  A request reads the cluster at most three times, and it only adds to the metrics: the events
  so far stay as they are, and no counter goes down.
\<close>

theorem at_most_three_reads:
  assumes "Handle D h req w = Some (resp, w')"
  shows "w \<le> w' \<and> w_reads w' \<le> w_reads w + 3 \<and> counter_value w c ls \<le> counter_value w' c ls"
  using Handle_answer [OF assms] by (simp add: answer_ok_def counter_value_mono)

lemma at_most_three_reads_witness:
  "\<exists>resp w'. Handle ex_deps ex_handler (ex_update ''scaled'') ex_world = Some (resp, w') \<and>
     w_reads w' \<le> 3"
proof -
  have "\<not> Option.is_none (Handle ex_deps ex_handler (ex_update ''scaled'') ex_world)" by code_simp
  then obtain resp w' where h: "Handle ex_deps ex_handler (ex_update ''scaled'') ex_world = Some (resp, w')"
    by (auto simp: Option.is_none_def)
  from at_most_three_reads [OF h] have "w_reads w' \<le> 3" by (simp add: ex_world_def)
  with h show ?thesis by blast
qed

end
