(* ===== verification/Server_Run.thy ===== *)
theory Server_Run
  imports Handler_Lemmas "HOL-Library.Multiset"
begin

section \<open>Concurrent requests and the counters\<close>

text \<open>
  The server answers requests concurrently, and the counters are shared.  Each request
  contributes the metric events of its run of \<open>Handle\<close>, and the server records an interleaving
  of the contributions.  Between the reads of one request, other requests and the informers may
  run, so every run of \<open>Handle\<close> may see another client.
\<close>

subsection \<open>Definitions\<close>

record served =
  sv_Request :: request
  sv_Response :: response
  sv_Events :: "metric_event list"

inductive serves :: "('s, 'k) deps \<Rightarrow> handler \<Rightarrow> served \<Rightarrow> bool" for D h where
  "Handle D (h\<lparr>Client := c\<rparr>) req \<lparr>w_metrics = [], w_reads = n\<rparr> = Some (resp, w') \<Longrightarrow>
     serves D h \<lparr>sv_Request = req, sv_Response = resp, sv_Events = w_metrics w'\<rparr>"

text \<open>The events of the requests, each in its order, merged in any way.\<close>

inductive interleaving :: "'e list list \<Rightarrow> 'e list \<Rightarrow> bool" where
  interleaving_Nil: "interleaving [] []"
| interleaving_Cons:
    "interleaving ess es' \<Longrightarrow> zs \<in> shuffles es es' \<Longrightarrow> interleaving (es # ess) zs"

inductive_cases interleavingE: "interleaving (es # ess) zs" "interleaving [] zs"

definition server_run :: "('s, 'k) deps \<Rightarrow> handler \<Rightarrow> served list \<Rightarrow> world \<Rightarrow> bool" where
  "server_run D h ss w =
     (list_all (serves D h) ss \<and> interleaving (map sv_Events ss) (w_metrics w))"

text \<open>Sums of counters, as a dashboard forms them: by operation, over reasons or kinds.\<close>

definition requests_total :: "world \<Rightarrow> string \<Rightarrow> nat" where
  "requests_total w operation =
     (\<Sum>reason\<in>set AllDecisionReasons. counter_value w requestsTotal [operation, reason])"

definition denied_requests_total :: "world \<Rightarrow> string \<Rightarrow> nat" where
  "denied_requests_total w operation =
     (\<Sum>reason\<in>{reason \<in> set AllDecisionReasons. deny_reason reason}.
        counter_value w requestsTotal [operation, reason])"

definition denials_total :: "world \<Rightarrow> string \<Rightarrow> string set \<Rightarrow> nat" where
  "denials_total w operation kinds =
     (\<Sum>kind\<in>kinds. counter_value w denialsTotal [operation, kind])"

text \<open>The requests themselves: those of an operation, those of them that were refused.\<close>

definition with_operation :: "string \<Rightarrow> served \<Rightarrow> bool" where
  "with_operation operation s = (operation = req_Operation (sv_Request s))"

definition sv_Kind :: "served \<Rightarrow> string" where
  "sv_Kind s = gvk_Kind (req_Kind (sv_Request s))"

definition refused :: "served \<Rightarrow> bool" where
  "refused s = (\<not> resp_Allowed (sv_Response s))"

subsection \<open>One request\<close>

text \<open>A contribution counts the request once, under one reason.\<close>

lemma count_list_filter: "p e \<Longrightarrow> count_list (filter p es) e = count_list es e"
  by (induction es) auto

lemma count_calls:
  "count_list es (CounterInc (col_Name c) ls) =
     count_list (filter (counter_call c) es) (CounterInc (col_Name c) ls)"
  by (simp add: count_list_filter)

lemma served_reason:
  assumes "serves D h s"
  obtains reason where "reason \<in> set AllDecisionReasons"
    "\<And>ls. count_list (sv_Events s) (CounterInc (col_Name requestsTotal) ls) =
       of_bool (ls = [req_Operation (sv_Request s), reason])"
    "\<And>ls. count_list (sv_Events s) (CounterInc (col_Name denialsTotal) ls) =
       of_bool (deny_reason reason \<and> ls = [req_Operation (sv_Request s), sv_Kind s])"
    "refused s \<longleftrightarrow> deny_reason reason \<and> \<not> AuditOnly h"
    "list_all well_labelled (sv_Events s)"
  using assms
proof cases
  case (1 c req n resp w')
  have "answer_ok (h\<lparr>Client := c\<rparr>) req 3 \<lparr>w_metrics = [], w_reads = n\<rparr> (resp, w')"
    using 1(2) by (rule Handle_answer)
  then obtain reason where reason: "reason \<in> set AllDecisionReasons"
    and acc: "accounted req reason \<lparr>w_metrics = [], w_reads = n\<rparr> w'"
    and resp: "resp_Allowed resp \<longleftrightarrow> allow_reason reason \<or> AuditOnly h"
    and ok: "metrics_ok w'"
    by (auto simp: answer_ok_def metrics_ok_def)
  have calls: "filter (counter_call requestsTotal) (sv_Events s) = [request_event req reason]"
    "filter (counter_call denialsTotal) (sv_Events s) =
       (if deny_reason reason then [denial_event req] else [])"
    using acc 1(1) by (simp_all add: accounted_def calls_def)
  have "allow_reason reason \<longleftrightarrow> \<not> deny_reason reason"
    using AllDecisionReasons_cases [OF reason] allow_not_deny by blast
  with resp 1(1) have ref: "refused s \<longleftrightarrow> deny_reason reason \<and> \<not> AuditOnly h"
    by (simp add: refused_def)
  have sv: "sv_Request s = req" using 1(1) by simp
  have lab: "list_all well_labelled (sv_Events s)" using ok 1(1) by (simp add: metrics_ok_def)
  have req: "count_list (sv_Events s) (CounterInc (col_Name requestsTotal) ls) =
      of_bool (ls = [req_Operation (sv_Request s), reason])" for ls
    by (subst count_calls) (simp add: calls request_event_def sv)
  have den: "count_list (sv_Events s) (CounterInc (col_Name denialsTotal) ls) =
      of_bool (deny_reason reason \<and> ls = [req_Operation (sv_Request s), sv_Kind s])" for ls
    by (subst count_calls) (simp add: calls denial_event_def sv_Kind_def sv)
  show thesis by (rule that [OF reason req den ref lab])
qed

subsection \<open>Many requests\<close>

lemma append_interleaves: "xs @ ys \<in> shuffles xs ys" "xs @ ys \<in> shuffles ys xs"
  using Cons_in_shuffles_leftI shuffles_commutes by (induction xs) fastforce+

lemma interleaving_mset: "interleaving ess zs \<Longrightarrow> mset zs = sum_list (map mset ess)"
  by (induction rule: interleaving.induct) (simp_all add: mset_shuffles)

lemma interleaving_set: "interleaving ess zs \<Longrightarrow> set zs = (\<Union>es\<in>set ess. set es)"
  by (induction rule: interleaving.induct) (simp_all add: set_shuffles)

lemma count_mset_list: "count_list xs x = count (mset xs) x"
  by (induction xs) auto

lemma count_sum_list: "count (sum_list ms) x = (\<Sum>m\<leftarrow>ms. count m x)"
  by (induction ms) auto

text \<open>A counter of the run is the sum of what the requests contribute to it.\<close>

lemma run_counter:
  assumes "server_run D h ss w"
  shows "counter_value w c ls =
    (\<Sum>s\<leftarrow>ss. count_list (sv_Events s) (CounterInc (col_Name c) ls))"
  using assms interleaving_mset [of "map sv_Events ss" "w_metrics w"]
  by (simp add: server_run_def counter_value_def count_mset_list count_sum_list o_def)

lemma sum_sum_list: "(\<Sum>x\<in>A. \<Sum>s\<leftarrow>ss. f x s) = (\<Sum>s\<leftarrow>ss. \<Sum>x\<in>A. f x s)"
  by (induction ss) (simp_all add: sum.distrib)

lemma length_filter_sum: "length (filter P ss) = (\<Sum>s\<leftarrow>ss. of_bool (P s))"
  by (induction ss) simp_all

lemma run_serves: "server_run D h ss w \<Longrightarrow> s \<in> set ss \<Longrightarrow> serves D h s"
  by (simp add: server_run_def list_all_iff)

lemma sum_one:
  assumes "finite A"
  shows "(\<Sum>x\<in>A. of_bool (p \<and> x = a)) = (of_bool (p \<and> a \<in> A) :: nat)"
    and "(\<Sum>x\<in>A. of_bool (q \<and> p \<and> x = a)) = (of_bool (q \<and> p \<and> a \<in> A) :: nat)"
  using assms by (cases p; cases q; simp add: of_bool_def del: sum_of_bool_eq)+

text \<open>A sum over a set of counters counts the requests whose contribution is in the set.\<close>

lemma run_sum:
  assumes "server_run D h ss w"
    and "\<And>s. s \<in> set ss \<Longrightarrow>
      (\<Sum>l\<in>A. count_list (sv_Events s) (CounterInc (col_Name c) (f l))) = of_bool (P s)"
  shows "(\<Sum>l\<in>A. counter_value w c (f l)) = length (filter P ss)"
proof -
  have "(\<Sum>l\<in>A. counter_value w c (f l)) =
      (\<Sum>s\<leftarrow>ss. \<Sum>l\<in>A. count_list (sv_Events s) (CounterInc (col_Name c) (f l)))"
    by (simp add: run_counter [OF assms(1)] sum_sum_list)
  also have "\<dots> = (\<Sum>s\<leftarrow>ss. of_bool (P s))"
    using assms(2) by (intro arg_cong [of _ _ sum_list] map_cong) simp_all
  finally show ?thesis by (simp add: length_filter_sum)
qed

lemma run_requests_total:
  assumes "server_run D h ss w"
  shows "requests_total w operation = length (filter (with_operation operation) ss)"
  unfolding requests_total_def
proof (rule run_sum [OF assms])
  fix s assume "s \<in> set ss"
  with assms have "serves D h s" by (rule run_serves)
  then show "(\<Sum>reason\<in>set AllDecisionReasons. count_list (sv_Events s)
      (CounterInc (col_Name requestsTotal) [operation, reason])) = of_bool (with_operation operation s)"
    by (rule served_reason) (simp add: sum_one with_operation_def del: sum_of_bool_eq)
qed

text \<open>With the service enforcing, both denial counts are the number of refused requests.\<close>

lemma run_denied_requests_total:
  assumes "server_run D h ss w" and "\<not> AuditOnly h"
  shows "denied_requests_total w operation =
    length (filter (\<lambda>s. with_operation operation s \<and> refused s) ss)"
  unfolding denied_requests_total_def
proof (rule run_sum [OF assms(1)])
  fix s assume "s \<in> set ss"
  with assms(1) have "serves D h s" by (rule run_serves)
  then show "(\<Sum>reason\<in>{reason \<in> set AllDecisionReasons. deny_reason reason}.
      count_list (sv_Events s) (CounterInc (col_Name requestsTotal) [operation, reason])) =
      of_bool (with_operation operation s \<and> refused s)"
    by (rule served_reason)
      (use assms(2) in \<open>simp add: sum_one with_operation_def del: sum_of_bool_eq\<close>)
qed

lemma run_denials:
  assumes "server_run D h ss w" and "\<not> AuditOnly h"
  shows "counter_value w denialsTotal [operation, kind] =
    length (filter (\<lambda>s. with_operation operation s \<and> sv_Kind s = kind \<and> refused s) ss)"
proof -
  have "(\<Sum>k\<in>{kind}. counter_value w denialsTotal [operation, k]) =
    length (filter (\<lambda>s. with_operation operation s \<and> sv_Kind s = kind \<and> refused s) ss)"
  proof (rule run_sum [OF assms(1)])
    fix s assume "s \<in> set ss"
    with assms(1) have "serves D h s" by (rule run_serves)
    then show "(\<Sum>k\<in>{kind}. count_list (sv_Events s)
        (CounterInc (col_Name denialsTotal) [operation, k])) =
        of_bool (with_operation operation s \<and> sv_Kind s = kind \<and> refused s)"
      by (rule served_reason) (use assms(2) in \<open>auto simp: with_operation_def\<close>)
  qed
  then show ?thesis by simp
qed

text \<open>In any mode, the two denial counts agree.\<close>

lemma run_denials_total:
  assumes "server_run D h ss w" and "finite kinds" and "sv_Kind ` set ss \<subseteq> kinds"
  shows "denials_total w operation kinds = denied_requests_total w operation"
proof -
  have eq: "(\<Sum>kind\<in>kinds. count_list (sv_Events s)
      (CounterInc (col_Name denialsTotal) [operation, kind])) =
      (\<Sum>reason\<in>{reason \<in> set AllDecisionReasons. deny_reason reason}.
        count_list (sv_Events s) (CounterInc (col_Name requestsTotal) [operation, reason]))"
    if "s \<in> set ss" for s
  proof -
    have "sv_Kind s \<in> kinds" using assms(3) that by blast
    moreover have "serves D h s" using assms(1) that by (rule run_serves)
    ultimately show ?thesis
      by (elim served_reason) (auto simp: sum_one assms(2) simp del: sum_of_bool_eq)
  qed
  then show ?thesis
    unfolding denials_total_def denied_requests_total_def run_counter [OF assms(1)] sum_sum_list
    by (intro arg_cong [of _ _ sum_list] map_cong) simp_all
qed

lemma run_metrics_ok:
  assumes "server_run D h ss w"
  shows "metrics_ok w"
proof -
  have "well_labelled e" if e: "e \<in> set (w_metrics w)" for e
  proof -
    obtain s where s: "s \<in> set ss" "e \<in> set (sv_Events s)"
      using assms e interleaving_set [of "map sv_Events ss" "w_metrics w"]
      by (auto simp: server_run_def)
    from assms s(1) have "serves D h s" by (rule run_serves)
    with s(2) show ?thesis by (auto elim: served_reason simp: list_all_iff)
  qed
  then show ?thesis by (simp add: metrics_ok_def list_all_iff)
qed

end
