(* ===== verification/Self_Healing.thy ===== *)
theory Self_Healing
  imports Last_Applied Controller_Loop
begin

section \<open>The controller and the webhook together\<close>

text \<open>
  The webhook protects an object only while the configuration that calls it is stored, and that
  configuration can be edited or deleted like any object.  Here the controller of
  \<open>Controller_Loop\<close> and the object of \<open>Last_Applied\<close> run side by side: a write is admitted by
  the entries that are stored at that moment.  While nobody tampers with the configuration the
  object stays in sync; after any tampering, and whatever happened to the object meanwhile, the
  controller restores the configuration and the next write of the reconciler the object.
\<close>

subsection \<open>Definitions\<close>

record cluster_state =
  cs_Loop :: loop_state
  cs_Object :: sync_state

datatype cluster_action =
    Controller loop_action
  | Others request world
  | Reconciler request world

text \<open>
  The entries the API server calls: those of the stored configuration, read by \<open>entries_of\<close>.  It
  executes what the controller applies when the converted configuration is read back as the
  entries it was built with.
\<close>

definition entries_in_place ::
    "(json_map \<Rightarrow> validating_webhook list) \<Rightarrow> loop_state \<Rightarrow> validating_webhook list" where
  "entries_in_place entries_of l =
     (case lp_stored l of None \<Rightarrow> [] | Some uns \<Rightarrow> entries_of uns)"

definition executes ::
    "(json_map \<Rightarrow> validating_webhook list) \<Rightarrow> webhook_config_reconciler \<Rightarrow> json_map \<Rightarrow> bool" where
  "executes entries_of r uns = (entries_of uns = vwc_Webhooks (desired_configuration r))"

inductive cluster_step ::
    "api_server \<Rightarrow> bool \<Rightarrow> ('s, 'k) deps \<Rightarrow> handler \<Rightarrow> webhook_config_reconciler \<Rightarrow>
       flux_management_info \<Rightarrow> (string + int \<Rightarrow> nat option) \<Rightarrow> (webhook_configuration \<Rightarrow> string + json_map) \<Rightarrow>
       (json_map \<Rightarrow> validating_webhook list) \<Rightarrow>
       cluster_action \<Rightarrow> cluster_state \<Rightarrow> cluster_state \<Rightarrow> bool"
  for S reachable D h r fi requeue conv entries_of
where
  controller_step:
    "loop_step r requeue conv a l l' \<Longrightarrow>
     cluster_step S reachable D h r fi requeue conv entries_of (Controller a)
       \<lparr>cs_Loop = l, cs_Object = obj\<rparr> \<lparr>cs_Loop = l', cs_Object = obj\<rparr>"
| others_step:
    "fits req stored \<Longrightarrow>
     fst (call_entries S reachable D h req (entries_in_place entries_of l) w) \<Longrightarrow>
     cluster_step S reachable D h r fi requeue conv entries_of (Others req w)
       \<lparr>cs_Loop = l, cs_Object = \<lparr>ss_Stored = stored, ss_Applied = applied\<rparr>\<rparr>
       \<lparr>cs_Loop = l, cs_Object = \<lparr>ss_Stored = written req,
         ss_Applied = still_applied D h fi req w applied\<rparr>\<rparr>"
| reconciler_step:
    "fits req stored \<Longrightarrow>
     fst (call_entries S reachable D h req (entries_in_place entries_of l) w) \<Longrightarrow>
     cluster_step S reachable D h r fi requeue conv entries_of (Reconciler req w)
       \<lparr>cs_Loop = l, cs_Object = \<lparr>ss_Stored = stored, ss_Applied = applied\<rparr>\<rparr>
       \<lparr>cs_Loop = l, cs_Object = \<lparr>ss_Stored = written req, ss_Applied = written req\<rparr>\<rparr>"

inductive cluster_trace ::
    "api_server \<Rightarrow> bool \<Rightarrow> ('s, 'k) deps \<Rightarrow> handler \<Rightarrow> webhook_config_reconciler \<Rightarrow>
       flux_management_info \<Rightarrow> (string + int \<Rightarrow> nat option) \<Rightarrow> (webhook_configuration \<Rightarrow> string + json_map) \<Rightarrow>
       (json_map \<Rightarrow> validating_webhook list) \<Rightarrow>
       cluster_action list \<Rightarrow> cluster_state \<Rightarrow> cluster_state \<Rightarrow> bool"
  for S reachable D h r fi requeue conv entries_of
where
  cluster_Nil: "cluster_trace S reachable D h r fi requeue conv entries_of [] s s"
| cluster_Cons:
    "cluster_step S reachable D h r fi requeue conv entries_of a s s' \<Longrightarrow>
     cluster_trace S reachable D h r fi requeue conv entries_of as s' s'' \<Longrightarrow>
     cluster_trace S reachable D h r fi requeue conv entries_of (a # as) s s''"

inductive_simps cluster_trace_Nil [simp]:
  "cluster_trace S reachable D h r fi requeue conv entries_of [] s s'"
inductive_simps cluster_trace_Cons:
  "cluster_trace S reachable D h r fi requeue conv entries_of (a # as) s s''"

text \<open>
  The part of the controller in a run, and the runs the invariant speaks of: the reconciler of
  \<open>fi\<close> writes objects under protection or removes the object, the others are foreign, and nobody
  tampers with the configuration.
\<close>

fun loop_actions :: "cluster_action list \<Rightarrow> loop_action list" where
  "loop_actions [] = []"
| "loop_actions (Controller a # as) = a # loop_actions as"
| "loop_actions (a # as) = loop_actions as"

fun orderly ::
    "('s, 'k) deps \<Rightarrow> ('s \<Rightarrow> 'k field_path set) \<Rightarrow> handler \<Rightarrow> webhook_config_reconciler \<Rightarrow>
       flux_management_info \<Rightarrow> 'k field_path set \<Rightarrow> cluster_action \<Rightarrow> bool" where
  "orderly D members h r fi P (Controller a) = (\<not> tampers a)"
| "orderly D members h r fi P (Others req w) =
     foreign_write D members h r fi P req w"
| "orderly D members h r fi P (Reconciler req w) = reconciles D members h fi P req w"

subsection \<open>Projections\<close>

lemma loop_actions_append [simp]: "loop_actions (as @ bs) = loop_actions as @ loop_actions bs"
  by (induction as rule: loop_actions.induct) simp_all

lemma cluster_trace_append:
  "cluster_trace S reachable D h r fi requeue conv entries_of (as @ bs) s s'' \<longleftrightarrow>
     (\<exists>s'. cluster_trace S reachable D h r fi requeue conv entries_of as s s' \<and>
       cluster_trace S reachable D h r fi requeue conv entries_of bs s' s'')"
  by (induction as arbitrary: s) (auto simp: cluster_trace_Cons)

text \<open>The controller does not notice the objects: its part of a run is a run of its own.\<close>

lemma cluster_trace_loop:
  "cluster_trace S reachable D h r fi requeue conv entries_of as s s' \<Longrightarrow>
     loop_trace r requeue conv (loop_actions as) (cs_Loop s) (cs_Loop s')"
proof (induction rule: cluster_trace.induct)
  case (cluster_Nil s)
  show ?case by simp
next
  case (cluster_Cons a s s' as s'')
  from cluster_Cons.hyps(1) show ?case
    using cluster_Cons.IH by cases (auto intro: loop_trace.intros)
qed

lemma orderly_untampered:
  "list_all (orderly D members h r fi P) as \<Longrightarrow> \<not> list_ex tampers (loop_actions as)"
  by (induction as rule: loop_actions.induct) auto

text \<open>With the desired configuration stored, the API server admits as \<open>Admission\<close> says.\<close>

lemma admitted_in_place:
  "lp_stored l = Some uns \<Longrightarrow> executes entries_of r uns \<Longrightarrow>
     fst (call_entries S reachable D h req (entries_in_place entries_of l) w) \<longleftrightarrow>
     server_admits S reachable D h r req w"
  by (simp add: entries_in_place_def executes_def server_admits_def)

subsection \<open>Protection while the configuration is in place\<close>

context object_decoding
begin

lemma cluster_step_in_sync:
  assumes step: "cluster_step S reachable D h r fi requeue conv entries_of a s s'"
    and api: "api_dispatch S" and mode: "enforcing reachable h r"
    and law: "protection_law fi P" and exec: "executes entries_of r uns"
    and ok: "orderly D members h r fi P a" and stored: "lp_stored (cs_Loop s) = Some uns"
    and sync: "in_sync D members fi P (cs_Object s)"
  shows "in_sync D members fi P (cs_Object s')"
  using step
proof cases
  case (controller_step b l l' obj)
  with sync show ?thesis by simp
next
  case (reconciler_step req obj l w applied)
  with ok show ?thesis by (simp add: reconciler_in_sync)
next
  case (others_step req obj l w applied)
  then have "server_admits S reachable D h r req w"
    using stored exec by (simp add: admitted_in_place)
  with others_step ok sync show ?thesis by (simp add: others_in_sync [OF _ _ _ api mode law])
qed

lemma cluster_trace_in_sync:
  assumes "cluster_trace S reachable D h r fi requeue conv entries_of as s s'"
    and "api_dispatch S" and "enforcing reachable h r" and "protection_law fi P"
    and "conv (desired_configuration r) = Inr uns" and "executes entries_of r uns"
    and "list_all (orderly D members h r fi P) as"
    and "lp_stored (cs_Loop s) = Some uns" and "in_sync D members fi P (cs_Object s)"
  shows "lp_stored (cs_Loop s') = Some uns \<and> in_sync D members fi P (cs_Object s')"
  using assms
proof (induction rule: cluster_trace.induct)
  case (cluster_Nil s)
  then show ?case by simp
next
  case (cluster_Cons a s s' as s'')
  have "lp_stored (cs_Loop s') = Some uns"
    using cluster_Cons.hyps(1)
  proof cases
    case (controller_step b l l' obj)
    then show ?thesis
      using cluster_Cons.prems untampered_step [of r requeue conv b l l' uns] by simp
  qed (use cluster_Cons.prems in simp_all)
  moreover have "in_sync D members fi P (cs_Object s')"
    using cluster_Cons.prems by (intro cluster_step_in_sync [OF cluster_Cons.hyps(1)]) simp_all
  ultimately show ?case using cluster_Cons.IH cluster_Cons.prems by simp
qed

subsection \<open>Healing\<close>

text \<open>
  Where the configuration is stored and the object is gone or kept its labels, the reconciler can
  write it, and from then on it stays in sync.
\<close>

lemma repair_step:
  assumes exec: "executes entries_of r uns" and stored: "lp_stored (cs_Loop s) = Some uns"
    and client: "Client h \<noteq> None" and owner: "flux_owner fi"
    and account: "reconciler_account D h fi (req_UserInfo req)"
    and op: "req_Operation req \<in> {Create, Update}"
    and fits: "fits req (ss_Stored (cs_Object s))"
    and prot: "protected_object D members fi P (req_Object req)"
    and labels: "labels_intact D req (ss_Stored (cs_Object s))"
  shows "\<exists>s'. cluster_step S True D h r fi requeue conv entries_of (Reconciler req w) s s'"
proof -
  have "server_admits S True D h r req w"
    by (rule repair_admitted [OF client owner account op fits prot labels]) simp
  then have "fst (call_entries S True D h req (entries_in_place entries_of (cs_Loop s)) w)"
    using stored exec by (simp add: admitted_in_place)
  from reconciler_step [OF fits this, of r fi requeue conv "ss_Applied (cs_Object s)"]
  show ?thesis by (cases s; cases "cs_Object s") auto
qed

lemma repaired_stays:
  assumes step: "cluster_step S reachable D h r fi requeue conv entries_of (Reconciler req w) s s1"
    and run: "cluster_trace S reachable D h r fi requeue conv entries_of bs s1 s'"
    and rec: "reconciles D members h fi P req w" and stored: "lp_stored (cs_Loop s) = Some uns"
    and rest: "api_dispatch S" "enforcing reachable h r" "protection_law fi P"
      "conv (desired_configuration r) = Inr uns" "executes entries_of r uns"
      "list_all (orderly D members h r fi P) bs"
  shows "lp_stored (cs_Loop s') = Some uns \<and> in_sync D members fi P (cs_Object s')"
proof (rule cluster_trace_in_sync [OF run rest])
  from step show "lp_stored (cs_Loop s1) = Some uns" by cases (use stored in simp)
  from step show "in_sync D members fi P (cs_Object s1)"
    by cases (simp add: reconciler_in_sync [OF rec])
qed

end

end
