(* ===== verification/Findings.thy ===== *)
theory Findings
  imports Example_Cluster Last_Applied
begin

section \<open>Behaviour the documentation does not announce\<close>

text \<open>
  Two ways around the protection in enforce mode, two ways the controller stops watching over the
  configuration, and concrete runs of the handler on the cluster of \<open>Example_Cluster\<close>.
\<close>

definition outcome :: "request \<Rightarrow> bool option" where
  "outcome req = map_option (resp_Allowed \<circ> fst) (Handle ex_deps ex_handler req ex_world)"

text \<open>
  C37.  The ignore rules consulted are those of the Kustomization the new labels name; whose object
  it was plays no role.  Whether an update in enforce mode that touches fields Flux applied is
  allowed depends on the rules of that Kustomization alone, so an update that points the labels
  at a Kustomization of one's own, whose rules cover the change and the labels, goes through.
\<close>

theorem relabelling_redirects_ignore_rules:
  assumes "object_decoding D members" and "guarded_request D h req w = Some (om, old, w')"
    and "\<not> AuditOnly h" and "req_Operation req = Update" and "Client h = Some c"
    and labels: "om_Labels om KustomizeLabelName = Some name"
      "om_Labels om KustomizeLabelNamespace = Some ns" "name \<noteq> []" "ns \<noteq> []"
    and "protection_active (om_Annotations old)" and "protection_active (om_Annotations om)"
    and F: "FluxManagedFields D (om_ManagedFields old) = Some F"
    and objs: "unmarshal_object D (req_OldObject req) = Some oldObj"
      "unmarshal_object D (req_Object req) = Some newObj"
    and drift: "touched (modified_paths oldObj newObj) (members F) \<noteq> {}"
    and owner: "get_unstructured c (w_reads w') (fetch_timeout h)
      \<lparr>gvk_Group = ''kustomize.toolkit.fluxcd.io'', gvk_Version = ''v1'', gvk_Kind = ''Kustomization''\<rparr>
      ns name = Some owner"
    and rules: "parseIgnoreRules D owner \<noteq> []"
      "ignoreSetForObject D (parseIgnoreRules D owner) (req_Kind req)
         (cmp_Or [] (om_Name old) (req_Name req)) (cmp_Or [] (om_Namespace old) (req_Namespace req))
         (om_Labels old) (om_Annotations old) = Some ig"
  shows "allows D h req w \<longleftrightarrow>
    (\<forall>p\<in>touched (modified_paths oldObj newObj) (members F). covered (members ig) p) \<and>
    (\<exists>F'. FluxManagedFields D (om_ManagedFields om) = Some F' \<and>
       (\<forall>p\<in>members F - members F'. covered (members ig) p))"
proof -
  let ?fi = "request_fluxInfo req om old"
  have "?fi = owner_info ns name"
    using labels
    by (simp add: request_fluxInfo_def GetFluxManagementInfo_def owner_info_def str_at_def Let_def)
  then have ig: "update_ignore_set D h req old ?fi w' = ig"
    using assms(5) labels(3,4) owner rules
    by (simp add: update_ignore_set_def driftIgnoreSet_def owner_info_def getOwner_def ownerGVK_def)
  have "\<not> old_exempt old ?fi" "\<not> snd (protectionDisablingAnnotationAdded (om_Annotations old) (om_Annotations om))"
    using assms(10,11) by (auto simp: old_exempt_def protection_active_def annotation_not_added)
  moreover have "members F \<noteq> {}" using drift by (auto simp: touched_def)
  ultimately show ?thesis
    using object_decoding.update_allows [OF assms(1-4)] F objs drift
    by (auto simp: update_rule_def field_rule_def ig Let_def split: option.splits)
qed

lemma relabelling_redirects_ignore_rules_witness:
  "allows ex_deps ex_handler (ex_update ''relabelled'') ex_world \<and>
   outcome (ex_update ''scaled'') = Some False"
proof
  show "outcome (ex_update ''scaled'') = Some False" by code_simp
  let ?req = "ex_update ''relabelled''"
  let ?g = "guarded_request ex_deps ex_handler ?req ex_world"
  let ?new = "object_of (kustomize_labels ''mallory'' ''evil'') [] FluxKustomizeManager ''F'' [replicas ''9'']"
  let ?ignored = "\<lambda>old. ignoreSetForObject ex_deps (parseIgnoreRules ex_deps evil_owner) (req_Kind ?req)
    (cmp_Or [] (om_Name old) (req_Name ?req)) (cmp_Or [] (om_Namespace old) (req_Namespace ?req))
    (om_Labels old) (om_Annotations old)"
  let ?I = "{names [''spec''], names [''metadata'', ''labels'']} :: unit field_path set"
  let ?M = "modified_paths ex_old ?new :: unit field_path set"
  have "case ?g of None \<Rightarrow> False | Some (om, old, w') \<Rightarrow>
      om_Labels om KustomizeLabelName = Some ''evil'' \<and>
      om_Labels om KustomizeLabelNamespace = Some ''mallory'' \<and>
      protection_active (om_Annotations old) \<and> protection_active (om_Annotations om) \<and>
      FluxManagedFields ex_deps (om_ManagedFields old) = Some ex_flux_paths \<and>
      FluxManagedFields ex_deps (om_ManagedFields om) = Some ex_flux_paths \<and>
      parseIgnoreRules ex_deps evil_owner \<noteq> [] \<and>
      (case ?ignored old of None \<Rightarrow> False | Some ig \<Rightarrow> set ig = ?I)"
    by code_simp
  then obtain om old w' ig where g: "?g = Some (om, old, w')"
    and labels: "om_Labels om KustomizeLabelName = Some ''evil''"
      "om_Labels om KustomizeLabelNamespace = Some ''mallory''"
    and active: "protection_active (om_Annotations old)" "protection_active (om_Annotations om)"
    and fields: "FluxManagedFields ex_deps (om_ManagedFields old) = Some ex_flux_paths"
      "FluxManagedFields ex_deps (om_ManagedFields om) = Some ex_flux_paths"
    and rules: "parseIgnoreRules ex_deps evil_owner \<noteq> []" "?ignored old = Some ig"
    and ig: "set ig = ?I"
    by (auto split: option.splits)
  have objs: "unmarshal_object ex_deps (req_OldObject ?req) = Some ex_old"
    "unmarshal_object ex_deps (req_Object ?req) = Some ?new" by code_simp+
  have "differs (JObj ex_old) (JObj ?new) [''spec'', ''replicas'']" by code_simp
  then have "names [''spec'', ''replicas''] \<in> ?M"
    unfolding modified_paths_def maxDiffDepth_def
    by (intro CollectI exI [of _ "[''spec'', ''replicas'']"]) simp
  then have drift: "touched ?M (set ex_flux_paths) \<noteq> {}"
    by (auto simp: touched_def ex_flux_paths_def)
  have "\<forall>q\<in>set ex_flux_paths. covered ?I q"
    by (simp add: ex_flux_paths_def covered_def)
  then have "\<forall>p\<in>touched ?M (set ex_flux_paths). covered ?I p"
    using covered_prefix [of ?I] by (fastforce simp: touched_def covered_def [of "set ex_flux_paths"])
  moreover have "get_unstructured ex_client (w_reads w') (fetch_timeout ex_handler)
      \<lparr>gvk_Group = ''kustomize.toolkit.fluxcd.io'', gvk_Version = ''v1'', gvk_Kind = ''Kustomization''\<rparr>
      ''mallory'' ''evil'' = Some evil_owner"
    by (simp add: ex_client_def ownerGVK_def ex_owners_def)
  ultimately show "allows ex_deps ex_handler ?req ex_world"
    using relabelling_redirects_ignore_rules [OF ex_decoding g _ _ _ labels _ _ active fields(1) objs
        drift _ rules, of ex_client] fields(2) ig
    by (simp add: ex_handler_def ex_request_def)
qed



text \<open>
  The comparison of the ownership labels takes an absent label for an empty one.  On an object of
  a HelmRelease that carries a Kustomization namespace label (which anybody may add), an empty
  Kustomization name label makes a default reconciler account of that namespace the owner; it
  changes what helm-controller applied in the same update, and no ownership conflict is counted.
\<close>

lemma empty_name_label_takes_over:
  "outcome (ex_request Update alice ''helm'' ''helm_tagged'') = Some True \<and>
   outcome (ex_request Update (service_account ''mallory'' ''flux-reconciler'')
     ''helm_tagged'' ''helm_emptied'') = Some True \<and>
   (case Handle ex_deps ex_handler (ex_request Update
       (service_account ''mallory'' ''flux-reconciler'') ''helm_tagged'' ''helm_emptied'') ex_world of
      None \<Rightarrow> False
    | Some (resp, w) \<Rightarrow> calls ownershipConflictsTotal w = []) \<and>
   outcome (ex_request Update (service_account ''mallory'' ''flux-reconciler'')
     ''helm'' ''helm_emptied'') = Some False"
  by (intro conjI; code_simp)

text \<open>
  The owning controller itself is refused when it first labels an object: nobody's labels
  count as another owner's.
\<close>

lemma adoption_counts_as_conflict:
  "outcome (ex_request Update (service_account ''flux-system'' ''kustomize-controller'')
     ''unmanaged'' ''stored'') = Some False"
  by code_simp

text \<open>
  Nor can it repair what was lost while the webhook was not called: on an object that Flux
  applied and whose ownership labels somebody removed meanwhile, the write that restores them is
  refused, for the core controller and for the owner's account, and the bypass annotation on the
  object does not help.
\<close>

lemma lost_labels_not_repaired:
  "outcome (ex_request Update (service_account ''flux-system'' ''kustomize-controller'')
     ''stripped'' ''stored'') = Some False \<and>
   outcome (ex_request Update (service_account ''flux-system'' ''deployer'')
     ''stripped'' ''stored'') = Some False \<and>
   outcome (ex_request Update (service_account ''flux-system'' ''kustomize-controller'')
     ''stripped_bypass'' ''stored'') = Some False"
  by (intro conjI; code_simp)

text \<open>
  A rule whose name pattern does not compile and whose kind pattern does not match is skipped
  or makes the whole ignore set fail, depending on the order in which Go visits the patterns.
\<close>

definition order_deps :: "string list \<Rightarrow> (unit field_path list, unit) deps" where
  "order_deps order =
     (reference_deps ex_parse ex_encode ex_fieldsV1 (\<lambda>_. [])
        (\<lambda>pat. if pat = ''^(?:[)$'' then None else Some (\<lambda>s. False)) (\<lambda>_. None))
       \<lparr>pattern_order := \<lambda>_. order\<rparr>"

definition order_target :: json_map where
  "order_target = [(''kind'', JStr ''Secret''), (''name'', JStr ''['')]"

lemma rule_result_depends_on_map_order:
  "ruleMatchesObject (order_deps pattern_keys) 0 order_target
     (req_Kind (ex_request Update alice [] [])) ''web'' ''shop'' Map.empty Map.empty = Some False"
  "ruleMatchesObject (order_deps (rev pattern_keys)) 0 order_target
     (req_Kind (ex_request Update alice [] [])) ''web'' ''shop'' Map.empty Map.empty = None"
  by code_simp+

text \<open>
  The empty pointer, which \<open>jsonPointerToPath\<close> reads as the whole document, waives nothing: a field
  set does not keep the empty path.
\<close>

lemma root_pointer_waives_nothing:
  assumes "deps_fieldset D members" and "pattern_order_ok D"
    and "ignoreSetForObject D [\<lparr>ir_paths = [[]], ir_target = []\<rparr>] gvk name namespace ls as = Some ig"
  shows "members ig = {}"
  using deps_fieldset.members_ignoreSetForObject [OF assms]
  by (auto simp: matching_rules_def jsonPointerToPath_def split: if_splits)

text \<open>
  A pattern that closes the group is not anchored: the expression that is compiled for
  \<open>a)|(?:b\<close> matches every value that begins with \<open>a\<close> or ends with \<open>b\<close>.
\<close>

lemma pattern_escapes_its_group:
  "anchoredRegexMatch D ''a)|(?:b'' value =
     map_option (\<lambda>matchString. matchString value) (regexp_Compile D ''^(?:a)|(?:b)$'')"
  by (simp add: anchoredRegexMatch_def split: option.splits)

text \<open>
  Start-up takes a webhook name without a dot and an empty Flux namespace, of which the API server
  accepts neither in a configuration.
\<close>

lemma unvalidated_names_accepted:
  "case startup (\<lambda>_. [])
      (ex_enforcing\<lparr>fl_webhook_name := Some ''drift'', fl_flux_namespace := Some []\<rparr>) (Some ex_client) of
     Inl _ \<Rightarrow> False
   | Inr (h, r) \<Rightarrow>
       map vw_Name (vwc_Webhooks (desired_configuration r)) = [''kustomize.drift'', ''helm.drift''] \<and>
       rc_WebhookNamespace r = []"
  by code_simp

text \<open>
  C39.  A negative \<open>VWC_RESYNC_INTERVAL\<close> is accepted at start-up and switches the periodic
  re-apply off: the controller can reach a state in which the stored configuration is whatever
  somebody wrote and none of its own steps is possible.
\<close>

theorem resync_can_be_switched_off:
  assumes "work_queue requeue" and "conv (desired_configuration r) = Inr uns"
    and "startup env cl mgr = Inr (h, r)"
    and "fl_vwc_resync_interval cl = None" and "fl_discovery_interval cl = None"
    and "env ''VWC_RESYNC_INTERVAL'' = CHR ''-'' # duration_text parts"
    and "parts \<noteq> []" and "set (map snd parts) \<subseteq> set unit_names" and "nanoseconds parts < 2 ^ 63"
  shows "\<exists>as s'. loop_trace r requeue conv as (loop_start r (Some stored) w) s' \<and>
    lp_stored s' = Some edited \<and>
    (\<forall>a s''. own_action a \<longrightarrow> \<not> loop_step r requeue conv a s' s'')"
proof -
  have "\<exists>d. resyncIntervalDefault env = Inr d \<and> rc_ResyncInterval r = resync_interval cl d"
    using assms(3) by (auto simp: startup_def Let_def split: sum.splits if_splits option.splits)
  then have "ParseDuration (CHR ''-'' # duration_text parts) = Inr (rc_ResyncInterval r)"
    using assms(4-6)
    by (auto simp: resync_interval_precedence resyncIntervalDefault_def getEnvDuration_def
        Let_def split: sum.splits if_splits)
  then have "rc_ResyncInterval r \<le> 0" using ParseDuration_text(2) [OF assms(7,8)] assms(9) by simp
  then have "requeue (Inr (rc_ResyncInterval r)) = None"
    by (rule work_queue.requeue_never [OF assms(1)])
  with assms(2) show ?thesis by (rule asleep_after_edit)
qed

definition ex_mistyped :: "startup_error + (handler \<times> webhook_config_reconciler)" where
  "ex_mistyped =
     startup (\<lambda>key. if key = ''VWC_RESYNC_INTERVAL'' then ''-5m'' else []) ex_enforcing
       (Some ex_client)"

lemma resync_can_be_switched_off_witness:
  "\<exists>h r as s'. ex_mistyped = Inr (h, r) \<and>
     loop_trace r reference_requeue ex_conv as
       (loop_start r (Some ex_uns) \<lparr>rw_world = ex_world, rw_events = [], rw_applied = []\<rparr>) s' \<and>
     lp_stored s' = Some []"
proof -
  have "case ex_mistyped of Inl _ \<Rightarrow> False | Inr _ \<Rightarrow> True" by code_simp
  then obtain h r where hr: "ex_mistyped = Inr (h, r)" by (auto split: sum.splits)
  have printed: "''-5m'' = CHR ''-'' # duration_text [(5, ''m'')]" by code_simp
  have unit: "set (map snd [(5 :: nat, ''m'')]) \<subseteq> set unit_names"
    "nanoseconds [(5, ''m'')] < 2 ^ 63"
    by (simp_all add: unit_names_def unit_value_def unitMap_def)
  have "ex_conv (desired_configuration r) = Inr ex_uns" by (simp add: ex_conv_def)
  from resync_can_be_switched_off [where conv = ex_conv and r = r and parts = "[(5, ''m'')]" and
      edited = "[]" and stored = ex_uns, OF ref_queue.work_queue_axioms this
      hr [unfolded ex_mistyped_def]] unit printed
  have "\<exists>as s'. loop_trace r reference_requeue ex_conv as
      (loop_start r (Some ex_uns) \<lparr>rw_world = ex_world, rw_events = [], rw_applied = []\<rparr>) s' \<and>
      lp_stored s' = Some []"
    by (fastforce simp: ex_enforcing_def)
  with hr show ?thesis by blast
qed

text \<open>
  C40.  A configuration that is absent when the program starts, deleted while no replica was
  running for instance, is not created by the controller: it does not run at all until somebody
  else creates the configuration.
\<close>

theorem absent_configuration_not_created:
  assumes "loop_trace r requeue conv as (loop_start r None w) s" and "\<not> list_ex creates as"
  shows "lp_stored s = None \<and> \<not> list_ex is_run as"
  using dormant_trace [OF assms(1) dormant_start assms(2)] by (simp add: dormant_def)

lemma absent_configuration_not_created_witness:
  "\<exists>s. loop_trace ex_reconciler reference_requeue ex_conv
      [OtherObject (CreateEvent ''other''), Deliver]
      (loop_start ex_reconciler None \<lparr>rw_world = ex_world, rw_events = [], rw_applied = []\<rparr>) s \<and>
    lp_stored s = None"
proof -
  obtain s where s: "loop_trace ex_reconciler reference_requeue ex_conv
      [OtherObject (CreateEvent ''other''), Deliver]
      (loop_start ex_reconciler None \<lparr>rw_world = ex_world, rw_events = [], rw_applied = []\<rparr>) s"
  proof -
    have "event_name (CreateEvent ''other'') \<noteq> rc_WebhookName ex_reconciler"
      by (simp add: ex_reconciler_def)
    from loop_step.other_object [OF this] that show thesis
      by (fastforce simp: loop_trace_Cons loop_start_def intro: loop_step.deliver)
  qed
  from absent_configuration_not_created [OF this] this show ?thesis by auto
qed

end
