(* ===== verification/Spec2Isabelle.thy ===== *)
theory Spec2Isabelle
  imports Further_Facts Policy Identity Server_Run Self_Healing Findings
begin

text \<open>
  flux-drift-webhook: a validating admission webhook, written in Go, that stops manual changes
  to Kubernetes objects which FluxCD applied from Git.  This library models its non-test code
  under \<open>cmd/\<close> and \<open>internal/\<close> and proves what the handler, its helpers, the informer cache, the
  configuration controller and the start-up code promise.

  \<^bold>\<open>The program.\<close>  The API server sends each write on an object with a Flux ownership label to
  \<open>Handle\<close> (\<open>internal/webhook/handler.go\<close>), which answers allowed or denied and counts one
  decision reason.  It reads the owning Kustomization or HelmRelease and namespaces through a
  cached client (\<open>cache.go\<close>), the requester from \<open>auth.go\<close>, labels and annotations through
  \<open>labels.go\<close>, the fields Flux applied and the changed fields through \<open>fields.go\<close>, and the
  owner's drift-ignore rules through \<open>ignore.go\<close>.  A controller
  (\<open>internal/controller/webhook_config.go\<close>) keeps the webhook configuration applied, and
  \<open>cmd/webhook/main.go\<close> wires both together.

  \<^bold>\<open>Theories.\<close>
  \<^item> \<open>Prelude\<close>: the functions of Go's standard library the code calls, shared lemmas.
  \<^item> \<open>Config\<close>, \<open>Reasons\<close>: \<open>internal/config/config.go\<close> and \<open>internal/webhook/reasons.go\<close>.
  \<^item> \<open>Kube_Types\<close>: JSON values, metadata, requests, responses; \<open>deps\<close>, the third-party code as
    a record of functions; the client, and the \<open>world\<close> (metric events and the number of reads).
  \<^item> \<open>Metrics\<close>, \<open>Labels\<close>, \<open>Auth\<close>: the files of these names; \<open>Metrics\<close> also orders the worlds.
  \<^item> \<open>Field_Sets\<close>, \<open>Json_Diff\<close>: \<open>fields.go\<close>; \<open>Ignore\<close>: \<open>ignore.go\<close>, and what a rule's target
    means by its documentation (the locale \<open>target_language\<close>).
  \<^item> \<open>Owner\<close>, \<open>Decisions\<close>, \<open>Handler\<close>: \<open>handler.go\<close>, from the cluster reads to \<open>Handle\<close>.
  \<^item> \<open>Handler_Contract\<close>: the interface of a check (a valid decision, few reads, no request
    counter) as a locale, interpreted on every check; \<open>Handler_Lemmas\<close>: the same for the whole
    handler, panics, handlers with the same view of the cluster, audit mode.
  \<^item> \<open>Reference\<close>: the documented behaviour of the decoders as locales, and \<open>reference_deps\<close>,
    an implementation of all third-party interfaces over a JSON parser that stays a parameter.
  \<^item> \<open>Drift\<close>: the UPDATE rule on path sets, the step relation of admitted updates and its
    invariant; \<open>Rules\<close>: the CREATE, DELETE and UPDATE rules; \<open>Identity\<close>: the owning
    reconciler, conflicts, the namespace filter, inventory ids; \<open>Policy\<close>: the admission policy,
    all rules in one predicate, which \<open>Handle\<close> implements.
  \<^item> \<open>Cache\<close>: \<open>cache.go\<close>, and the handler's answers through the cache.
  \<^item> \<open>Webhook_Config\<close>: \<open>webhook_config.go\<close>; the API server that reads the configuration is the
    parameter \<open>api_server\<close>, with its documented dispatch of a write to the entries as the locale
    \<open>api_dispatch\<close>; \<open>Controller_Loop\<close>: the controller at work, a step relation of watch events,
    work queue, requeue timer and everybody else's writes.
  \<^item> \<open>Duration\<close>: \<open>time.ParseDuration\<close>; \<open>Startup\<close>: \<open>main.go\<close> up to the handler and the
    reconciler; \<open>Process\<close>: \<open>main\<close> as a whole, its registrations and exit codes, and the
    readiness of the running manager.
  \<^item> \<open>Admission\<close>: configuration, handler and failure policy together, as the API server uses
    them on a write, and the filters of both; \<open>Last_Applied\<close>: the life of one object, between its
    reconciler and everybody else; \<open>Self_Healing\<close>: the controller and such an object side by
    side; \<open>Server_Run\<close>: concurrent requests and the shared counters.
  \<^item> \<open>Example_Cluster\<close>: a small cluster on which the properties are applied; \<open>Findings\<close>:
    ways around the protection, and behaviour that contradicts the documentation; \<open>Further_Facts\<close>: facts about single operations.

  \<^bold>\<open>Conventions.\<close>  A Go map is a list of entries in one iteration order (\<open>wf_json\<close>: unique
  keys) or, for \<open>map[string]string\<close>, a partial function; an error result is \<open>None\<close> or \<open>Inl\<close>;
  a panic is \<open>None\<close> of \<open>Handle\<close>.  A client read is indexed by its number, so that two reads
  of one request may differ, as with a cache that is updated concurrently.  The field-set
  library (structured-merge-diff) is known by the locale \<open>fieldpath_set\<close> only: sets of paths
  with insertion, union, difference, and the difference that also removes what lies below.
  Recursion is structural on JSON and lists; \<open>maxDiffDepth\<close> is the source's bound of fifty,
  and the exact diff theorem shows what lies beyond it.  Nothing uses fuel.

  \<^bold>\<open>The stored object\<close> is a transition system of the writes the API server admits: of its owner,
  a Kustomization or a HelmRelease (\<open>flux_owner\<close>), and of others.  \<open>protected_object\<close> says that it
  carries the owner's labels, has the paths \<open>P\<close> among the fields Flux applied and no
  protection-disabling annotation; \<open>agrees\<close> compares two versions of it below \<open>P\<close>.  The state keeps
  what the reconciler applied last; an excused deletion (\<open>excused_delete\<close>) ends the promise until
  its next write.  A deletion removes the object at once, without finalizers.  Its writes
  are admitted by the desired configuration (\<open>server_admits\<close>), or, beside the controller, by the
  entries that are stored when they arrive (\<open>cluster_step\<close>).

  \<^bold>\<open>The controller and the process\<close> are transition systems.  A state of the controller is the
  stored configuration, the events on their way, the work item and the timer; \<open>patience\<close> bounds
  the steps to the desired configuration and \<open>run_budget\<close> the runs a state still owes.  A state
  of the process is which parts of the manager are up.  What controller-runtime does with a
  result is the locale \<open>work_queue\<close>; that the caches and the listener come up in any order, and
  runnables after the caches, is its documented behaviour.

  \<^bold>\<open>The properties\<close> C1 to C12 say what the webhook enforces, C2, C3 and C11 for the whole chain
  from the API server on, C3 with the controller; C13 to C17 hold of every request, C14 of all
  requests of a server together;
  C18 to C25 say what the field and ignore computations compute, C26 to C31 concern identities,
  start-up and readiness, C32 to C36 the
  webhook configuration, how it and the handler filter, and its controller; C37 to C40 (in \<open>Findings\<close>) are two ways around the
  protection that the code leaves open, and two ways the controller stops watching over the
  configuration.

  \<^bold>\<open>Not modelled.\<close>  Logging, contexts and deadlines as such (the timeout is an argument of each
  read), measured durations, the decoding of bytes, TLS, the lease of leader election, flag
  parsing (\<open>command_line\<close> is its result), the API server's validation of the configuration, and
  writes through subresources, which the configuration does not select; \<open>Quote\<close> copies bytes
  outside ASCII as printable UTF-8.  The entries of the configuration are called in their order,
  not in parallel.  Third-party code (apimachinery, controller-runtime,
  structured-merge-diff, regular expressions, label selectors, the API server) is a parameter.
\<close>

section \<open>Properties: drift prevention\<close>

text \<open>
  C1.  An object under the protection of its owner, a Kustomization or a HelmRelease (the two
  ownership labels and the paths \<open>P\<close> applied by Flux, no protection-disabling annotation), stays
  under it through every sequence of updates the webhook admits in enforce mode from requesters
  that are not the owner's reconciler.  At every path at, above or below \<open>P\<close> and at most fifty
  keys deep, a value that is no object keeps its value, and no value appears where there was
  none.  The ignore rules consulted must not touch \<open>P\<close>, and nobody may put a Kustomization name
  label on an object of a HelmRelease; C37 and C38 show why.
\<close>

theorem flux_fields_survive_updates:
  assumes "object_decoding D members"
    and "(update_step D members h fi P)\<^sup>*\<^sup>* raw raw'"
    and "protection_law fi P" and "protected_object D members fi P raw"
  shows "protected_object D members fi P raw' \<and> agrees D P raw raw'"
  using assms by (rule object_decoding.updates_protect)

lemma flux_fields_survive_updates_witness:
  "value_at ex_deps ''paused'' [''spec'', ''replicas''] = Some (VStr ''1'') \<and>
   value_at ex_deps ''helm_paused'' [''spec'', ''replicas''] = Some (VStr ''1'')"
proof -
  have run: "agrees ex_deps P old new"
    if "admitted_update ex_deps set ex_handler fi P (ex_request Update alice old new) ex_world"
      "protection_law fi P" "protected_object ex_deps set fi P old"
    for fi P old new
  proof -
    from that(1) have "update_step ex_deps set ex_handler fi P
        (req_OldObject (ex_request Update alice old new)) (req_Object (ex_request Update alice old new))"
      by (rule update_step.intros)
    then have "(update_step ex_deps set ex_handler fi P)\<^sup>*\<^sup>* old new"
      by (simp add: ex_request_def)
    from flux_fields_survive_updates [OF ex_decoding this that(2,3)] show ?thesis by blast
  qed
  have "agrees ex_deps (set ex_flux_paths) ''stored'' ''paused''"
    by (rule run [of "owner_info ''flux-system'' ''apps''"]; code_simp)
  moreover have "agrees ex_deps (set ex_helm_paths) ''helm'' ''helm_paused''"
    by (rule run [of "release_info ''shop'' ''chart''"]; code_simp)
  moreover have "shields (set ex_flux_paths) [''spec'', ''replicas'']"
    "shields (set ex_helm_paths) [''spec'', ''replicas'']"
    "value_at ex_deps ''stored'' [''spec'', ''replicas''] = Some (VStr ''1'')"
    "value_at ex_deps ''helm'' [''spec'', ''replicas''] = Some (VStr ''1'')"
    by code_simp+
  ultimately show ?thesis by (simp add: agrees_def maxDiffDepth_def)
qed

text \<open>
  C2.  The stored object follows Flux across the whole chain of a started program, from the API
  server on.  From each write of the owner's reconciler until it removes the object, the object
  exists, stays under protection and agrees with what the reconciler applied last, whatever
  creations, updates and deletions of others the API server admits in between.  Only a deletion
  by the control plane, in a terminating namespace, or of an object that is being deleted
  already takes it away (\<open>excused_delete\<close>).

  This holds in enforce mode, without a namespace label filter, with the applied configuration in
  place, and with an answer or failure policy \<open>Fail\<close>.  The reconciler always applies the labels
  and \<open>P\<close>.  The writes of the others are on the main resource, none through a subresource such as
  \<open>scale\<close>, outside the excluded groups and namespaces; their requesters are not the owner's
  reconciler; and their updates are such that the ignore rules consulted do not touch \<open>P\<close> and put
  no Kustomization name label on an object of a HelmRelease (\<open>foreign_write\<close>; C37 and C38 show
  why).  Nothing supposes that the handler is called: the labels of the stored object see to it.
\<close>

theorem stored_object_follows_flux:
  assumes "object_decoding D members" and "api_dispatch S"
    and "startup env cl mgr = Inr (h, r)"
    and "fl_audit_only cl \<noteq> Some True" and "flag_value (fl_namespace_label cl) [] = []"
    and "reachable \<or> rc_FailurePolicy r = ''Fail''"
    and "(sync_step S reachable D members h r fi P)\<^sup>*\<^sup>* s s'"
    and "protection_law fi P" and "in_sync D members fi P s"
  shows "in_sync D members fi P s'"
  by (rule object_decoding.sync_steps_in_sync [OF assms(1,7,2) started_enforcing assms(8,9)])
    (fact assms(3-6))+

lemma stored_object_follows_flux_witness:
  "value_at ex_deps ''scaled_paused'' [''spec'', ''replicas''] = Some (VStr ''9'')"
proof -
  let ?P = "set ex_flux_paths" and ?fi = "owner_info ''flux-system'' ''apps''"
  let ?w = "ex_request Create (service_account ''flux-system'' ''deployer'') [] ''scaled''"
    and ?u = "ex_request Update alice ''scaled'' ''scaled_paused''"
  obtain h r where hr: "ex_serving = Inr (h, r)" using ex_serving_started by blast
  have "case ex_serving of Inl _ \<Rightarrow> False | Inr (h, r) \<Rightarrow>
      rc_FailurePolicy r = ''Fail'' \<and> reconciles ex_deps set h ?fi ?P ?w ex_world \<and>
      server_admits reference_server True ex_deps h r ?w ex_world \<and>
      foreign_write ex_deps set h r ?fi ?P ?u ex_world \<and>
      server_admits reference_server True ex_deps h r ?u ex_world"
    by code_simp
  then have adm: "reconciles ex_deps set h ?fi ?P ?w ex_world"
    "server_admits reference_server True ex_deps h r ?w ex_world"
    "foreign_write ex_deps set h r ?fi ?P ?u ex_world"
    "server_admits reference_server True ex_deps h r ?u ex_world"
    by (simp_all add: hr)
  let ?step = "sync_step reference_server True ex_deps set h r ?fi ?P"
  let ?none = "\<lparr>ss_Stored = None, ss_Applied = None\<rparr>"
    and ?last = "\<lparr>ss_Stored = Some ''scaled_paused'', ss_Applied = Some ''scaled''\<rparr>"
  have "?step ?none \<lparr>ss_Stored = Some ''scaled'', ss_Applied = Some ''scaled''\<rparr>"
    using reconciler_writes [OF adm(1) _ adm(2), of None None]
    by (simp add: ex_request_def fits_def written_def Create_def Delete_def)
  moreover have "?step \<lparr>ss_Stored = Some ''scaled'', ss_Applied = Some ''scaled''\<rparr> ?last"
    using others_write [OF adm(3) _ adm(4), of "Some ''scaled''" "Some ''scaled''"]
    by (simp add: ex_request_def fits_def written_def still_applied_def excused_delete_def
        Create_def Update_def Delete_def)
  ultimately have run: "?step\<^sup>*\<^sup>* ?none ?last"
    by (rule converse_rtranclp_into_rtranclp [OF _ r_into_rtranclp])
  have law: "protection_law ?fi ?P" by code_simp
  have start: "in_sync ex_deps set ?fi ?P ?none" by (simp add: in_sync_def)
  have flags: "fl_audit_only ex_enforcing \<noteq> Some True"
    "flag_value (fl_namespace_label ex_enforcing) [] = []"
    by (simp_all add: ex_enforcing_def ex_command_line_def flag_value_def)
  have "in_sync ex_deps set ?fi ?P ?last"
    by (rule stored_object_follows_flux [OF ex_decoding ref_server.api_dispatch_axioms
        hr [unfolded ex_serving_def] flags disjI1 run law start]) simp
  moreover have "shields ?P [''spec'', ''replicas'']"
    "value_at ex_deps ''scaled'' [''spec'', ''replicas''] = Some (VStr ''9'')"
    by code_simp+
  ultimately show ?thesis by (simp add: in_sync_def agrees_def maxDiffDepth_def)
qed

text \<open>
  C3.  Protection heals.  Controller and object run side by side, and a write is admitted by the
  entries stored at that moment; the configuration may have been deleted or edited and the object
  changed or removed meanwhile.  Once the controller has made enough steps of its own, with
  nobody tampering with the configuration any more, the configuration is the desired one.  If
  the object is then gone, or still carries its ownership labels, every repairing write of the
  owner's reconciler that fits it is admitted (core controller, declared account, or default
  account, by what the client reads); and from this write on the configuration stays, and the
  object stays in sync as in C2, through every further run without tampering, whatever foreign
  writes, runs of the controller and writes of the reconciler it interleaves.

  It holds while the handler answers, in enforce mode without a namespace label filter, for the
  foreign writes of C2.  An object that lost its ownership labels is not repaired:
  \<open>lost_labels_not_repaired\<close> in \<open>Findings\<close>.
\<close>

theorem protection_heals:
  assumes "object_decoding D members" and "api_dispatch S"
    and "startup env cl mgr = Inr (h, r)"
    and "fl_audit_only cl \<noteq> Some True" and "flag_value (fl_namespace_label cl) [] = []"
    and "conv (desired_configuration r) = Inr uns" and "executes entries_of r uns"
    and "protection_law fi P"
    and "cluster_trace S True D h r fi requeue conv entries_of as s s1"
    and "list_all (\<lambda>a. own_action a \<or> noise a) (loop_actions as)"
    and "patience (cs_Loop s) + length (filter noise (loop_actions as)) \<le>
      length (filter own_action (loop_actions as))"
    and "reconciler_account D h fi (req_UserInfo req)" and "req_Operation req \<in> {Create, Update}"
    and "fits req (ss_Stored (cs_Object s1))" and "labels_intact D req (ss_Stored (cs_Object s1))"
    and "protected_object D members fi P (req_Object req)"
  shows "lp_stored (cs_Loop s1) = Some uns \<and>
    (\<exists>s2. cluster_step S True D h r fi requeue conv entries_of (Reconciler req w) s1 s2) \<and>
    (\<forall>s2 bs s'. cluster_step S True D h r fi requeue conv entries_of (Reconciler req w) s1 s2 \<and>
       list_all (orderly D members h r fi P) bs \<and>
       cluster_trace S True D h r fi requeue conv entries_of bs s2 s' \<longrightarrow>
       lp_stored (cs_Loop s') = Some uns \<and> in_sync D members fi P (cs_Object s'))"
proof (intro conjI allI impI)
  show stored: "lp_stored (cs_Loop s1) = Some uns"
    using cluster_trace_loop [OF assms(9)] assms(10,6,11) by (rule noisy_trace_converges)
  have "flux_owner fi" using assms(8) by (simp add: protection_law_def)
  from object_decoding.repair_step [OF assms(1,7) stored startup_Inr(1) [OF assms(3)] this assms(12-14,16,15)]
  show "\<exists>s2. cluster_step S True D h r fi requeue conv entries_of (Reconciler req w) s1 s2" .
  fix s2 bs s'
  assume run: "cluster_step S True D h r fi requeue conv entries_of (Reconciler req w) s1 s2 \<and>
    list_all (orderly D members h r fi P) bs \<and>
    cluster_trace S True D h r fi requeue conv entries_of bs s2 s'"
  have "reconciles D members h fi P req w"
    using reconciler_account_recognised [OF assms(12)] assms(16) by (simp add: reconciles_def)
  moreover have "enforcing True h r" using assms(3-5) by (intro started_enforcing) simp_all
  ultimately show "lp_stored (cs_Loop s') = Some uns" "in_sync D members fi P (cs_Object s')"
    using object_decoding.repaired_stays [where conv = conv and r = r, OF assms(1) _ _ _ stored assms(2) _ assms(8,6,7)] run
    by blast+
qed

lemma protection_heals_witness:
  "value_at ex_deps ''paused'' [''spec'', ''replicas''] = Some (VStr ''1'')"
proof -
  let ?P = "set ex_flux_paths" and ?fi = "owner_info ''flux-system'' ''apps''"
  let ?req = "ex_request Update (service_account ''flux-system'' ''deployer'') ''scaled'' ''stored''"
  let ?as = "[Others (ex_update ''scaled'') ex_world, Controller (Run None)]"
  obtain h r where hr: "ex_serving = Inr (h, r)" using ex_serving_started by blast
  let ?entries_of = "\<lambda>uns. if uns = ex_uns then vwc_Webhooks (desired_configuration r) else []"
  have "case ex_serving of Inl _ \<Rightarrow> False | Inr (h, r) \<Rightarrow>
      foreign_write ex_deps set h r ?fi ?P (ex_update ''paused'') ex_world \<and>
      server_admits reference_server True ex_deps h r (ex_update ''paused'') ex_world"
    by code_simp
  then have ok: "foreign_write ex_deps set h r ?fi ?P (ex_update ''paused'') ex_world"
    "server_admits reference_server True ex_deps h r (ex_update ''paused'') ex_world"
    by (simp_all add: hr)
  have conv: "ex_conv (desired_configuration r) = Inr ex_uns" by (simp add: ex_conv_def)
  have exec: "executes ?entries_of r ex_uns" by (simp add: executes_def)
  let ?l = "\<lparr>lp_stored = Some [], lp_cached = True, lp_events = [], lp_queued = True,
    lp_timer = None, lp_world = \<lparr>rw_world = ex_world, rw_events = [], rw_applied = []\<rparr>\<rparr>"
  let ?l' = "run_reconcile r reference_requeue ex_conv None ?l"
  let ?s = "\<lambda>l stored applied. \<lparr>cs_Loop = l,
    cs_Object = \<lparr>ss_Stored = Some stored, ss_Applied = Some applied\<rparr>\<rparr>"
  let ?step = "cluster_step reference_server True ex_deps h r ?fi reference_requeue ex_conv ?entries_of"
  have keep: "still_applied ex_deps h ?fi (ex_update new) ex_world applied = applied" for new applied
    by (simp add: still_applied_def excused_delete_def ex_request_def Update_def Delete_def)
  have "?step (hd ?as) (?s ?l ''stored'' ''stored'') (?s ?l ''scaled'' ''stored'')"
    using others_step [where req = "ex_update ''scaled''" and l = ?l and w = ex_world and D = ex_deps
        and h = h and fi = ?fi and applied = "Some ''stored''" and entries_of = ?entries_of and stored = "Some ''stored''"]
    unfolding keep
    by (simp add: fits_def written_def ex_request_def entries_in_place_def ex_uns_def
        Create_def Update_def Delete_def)
  moreover have "?step (Controller (Run None)) (?s ?l ''scaled'' ''stored'') (?s ?l' ''scaled'' ''stored'')"
    by (intro controller_step loop_step.run) simp
  ultimately have as: "cluster_trace reference_server True ex_deps h r ?fi reference_requeue ex_conv
      ?entries_of ?as (?s ?l ''stored'' ''stored'') (?s ?l' ''scaled'' ''stored'')"
    by (auto simp: cluster_trace_Cons)
  have req: "req_Operation ?req \<in> {Create, Update}" "fits ?req (Some ''scaled'')"
    by (simp_all add: fits_def ex_request_def Create_def Update_def Delete_def)
  have obj: "labels_intact ex_deps ?req (Some ''scaled'')"
    "protected_object ex_deps set ?fi ?P (req_Object ?req)" "protection_law ?fi ?P"
    by code_simp+
  have account: "reconciler_account ex_deps h ?fi (req_UserInfo ?req)"
    using ex_account(1) [OF ex_serving_client [OF hr]] by (simp add: ex_request_def)
  have flags: "fl_audit_only ex_enforcing \<noteq> Some True"
    "flag_value (fl_namespace_label ex_enforcing) [] = []"
    by (simp_all add: ex_enforcing_def ex_command_line_def flag_value_def)
  note heals = protection_heals [OF ex_decoding ref_server.api_dispatch_axioms hr [unfolded ex_serving_def]
      flags conv exec obj(3) as _ _ account req(1) _ _ obj(2), of ex_world]
  have heals: "lp_stored ?l' = Some ex_uns"
    "\<exists>s2. ?step (Reconciler ?req ex_world) (?s ?l' ''scaled'' ''stored'') s2"
    "\<And>s2 bs s'. ?step (Reconciler ?req ex_world) (?s ?l' ''scaled'' ''stored'') s2 \<Longrightarrow>
       list_all (orderly ex_deps set h r ?fi ?P) bs \<Longrightarrow>
       cluster_trace reference_server True ex_deps h r ?fi reference_requeue ex_conv ?entries_of bs s2 s' \<Longrightarrow>
       in_sync ex_deps set ?fi ?P (cs_Object s')"
    using heals req(2) obj(1) by (simp_all add: patience_def)
  from heals(2) obtain s2 where s2: "?step (Reconciler ?req ex_world) (?s ?l' ''scaled'' ''stored'') s2" ..
  then have "s2 = ?s ?l' ''stored'' ''stored''"
    by cases (simp add: written_def ex_request_def Update_def Delete_def)
  moreover have "?step (Others (ex_update ''paused'') ex_world) (?s ?l' ''stored'' ''stored'')
      (?s ?l' ''paused'' ''stored'')"
    using others_step [where req = "ex_update ''paused''" and l = ?l' and w = ex_world and D = ex_deps
        and h = h and fi = ?fi and applied = "Some ''stored''" and entries_of = ?entries_of and stored = "Some ''stored''",
        OF _ admitted_in_place [OF heals(1) exec, THEN iffD2, OF ok(2)]]
    unfolding keep
    by (simp add: fits_def written_def ex_request_def Create_def Update_def Delete_def)
  ultimately have "in_sync ex_deps set ?fi ?P (cs_Object (?s ?l' ''paused'' ''stored''))"
    by (intro heals(3) [OF s2, of "[Others (ex_update ''paused'') ex_world]"])
      (simp_all add: ok(1) cluster_trace_Cons)
  then have "in_sync ex_deps set ?fi ?P \<lparr>ss_Stored = Some ''paused'', ss_Applied = Some ''stored''\<rparr>" by simp
  moreover have "shields ?P [''spec'', ''replicas'']"
    "value_at ex_deps ''stored'' [''spec'', ''replicas''] = Some (VStr ''1'')"
    by code_simp+
  ultimately show ?thesis by (simp add: in_sync_def agrees_def maxDiffDepth_def)
qed

text \<open>
  C4.  \<open>Handle\<close> implements the admission policy: with a client it always answers, and it allows a
  request exactly when it only audits or the policy permits the request.  The policy covers
  every request: out of scope, undecodable, unmanaged, from the owner, and the CREATE, UPDATE
  and DELETE rules for everybody else.
\<close>

theorem handler_implements_policy:
  assumes "object_decoding D members" and "Client h \<noteq> None"
  shows "\<exists>resp w'. Handle D h req w = Some (resp, w') \<and>
    (resp_Allowed resp \<longleftrightarrow> AuditOnly h \<or> admission_policy D members h req w)"
proof -
  have "Handle D h req w \<noteq> None"
    using assms(2) checkNamespaceScope_None_iff [of h req w] by (auto simp: Handle_None_iff)
  then show ?thesis
    using object_decoding.Handle_implements_policy [OF assms, of req w] by (auto simp: allows_def)
qed

lemma handler_implements_policy_witness:
  "admission_policy ex_deps set ex_handler (ex_update ''paused'') ex_world \<and>
   \<not> admission_policy ex_deps set ex_handler (ex_update ''scaled'') ex_world"
proof -
  have client: "Client ex_handler \<noteq> None" and mode: "\<not> AuditOnly ex_handler"
    by (simp_all add: ex_handler_def)
  have "allows ex_deps ex_handler (ex_update ''paused'') ex_world"
    "\<not> allows ex_deps ex_handler (ex_update ''scaled'') ex_world"
    by code_simp+
  with handler_implements_policy [OF ex_decoding client, of "ex_update ''paused''" ex_world]
    handler_implements_policy [OF ex_decoding client, of "ex_update ''scaled''" ex_world] mode
  show ?thesis by (auto simp: allows_def)
qed

text \<open>
  C5.  In enforce mode, an update in the handler's scope on a managed object, by anyone but the
  owning reconciler, is denied when it changes, adds or removes a value at most fifty keys deep
  (\<open>maxDiffDepth\<close>: the diff sees nothing below) at, above or below a field Flux applied, unless the
  old object is exempt or an ignored path covers the field or the change.
\<close>

theorem drift_denied:
  assumes "object_decoding D members" and "guarded_request D h req w = Some (om, old, w')"
    and "\<not> AuditOnly h" and "req_Operation req = Update"
    and "\<not> old_exempt old (request_fluxInfo req om old)"
    and "FluxManagedFields D (om_ManagedFields old) = Some F" and "p \<in> members F"
    and "unmarshal_object D (req_OldObject req) = Some oldObj"
    and "unmarshal_object D (req_Object req) = Some newObj"
    and "differs (JObj oldObj) (JObj newObj) ks" and "length ks \<le> maxDiffDepth"
    and "comparable p (names ks)"
    and "\<not> covered (members (update_ignore_set D h req old (request_fluxInfo req om old) w')) p"
    and "\<not> covered (members (update_ignore_set D h req old (request_fluxInfo req om old) w'))
             (names ks)"
  shows "\<not> allows D h req w"
  by (rule object_decoding.drift_not_allowed [OF assms(1-9) _ assms(12)])
    (use assms in \<open>auto simp: modified_paths_def\<close>)

lemma drift_denied_witness:
  "\<not> allows ex_deps ex_handler (ex_update ''scaled'') ex_world"
proof -
  let ?g = "guarded_request ex_deps ex_handler (ex_update ''scaled'') ex_world"
  obtain om old w' where g: "?g = Some (om, old, w')" using ex_guarded by blast
  let ?fi = "request_fluxInfo (ex_update ''scaled'') om old"
  let ?I = "set (update_ignore_set ex_deps ex_handler (ex_update ''scaled'') old ?fi w')"
  let ?p = "names [''spec'', ''replicas''] :: unit field_path"
  let ?old = "app_object [] ''F'' [replicas ''1'']" and ?new = "app_object [] ''F'' [replicas ''9'']"
  have "case ?g of None \<Rightarrow> False | Some (om, old, w') \<Rightarrow>
      \<not> old_exempt old (request_fluxInfo (ex_update ''scaled'') om old) \<and>
      FluxManagedFields ex_deps (om_ManagedFields old) = Some ex_flux_paths \<and>
      \<not> covered (set (update_ignore_set ex_deps ex_handler (ex_update ''scaled'') old
          (request_fluxInfo (ex_update ''scaled'') om old) w')) ?p"
    by code_simp
  with g have 1: "\<not> old_exempt old ?fi"
    "FluxManagedFields ex_deps (om_ManagedFields old) = Some ex_flux_paths"
    "\<not> covered ?I ?p"
    by simp_all
  have 2: "?p \<in> set ex_flux_paths" by (simp add: ex_flux_paths_def)
  have 3: "differs (JObj ?old) (JObj ?new) [''spec'', ''replicas'']" by code_simp
  have 4: "unmarshal_object ex_deps (req_OldObject (ex_update ''scaled'')) = Some ?old"
    "unmarshal_object ex_deps (req_Object (ex_update ''scaled'')) = Some ?new"
    by code_simp+
  show ?thesis
    by (rule drift_denied [OF ex_decoding g _ _ 1(1,2) 2 4 3])
      (use 1(3) in \<open>simp_all add: ex_handler_def ex_request_def comparable_def maxDiffDepth_def\<close>)
qed

text \<open>
  C6.  The UPDATE rule, exactly: the admitted updates are those on an exempt object, on an object
  without Flux-applied fields, and those that add no protection-disabling annotation, parse, and
  whose conflicts and releases of field ownership are all covered by the ignore rules.
\<close>

theorem update_admission:
  assumes "object_decoding D members" and "guarded_request D h req w = Some (om, old, w')"
    and "\<not> AuditOnly h" and "req_Operation req = Update"
  shows "allows D h req w \<longleftrightarrow>
     update_rule D members h req om old (request_fluxInfo req om old) w'"
  using assms by (rule object_decoding.update_allows)

lemma update_admission_witness:
  "\<exists>om old w'. guarded_request ex_deps ex_handler (ex_update ''paused'') ex_world = Some (om, old, w') \<and>
     update_rule ex_deps set ex_handler (ex_update ''paused'') om old
       (request_fluxInfo (ex_update ''paused'') om old) w'"
proof -
  obtain om old w' where g:
    "guarded_request ex_deps ex_handler (ex_update ''paused'') ex_world = Some (om, old, w')"
    using ex_guarded by blast
  have "allows ex_deps ex_handler (ex_update ''paused'') ex_world" by code_simp
  with update_admission [OF ex_decoding g] g show ?thesis
    by (simp add: ex_handler_def ex_request_def)
qed

text \<open>
  C7.  The two-step bypass is closed: on an object with Flux-applied fields and active protection, an
  update by another requester that makes a protection-disabling annotation active is denied
  with its own reason.
\<close>

theorem protection_not_switched_off:
  assumes "guarded_request D h req w = Some (om, old, w')" and "req_Operation req = Update"
    and "FluxManagedFields D (om_ManagedFields old) = Some F" and "\<not> fs_Empty D F"
    and "protection_active (om_Annotations old)" and "\<not> protection_active (om_Annotations om)"
  shows "answered_with D h req w ReasonDeniedBypassAnnotationAdded"
proof -
  have "snd (protectionDisablingAnnotationAdded (om_Annotations old) (om_Annotations om))"
    using assms(5,6) by (simp add: annotation_not_added)
  moreover have "\<not> old_exempt old fi" for fi
    using assms(5) by (auto simp: old_exempt_def protection_active_def)
  ultimately show ?thesis
    using answered_with_other [OF assms(1)] assms(2-4)
    by (simp add: decide_other_update checkUpdateFieldConflict_def split: prod.splits)
qed

lemma protection_not_switched_off_witness:
  "answered_with ex_deps ex_handler (ex_update ''bypass'') ex_world ReasonDeniedBypassAnnotationAdded"
proof -
  let ?g = "guarded_request ex_deps ex_handler (ex_update ''bypass'') ex_world"
  obtain om old w' where g: "?g = Some (om, old, w')" using ex_guarded by blast
  have "case ?g of None \<Rightarrow> False | Some (om, old, w') \<Rightarrow>
      FluxManagedFields ex_deps (om_ManagedFields old) = Some ex_flux_paths \<and>
      \<not> fs_Empty ex_deps ex_flux_paths \<and>
      protection_active (om_Annotations old) \<and> \<not> protection_active (om_Annotations om)"
    by code_simp
  with g have "FluxManagedFields ex_deps (om_ManagedFields old) = Some ex_flux_paths"
    "\<not> fs_Empty ex_deps ex_flux_paths"
    "protection_active (om_Annotations old)" "\<not> protection_active (om_Annotations om)"
    by simp_all
  with protection_not_switched_off [OF g] show ?thesis by (simp add: ex_request_def)
qed

text \<open>
  C8.  The CREATE rule, exactly: an object its owner's inventory lists is denied whatever its owner
  references and whoever asks; otherwise a controlled object, a control-plane requester or a
  readable inventory allows it, and an unreadable inventory denies it.
\<close>

theorem create_admission:
  assumes "guarded_request D h req w = Some (om, old, w')" and "\<not> AuditOnly h"
    and "req_Operation req = Create"
  shows "allows D h req w \<longleftrightarrow> create_rule D h req om (request_fluxInfo req om old) w'"
  using assms by (rule create_allows)

lemma create_admission_witness:
  "\<not> allows ex_deps ex_handler (ex_create ''stored'') ex_world"
proof -
  let ?g = "guarded_request ex_deps ex_handler (ex_create ''stored'') ex_world"
  have r: "case ?g of None \<Rightarrow> False | Some (om, old, w') \<Rightarrow>
      \<not> create_rule ex_deps ex_handler (ex_create ''stored'') om
          (request_fluxInfo (ex_create ''stored'') om old) w'"
    by code_simp
  then obtain om old w' where g: "?g = Some (om, old, w')" by (cases ?g) auto
  with r create_admission [OF g] show ?thesis by (simp add: ex_handler_def ex_request_def)
qed

text \<open>
  C9.  The DELETE rule, exactly: an exempt or already vanishing object may be deleted; otherwise only
  one without Flux-applied fields, or by the control plane; unreadable managed fields deny.
\<close>

theorem delete_admission:
  assumes "deps_fieldset D members" and "guarded_request D h req w = Some (om, old, w')"
    and "\<not> AuditOnly h" and "req_Operation req = Delete"
  shows "allows D h req w \<longleftrightarrow> delete_rule D members h req om (request_fluxInfo req om old) w'"
  using assms by (rule deps_fieldset.delete_allows)

lemma delete_admission_witness:
  "\<not> allows ex_deps ex_handler (ex_delete alice) ex_world"
proof -
  let ?g = "guarded_request ex_deps ex_handler (ex_delete alice) ex_world"
  have r: "case ?g of None \<Rightarrow> False | Some (om, old, w') \<Rightarrow>
      \<not> delete_rule ex_deps set ex_handler (ex_delete alice) om
          (request_fluxInfo (ex_delete alice) om old) w'"
    by code_simp
  then obtain om old w' where g: "?g = Some (om, old, w')" by (cases ?g) auto
  with r delete_admission [OF ex_fieldset g] show ?thesis
    by (simp add: ex_handler_def ex_request_def)
qed

text \<open>
  C10.  In scope, a request of the owning reconciler on a managed object is allowed exactly when it
  is no update or leaves each of the four ownership labels with the value it had, an absent label
  counting as an empty one (or in audit mode); otherwise it is counted as one ownership conflict
  that names both owners, and no other request of an owner is counted as a conflict.
\<close>

theorem owner_may_act_but_not_take_over:
  assumes "in_scope h req w w1" and "extractRequestMetadata D req = Some (om, old)"
    and "IsManaged (request_fluxInfo req om old)"
    and "isOwningFluxReconciler D h req (request_fluxInfo req om old) w1 = (True, w2)"
  shows "let keeps = (req_Operation req = Update \<longrightarrow> same_ownership_labels (om_Labels om) (om_Labels old))
    in \<exists>resp w'. Handle D h req w = Some (resp, w') \<and>
      (resp_Allowed resp \<longleftrightarrow> keeps \<or> AuditOnly h) \<and>
      calls ownershipConflictsTotal w' =
        calls ownershipConflictsTotal w @
          (if keeps then []
           else [CounterInc (col_Name ownershipConflictsTotal)
                   [gvk_Kind (req_Kind req), fluxOwnerKey (GetFluxManagementInfo (om_Labels old)),
                    fluxOwnerKey (request_fluxInfo req om old)]])"
  using owner_answer [OF assms] unfolding isOwningController_iff conflict_event_def Let_def .

lemma owner_may_act_but_not_take_over_witness:
  "\<exists>resp w'. Handle ex_deps ex_handler
      (ex_request Update (service_account ''flux-system'' ''deployer'') ''stored'' ''scaled'')
      ex_world = Some (resp, w') \<and> resp_Allowed resp"
proof -
  let ?req = "ex_request Update (service_account ''flux-system'' ''deployer'') ''stored'' ''scaled''"
  have r: "case extractRequestMetadata ex_deps ?req of None \<Rightarrow> False | Some (om, old) \<Rightarrow>
      IsManaged (request_fluxInfo ?req om old) \<and>
      fst (isOwningFluxReconciler ex_deps ex_handler ?req (request_fluxInfo ?req om old) ex_world) \<and>
      same_ownership_labels (om_Labels om) (om_Labels old)"
    by code_simp
  then obtain om old where e: "extractRequestMetadata ex_deps ?req = Some (om, old)"
    by (cases "extractRequestMetadata ex_deps ?req") auto
  obtain w2 where own: "isOwningFluxReconciler ex_deps ex_handler ?req
      (request_fluxInfo ?req om old) ex_world = (True, w2)"
    using r e by (cases "isOwningFluxReconciler ex_deps ex_handler ?req
      (request_fluxInfo ?req om old) ex_world") auto
  have "in_scope ex_handler ?req ex_world ex_world" by code_simp
  from owner_may_act_but_not_take_over [OF this e _ own] r e show ?thesis by (auto simp: Let_def)
qed

text \<open>
  C11.  The owner's reconciler is not locked out: a request of it whose metadata decodes and which,
  when it is an update, leaves the four ownership labels as they are (absent counts as empty), is
  admitted by the API server whatever the configuration's entries call, in and out of the
  handler's scope, in both modes, and, under failure policy \<open>Ignore\<close>, without an answer too.

  The reconciler is a core Flux controller of the Flux namespace; or, in the owner's namespace, the
  service account that the owner declares in every read of it, or the default account when the
  owner declares none or cannot be read (\<open>reconciler_account\<close>).  A tenant's own account is thus
  recognised only while its owner can be read; a failed read denies it, as \<open>main.go\<close> notes.
\<close>

theorem reconciler_not_locked_out:
  assumes "startup env cl mgr = Inr (h, r)"
    and "extractRequestMetadata D req = Some (om, old)"
    and "reconciler_account D h (request_fluxInfo req om old) (req_UserInfo req)"
    and "req_Operation req = Update \<longrightarrow> same_ownership_labels (om_Labels om) (om_Labels old)"
    and "reachable \<or> rc_FailurePolicy r = ''Ignore''"
  shows "server_admits S reachable D h r req w"
  using assms(2) startup_Inr(1) [OF assms(1)] assms(3,4)
  by (rule reconciler_admitted) (use assms(5) in auto)

lemma reconciler_not_locked_out_witness:
  "\<exists>h r. ex_serving = Inr (h, r) \<and>
     server_admits reference_server True ex_deps h r
       (ex_request Update (service_account ''mallory'' ''robot'') ''relabelled'' ''relabelled'') ex_world"
proof -
  let ?req = "ex_request Update (service_account ''mallory'' ''robot'') ''relabelled'' ''relabelled''"
  obtain h r where hr: "ex_serving = Inr (h, r)" using ex_serving_started by blast
  have "case extractRequestMetadata ex_deps ?req of None \<Rightarrow> False | Some (om, old) \<Rightarrow>
      request_fluxInfo ?req om old = owner_info ''mallory'' ''evil'' \<and>
      same_ownership_labels (om_Labels om) (om_Labels old)"
    by code_simp
  then obtain om old where e: "extractRequestMetadata ex_deps ?req = Some (om, old)"
    "request_fluxInfo ?req om old = owner_info ''mallory'' ''evil''"
    "same_ownership_labels (om_Labels om) (om_Labels old)"
    by (cases "extractRequestMetadata ex_deps ?req") auto
  have "reconciler_account ex_deps h (request_fluxInfo ?req om old) (req_UserInfo ?req)"
    using ex_account(2) [OF ex_serving_client [OF hr]] by (simp add: e(2)) (simp add: ex_request_def)
  from reconciler_not_locked_out [OF hr [unfolded ex_serving_def] e(1) this] e(3) hr
  show ?thesis by blast
qed

text \<open>
  C12.  Who is the owning reconciler: a core Flux controller of the Flux namespace, or, in the owner's
  namespace only, the service account the owner declares, or the default reconciler account when
  it declares none or cannot be read.
\<close>

theorem owning_reconciler_identity:
  "fst (isOwningFluxReconciler D h req fi w) \<longleftrightarrow>
     IsFluxController (req_UserInfo req) (FluxNamespace h) \<or>
     (\<exists>name. ParseServiceAccount (req_UserInfo req) = Some (ControllerNS fi, name) \<and>
        (case declared_sa D h fi w of
           Some sa \<Rightarrow> name = sa
         | None \<Rightarrow> name \<in> set FluxReconcilerServiceAccounts))"
  by (rule isOwningFluxReconciler_iff)

section \<open>Properties: the handler as a whole\<close>

text \<open>
  C13.  Every answer is one decision: exactly one reason of the documented list accounts for it, with
  one increment of the request counter under this reason, one increment of the denial counter
  exactly when the reason is a denial, and the response allows exactly when the reason does or
  the handler only audits.  An answer takes at most three reads of the cluster, and only adds to
  the metrics.
\<close>

theorem one_counted_answer:
  assumes "Handle D h req w = Some (resp, w')"
  shows "(\<exists>!reason. reason \<in> set AllDecisionReasons \<and> accounted req reason w w' \<and>
      (resp_Allowed resp \<longleftrightarrow> allow_reason reason \<or> AuditOnly h)) \<and>
    w \<le> w' \<and> w_reads w' \<le> w_reads w + 3"
  using Handle_answer [OF assms]
  by (auto simp: answer_ok_def accounted_def request_event_def)

lemma one_counted_answer_witness:
  "\<exists>resp w'. Handle ex_deps ex_handler (ex_update ''scaled'') ex_world = Some (resp, w') \<and>
     (\<exists>!reason. reason \<in> set AllDecisionReasons \<and>
        accounted (ex_update ''scaled'') reason ex_world w' \<and>
        (resp_Allowed resp \<longleftrightarrow> allow_reason reason \<or> AuditOnly ex_handler)) \<and>
     w_reads w' \<le> 3"
proof -
  have "\<not> Option.is_none (Handle ex_deps ex_handler (ex_update ''scaled'') ex_world)" by code_simp
  then obtain resp w' where "Handle ex_deps ex_handler (ex_update ''scaled'') ex_world = Some (resp, w')"
    by (auto simp: Option.is_none_def)
  moreover have "w_reads ex_world = 0" by (simp add: ex_world_def)
  ultimately show ?thesis using one_counted_answer by fastforce
qed

text \<open>
  C14.  The counters of a server that answers requests concurrently add up, however the events
  interleave: over all decisions, the request counter of an operation is the number of requests;
  the denial counter over the kinds equals the request counter over the denial reasons; in
  enforce mode the denial counter of an operation and kind is the number of refused requests;
  and no Prometheus call panics for an unknown name or a wrong number of labels.
\<close>

theorem counters_add_up:
  assumes "server_run D h ss w"
  shows "requests_total w operation = length (filter (with_operation operation) ss) \<and>
    denials_total w operation (sv_Kind ` set ss) = denied_requests_total w operation \<and>
    (\<not> AuditOnly h \<longrightarrow> counter_value w denialsTotal [operation, kind] =
       length (filter (\<lambda>s. with_operation operation s \<and> sv_Kind s = kind \<and> refused s) ss)) \<and>
    metrics_ok w"
  using run_requests_total [OF assms] run_denials_total [OF assms] run_denials [OF assms]
    run_metrics_ok [OF assms]
  by simp

lemma counters_add_up_witness:
  "\<exists>ss w. server_run ex_deps ex_handler ss w \<and> requests_total w Update = 2 \<and>
     counter_value w denialsTotal [Update, ''Deployment''] = 1"
proof -
  let ?H = "\<lambda>new. Handle ex_deps ex_handler (ex_update new) \<lparr>w_metrics = [], w_reads = 0\<rparr>"
  have "list_all (\<lambda>(new, allowed). case ?H new of None \<Rightarrow> False
        | Some (resp, w') \<Rightarrow> resp_Allowed resp = allowed) [(''paused'', True), (''scaled'', False)]"
    by code_simp
  then obtain resp1 w1 resp2 w2 where H: "?H ''paused'' = Some (resp1, w1)" "resp_Allowed resp1"
    "?H ''scaled'' = Some (resp2, w2)" "\<not> resp_Allowed resp2"
    by (auto split: option.splits)
  let ?s1 = "\<lparr>sv_Request = ex_update ''paused'', sv_Response = resp1, sv_Events = w_metrics w1\<rparr>"
    and ?s2 = "\<lparr>sv_Request = ex_update ''scaled'', sv_Response = resp2, sv_Events = w_metrics w2\<rparr>"
  let ?w = "\<lparr>w_metrics = w_metrics w2 @ w_metrics w1, w_reads = 0\<rparr>"
  have "interleaving [w_metrics w2] (w_metrics w2)"
    using interleaving_Cons [OF interleaving_Nil, of "w_metrics w2" "w_metrics w2"] by simp
  then have "interleaving [w_metrics w1, w_metrics w2] (w_metrics w2 @ w_metrics w1)"
    using append_interleaves(2) by (rule interleaving_Cons)
  moreover have "serves ex_deps ex_handler ?s1" "serves ex_deps ex_handler ?s2"
    using serves.intros [where D = ex_deps and h = ex_handler and c = "Client ex_handler"] H(1,3) by simp_all
  ultimately have run: "server_run ex_deps ex_handler [?s1, ?s2] ?w"
    by (simp add: server_run_def)
  have "\<not> AuditOnly ex_handler" by (simp add: ex_handler_def)
  with counters_add_up [OF run, of Update "''Deployment''"] H(2,4) run show ?thesis
    by (intro exI [of _ "[?s1, ?s2]"] exI [of _ ?w])
      (simp add: with_operation_def sv_Kind_def refused_def ex_request_def)
qed

text \<open>
  C15.  Audit mode takes the same decisions, with the same metrics and reads, as enforce mode, and
  rewrites only the response: a denial becomes an allowed response that carries its message.
\<close>

theorem audit_mode_only_rewrites_the_response:
  "Handle D (h\<lparr>AuditOnly := True\<rparr>) req w =
     map_option (map_prod audit_view id) (Handle D (h\<lparr>AuditOnly := False\<rparr>) req w)"
  by (rule Handle_mode)

text \<open>
  C16.  Reading the owners through the stripped informer cache changes no answer, no metric and no
  read of the handler.
\<close>

theorem cache_is_transparent:
  assumes "nested_access D" and "Client h = Some c"
    and "\<And>n timeout gvk ns name u. get_unstructured c n timeout gvk ns name = Some u \<Longrightarrow>
           object_gvk u = gvk"
  shows "Handle D (h\<lparr>Client := Some (cached_client object_gvk strip c)\<rparr>) req w = Handle D h req w"
proof (rule same_view_Handle)
  show "same_view D (h\<lparr>Client := Some (cached_client object_gvk strip c)\<rparr>) h"
    using assms by (rule nested_access.same_view_cached)
qed simp

lemma cache_is_transparent_witness:
  "Handle ex_deps (ex_handler\<lparr>Client :=
       Some (cached_client (\<lambda>_. the (ownerGVK ManagedByKustomization))
               (\<lambda>obj :: unit runtime_object. Some obj) ex_client)\<rparr>)
     (ex_update ''scaled'') ex_world =
   Handle ex_deps ex_handler (ex_update ''scaled'') ex_world"
  by (rule cache_is_transparent [OF ex_access])
    (auto simp: ex_handler_def ex_client_def split: if_splits)

text \<open>
  C17.  The namespace filter: a cluster-scoped request is processed; a namespaced one when its
  namespace is not built-in excluded and, under a configured label, carries it with the
  configured value; an unreadable namespace is processed.
\<close>

theorem namespace_filter:
  assumes "Client h = Some c"
  shows "map_option (fst \<circ> fst) (shouldProcessNamespace h ns w) =
     Some (ns = [] \<or>
       ns \<notin> set ExcludedNamespaces \<and>
       (NamespaceLabel h = [] \<or>
        (case get_namespace c (w_reads w) (fetch_timeout h) ns of
           None \<Rightarrow> True
         | Some meta \<Rightarrow> namespace_selected h meta)))"
  using assms by (rule shouldProcessNamespace_iff)

lemma namespace_filter_witness:
  "map_option (fst \<circ> fst)
     (shouldProcessNamespace (ex_handler\<lparr>NamespaceLabel := ''guarded''\<rparr>) ''shop'' ex_world) = Some False"
proof -
  let ?h = "ex_handler\<lparr>NamespaceLabel := ''guarded''\<rparr>"
  have "Client ?h = Some ex_client" by (simp add: ex_handler_def)
  from namespace_filter [OF this, of "''shop''" ex_world] show ?thesis
    by (simp add: ex_handler_def ex_client_def namespace_selected_def config_defs)
qed

section \<open>Properties: fields and ignore rules\<close>

text \<open>
  C18.  The value diff records exactly the paths at which the two objects differ, down to the depth
  limit: a field one side lacks, or two values that are not both objects and are not equal.
\<close>

theorem diff_records_exactly_the_changes:
  assumes "fieldpath_set D members" and "wf_map old" and "wf_map new"
  shows "members (ComputeFieldDiff D (Some old) (Some new)) =
     {names ks | ks. differs (JObj old) (JObj new) ks \<and> length ks \<le> maxDiffDepth}"
  using assms by (rule fieldpath_set.members_ComputeFieldDiff)

lemma diff_records_exactly_the_changes_witness:
  "names [''spec'', ''replicas''] \<in> set (ComputeFieldDiff ex_deps (Some ex_old) (Some ex_new))"
proof -
  have wf: "wf_map ex_old" "wf_map ex_new" by code_simp+
  have "differs (JObj ex_old) (JObj ex_new) [''spec'', ''replicas'']" by code_simp
  then show ?thesis
    unfolding diff_records_exactly_the_changes [OF ex_fieldpath wf]
    by (intro CollectI exI [of _ "[''spec'', ''replicas'']"]) (simp add: maxDiffDepth_def)
qed

text \<open>
  C19.  The diff does not depend on the order in which Go visits the maps.
\<close>

theorem diff_ignores_map_order:
  assumes "fieldpath_set D members" and "wf_map old" and "wf_map new"
    and "wf_map old'" and "wf_map new'"
    and "abs_json (JObj old) = abs_json (JObj old')" and "abs_json (JObj new) = abs_json (JObj new')"
  shows "members (ComputeFieldDiff D (Some old) (Some new)) =
     members (ComputeFieldDiff D (Some old') (Some new'))"
  using differs_abs_cong [OF assms(2,4,3,5,6,7)]
  by (simp add: fieldpath_set.members_ComputeFieldDiff [OF assms(1)] assms(2-5) del: wf_json.simps)

lemma diff_ignores_map_order_witness:
  "set (ComputeFieldDiff ex_deps (Some ex_old) (Some ex_new)) =
     set (ComputeFieldDiff ex_deps (Some (rev ex_old)) (Some ex_new))"
proof (rule diff_ignores_map_order [OF ex_fieldpath])
  show "wf_map ex_old" "wf_map ex_new" "wf_map (rev ex_old)" "wf_map ex_new" by code_simp+
  have "wf_map ex_old" "wf_map (rev ex_old)" "valuesEqual (JObj ex_old) (JObj (rev ex_old))"
    by code_simp+
  then show "abs_json (JObj ex_old) = abs_json (JObj (rev ex_old))"
    using valuesEqual_abs by blast
qed (rule refl)

text \<open>
  C20.  Two field sets conflict exactly when some path of one lies at, above or below one of the
  other, and the ignore rules waive the conflict exactly when an ignored path lies at or above
  each of the paths in conflict.
\<close>

theorem conflicts_and_waivers:
  assumes "fieldpath_set D members"
  shows "(HasFluxManagedFieldConflict D (Some m) (Some f) \<longleftrightarrow>
       (\<exists>p\<in>members m. \<exists>q\<in>members f. comparable p q)) \<and>
     (fs_Empty D (WaiveIgnoredConflicts D (Some (GetConflictingFields D (Some m) (Some f))) (Some ig))
       \<longleftrightarrow> (\<forall>p\<in>touched (members m) (members f). covered (members ig) p))"
  using assms
  by (auto simp: fieldpath_set.HasFluxManagedFieldConflict_iff comparable_def
      fieldpath_set.Empty_iff fieldpath_set.members_WaiveIgnoredConflicts
      fieldpath_set.members_GetConflictingFields touched_def)

lemma conflicts_and_waivers_witness:
  "HasFluxManagedFieldConflict ex_deps (Some [names [''spec'']]) (Some ex_flux_paths) \<and>
   fs_Empty ex_deps (WaiveIgnoredConflicts ex_deps
     (Some (GetConflictingFields ex_deps (Some [names [''spec'']]) (Some ex_flux_paths)))
     (Some [names [''spec'']]))"
  using conflicts_and_waivers [OF ex_fieldpath, of "[names [''spec'']]" ex_flux_paths
      "[names [''spec'']]"]
  by (auto simp: ex_flux_paths_def comparable_def touched_def covered_def)

text \<open>
  C21.  \<open>FluxManagedFields\<close> fails exactly when one of the entries that a Flux manager applied has
  fields that do not parse; otherwise it is the union of the fields of these entries.  Flux
  managers are the two controllers, with or without a slash and a version; other managers,
  other operations and entries without fields play no role.
\<close>

theorem flux_managed_fields:
  assumes "fieldpath_set D members"
  shows "(FluxManagedFields D mfs = None \<longleftrightarrow>
      (\<exists>mf\<in>set mfs. applied_by_flux mf \<and>
        (\<exists>raw. mf_FieldsV1 mf = Some raw \<and> fs_FromJSON D raw = None))) \<and>
    (\<forall>F. FluxManagedFields D mfs = Some F \<longrightarrow>
      members F = {p. \<exists>mf\<in>set mfs. applied_by_flux mf \<and>
        (\<exists>raw fieldSet. mf_FieldsV1 mf = Some raw \<and> fs_FromJSON D raw = Some fieldSet \<and>
           p \<in> members fieldSet)})"
  using fieldpath_set.flux_fields_loop_None [OF assms, of mfs "fs_NewSet D"]
    fieldpath_set.FluxManagedFields_members [OF assms, of mfs]
  by (simp add: FluxManagedFields_def flux_entry_iff)

lemma flux_managed_fields_witness:
  "FluxManagedFields ex_deps
     [\<lparr>mf_Manager = ''kubectl'', mf_Operation = ''Apply'', mf_FieldsV1 = Some ''?''\<rparr>] \<noteq> None \<and>
   FluxManagedFields ex_deps
     [\<lparr>mf_Manager = ''helm-controller/v1'', mf_Operation = ''Apply'', mf_FieldsV1 = Some ''?''\<rparr>] = None"
proof -
  have "fs_FromJSON ex_deps ''?'' = None"
    by (simp add: ex_deps_def reference_deps_def list_fieldset_def ex_fieldsV1_def)
  then show ?thesis by (simp add: flux_managed_fields [OF ex_fieldpath] applied_by_flux_def)
qed

text \<open>
  C22.  The JSON pointer of any list of keys, slashes and tildes escaped, is read back as these keys.
\<close>

theorem json_pointer_round_trip: "jsonPointerToPath (json_pointer ks) = Some (names ks)"
  by (rule jsonPointerToPath_json_pointer)

text \<open>
  C23.  The ignore set, when there is one, has the path of every pointer of the rules whose target
  selects the object, and nothing else; the one exception is the empty pointer, which waives
  nothing although it addresses the whole document (\<open>root_pointer_waives_nothing\<close>).  A target
  selects an object when each of its patterns for group, version, kind, name and namespace is
  empty or matches the object's value from end to end, and each selector is empty or holds.  This
  supposes that the patterns and selectors of the targets are well-formed by themselves.
\<close>

theorem ignore_set_is_union_of_matching_rules:
  assumes "deps_fieldset D members" and "pattern_order_ok D" and "target_language D full_match holds"
    and "\<And>r. r \<in> set rules \<Longrightarrow> target_compiles D (ir_target r)"
    and "ignoreSetForObject D rules gvk name namespace ls as = Some ig"
  shows "members ig =
     {p. p \<noteq> [] \<and> (\<exists>r\<in>set rules.
        target_selects D full_match holds (ir_target r) gvk name namespace ls as \<and>
        (\<exists>ptr\<in>set (ir_paths r). jsonPointerToPath ptr = Some p))}"
proof -
  have "target_matches D (ir_target r) gvk name namespace ls as \<longleftrightarrow>
      target_selects D full_match holds (ir_target r) gvk name namespace ls as" if "r \<in> set rules" for r
    using assms(3,4) that by (intro target_language.target_matches_selects) auto
  then have "set (matching_rules D rules gvk name namespace ls as) =
      {r \<in> set rules. target_selects D full_match holds (ir_target r) gvk name namespace ls as}"
    by (auto simp: matching_rules_def)
  moreover have "p \<in> pointer_paths ptrs \<longleftrightarrow>
      p \<noteq> [] \<and> (\<exists>ptr\<in>set ptrs. jsonPointerToPath ptr = Some p)" for p :: "'b field_path" and ptrs
    unfolding pointer_paths_def image_iff mem_Collect_eq by metis
  ultimately show ?thesis
    unfolding deps_fieldset.members_ignoreSetForObject [OF assms(1,2,5)] by blast
qed

lemma ignore_set_is_union_of_matching_rules_witness:
  "\<exists>ig. ignoreSetForObject ex_deps ex_target_rules ex_gvk ''web'' ''shop'' [''tier'' \<mapsto> ''front''] Map.empty =
     Some ig \<and> set ig = {names [''spec'']}"
proof -
  let ?ls = "[''tier'' \<mapsto> ''front''] :: string_map"
  have "\<not> Option.is_none (ignoreSetForObject ex_deps ex_target_rules ex_gvk ''web'' ''shop'' ?ls Map.empty)"
    "list_all (\<lambda>r. target_compiles ex_deps (ir_target r)) ex_target_rules"
    by code_simp+
  then obtain ig where
    ig: "ignoreSetForObject ex_deps ex_target_rules ex_gvk ''web'' ''shop'' ?ls Map.empty = Some ig"
    and ok: "\<And>r. r \<in> set ex_target_rules \<Longrightarrow> target_compiles ex_deps (ir_target r)"
    by (auto simp: Option.is_none_def list_all_iff)
  have "target_language ex_deps (\<lambda>pat s. s = anchored_core pat) (\<lambda>expr ls. ls expr \<noteq> None)"
    unfolding ex_deps_def by (rule ref_language.target_language_axioms)
  note set_ig = ignore_set_is_union_of_matching_rules [OF ex_fieldset ex_pattern_order this ok ig]
  have "target_selects ex_deps (\<lambda>pat s. s = anchored_core pat) (\<lambda>expr ls. ls expr \<noteq> None)
      (ex_target ''web'') ex_gvk ''web'' ''shop'' ?ls Map.empty"
    "\<not> target_selects ex_deps (\<lambda>pat s. s = anchored_core pat) (\<lambda>expr ls. ls expr \<noteq> None)
      (ex_target ''we'') ex_gvk ''web'' ''shop'' ?ls Map.empty"
    "jsonPointerToPath ''/spec'' = Some (names [''spec''] :: unit field_path)"
    "jsonPointerToPath [] = Some ([] :: unit field_path)"
    by code_simp+
  with set_ig ig show ?thesis by (auto simp: ex_target_rules_def)
qed

text \<open>
  C24.  One malformed pointer in a matching rule voids every waiver.
\<close>

theorem malformed_pointer_voids_all_waivers:
  assumes "pattern_order_ok D"
    and "r \<in> set (matching_rules D rules gvk name namespace ls as)" and "ptr \<in> set (ir_paths r)"
    and "ptr \<noteq> []" and "\<not> HasPrefix ptr ''/''"
  shows "ignoreSetForObject D rules gvk name namespace ls as = None"
proof (rule ccontr)
  assume "ignoreSetForObject D rules gvk name namespace ls as \<noteq> None"
  then obtain ig where "ignore_rules_loop D 0 rules gvk name namespace ls as (fs_NewSet D) = Some ig"
    by (auto simp: ignoreSetForObject_def)
  from ignore_rules_loop_SomeD [OF this assms(1-3)] assms(4,5) show False
    by (simp add: jsonPointerToPath_None_iff)
qed

lemma malformed_pointer_voids_all_waivers_witness:
  "ignoreSetForObject ex_deps
     [\<lparr>ir_paths = [''/spec'', ''spec''], ir_target = []\<rparr>] ex_gvk ''web'' ''shop'' Map.empty Map.empty = None"
  by (rule malformed_pointer_voids_all_waivers [OF ex_pattern_order,
        where r = "\<lparr>ir_paths = [''/spec'', ''spec''], ir_target = []\<rparr>" and ptr = "''spec''"])
    (simp_all add: matching_rules_def target_matches_def HasPrefix_def)

text \<open>
  C25.  When patterns and selectors compile, whether a rule matches does not depend on the order in
  which Go visits its patterns.
\<close>

theorem rule_matching_independent_of_map_order:
  assumes "pattern_order_ok D"
    and "\<And>key. key \<in> set pattern_keys \<Longrightarrow> pattern_result D target gvk name namespace key \<noteq> None"
    and "selectorMatches D target ''labelSelector'' ls \<noteq> None"
    and "selectorMatches D target ''annotationSelector'' as \<noteq> None"
  shows "ruleMatchesObject D i target gvk name namespace ls as =
     Some (target_matches D target gvk name namespace ls as)"
  using assms by (rule ruleMatchesObject_total)

lemma rule_matching_independent_of_map_order_witness:
  "ruleMatchesObject ex_deps 0 (ex_target ''we'') ex_gvk ''web'' ''shop'' [''tier'' \<mapsto> ''front''] Map.empty =
     Some (target_matches ex_deps (ex_target ''we'') ex_gvk ''web'' ''shop'' [''tier'' \<mapsto> ''front''] Map.empty)"
proof (rule rule_matching_independent_of_map_order [OF ex_pattern_order])
  have "list_all (\<lambda>key. pattern_result ex_deps (ex_target ''we'') ex_gvk ''web'' ''shop'' key \<noteq> None)
      pattern_keys"
    by code_simp
  then show "key \<in> set pattern_keys \<Longrightarrow>
      pattern_result ex_deps (ex_target ''we'') ex_gvk ''web'' ''shop'' key \<noteq> None" for key
    by (simp add: list_all_iff)
  show "selectorMatches ex_deps (ex_target ''we'') ''labelSelector'' [''tier'' \<mapsto> ''front''] \<noteq> None"
    "selectorMatches ex_deps (ex_target ''we'') ''annotationSelector'' Map.empty \<noteq> None"
    by code_simp+
qed

section \<open>Properties: identities and start-up\<close>

text \<open>
  C26.  Inventory ids are injective on names without underscores, the colon escape of RBAC names
  included: no object is taken for another one of the inventory.
\<close>

theorem inventory_ids_injective:
  assumes "id_safe g k ns n" and "id_safe g' k' ns' n'"
    and "inventoryID g k ns n = inventoryID g' k' ns' n'"
  shows "g = g' \<and> k = k' \<and> ns = ns' \<and> n = n'"
  using assms by (rule inventoryID_inject)

lemma inventory_ids_injective_witness:
  "inventoryID ''rbac.authorization.k8s.io'' ''Role'' ''shop'' ''a:b'' \<noteq>
     inventoryID ''rbac.authorization.k8s.io'' ''Role'' ''shop'' ''a-b''"
  using inventory_ids_injective [of "''rbac.authorization.k8s.io''" "''Role''" "''shop''" "''a:b''"
      "''rbac.authorization.k8s.io''" "''Role''" "''shop''" "''a-b''"]
  by (auto simp: id_safe_def)

text \<open>
  C27.  The effective allow-list is the built-in one followed by the new entries in their order,
  without repetitions, and every entry of it recognises some identity: none is silently inert.
  A single new entry of an invalid form is an error.
\<close>

theorem effective_allow_list:
  "if \<exists>e\<in>set (splitCSV csv). e \<notin> set DefaultSystemControllerServiceAccounts \<and> \<not> valid_entry e
   then \<exists>err. mergeSystemControllerSAs csv = Inl err
   else mergeSystemControllerSAs csv =
          Inr (keep_first (DefaultSystemControllerServiceAccounts @ splitCSV csv)) \<and>
        (\<forall>e\<in>set DefaultSystemControllerServiceAccounts \<union> set (splitCSV csv).
           \<exists>u. IsSystemController u [e])"
  using mergeSystemControllerSAs_result [of csv] defaults_valid
  by (auto simp: list_all_iff intro!: valid_entry_live)

lemma effective_allow_list_witness: "\<exists>u. IsSystemController u [''ci:deployer'']"
proof -
  let ?csv = "'' ci:deployer, system:apiserver''"
  have "splitCSV ?csv = [''ci:deployer'', ''system:apiserver'']" by code_simp
  moreover have "mergeSystemControllerSAs ?csv =
      Inr (DefaultSystemControllerServiceAccounts @ [''ci:deployer''])"
    by code_simp
  ultimately show ?thesis
    using effective_allow_list [of ?csv] by (simp split: if_splits)
qed

text \<open>
  C28.  Without resync flags, a \<open>VWC_RESYNC_INTERVAL\<close> written as whole numbers with units, and
  accepted at start-up, is the sum of its parts in nanoseconds modulo \<open>2 ^ 64\<close>, and the sum did not
  overflow 63 bits: a larger one ends the start-up, unless one of the parts is just \<open>2 ^ 63\<close>
  nanoseconds, the one case in which \<open>time.ParseDuration\<close> wraps around.
\<close>

theorem resync_interval_from_environment:
  assumes "startup env cl mgr = Inr (h, r)"
    and "fl_vwc_resync_interval cl = None" and "fl_discovery_interval cl = None"
    and "env ''VWC_RESYNC_INTERVAL'' = duration_text parts"
    and "parts \<noteq> []" and "set (map snd parts) \<subseteq> set unit_names"
  shows "rc_ResyncInterval r = int (nanoseconds parts mod 2 ^ 64) \<and>
    (nanoseconds parts < 2 ^ 63 \<or> (2 ^ 63, ''ns'') \<in> set parts)"
proof -
  obtain d where d: "resyncIntervalDefault env = Inr d" "rc_ResyncInterval r = resync_interval cl d"
    using startup_resync [OF assms(1)] by blast
  have "rc_ResyncInterval r = d" using d assms(2,3) by (simp add: resync_interval_precedence)
  moreover have "ParseDuration (duration_text parts) = Inr d"
    using d(1) assms(4) unit_text_not_zero [OF assms(5,6)]
    by (auto simp: resyncIntervalDefault_def getEnvDuration_def Let_def split: sum.splits if_splits)
  ultimately show ?thesis using ParseDuration_accepts [OF assms(5,6)] by simp
qed

lemma resync_interval_from_environment_witness:
  "\<exists>h r. ex_serving = Inr (h, r) \<and> rc_ResyncInterval r = 5400000000000"
proof -
  obtain h r where hr: "ex_serving = Inr (h, r)" using ex_serving_started by blast
  have printed: "ex_environment ''VWC_RESYNC_INTERVAL'' = duration_text [(1, ''h''), (30, ''m'')]"
    by code_simp
  have "rc_ResyncInterval r = int (nanoseconds [(1, ''h''), (30, ''m'')])"
    using resync_interval_from_environment [OF hr [unfolded ex_serving_def] _ _ printed]
    by (simp add: ex_enforcing_def unit_names_def unit_value_def unitMap_def)
  then have "rc_ResyncInterval r = 5400000000000" by (simp add: unit_value_def unitMap_def)
  with hr show ?thesis by blast
qed



text \<open>
  C30.  A started replica reports ready only when the TLS listener is up and the informer caches have
  synced, whatever the order in which the manager's parts come up.
\<close>

theorem ready_only_when_serving:
  assumes "main co newManager env cl = (code, acts)" and "StartManager \<in> set acts"
    and "(manager_step acts)\<^sup>*\<^sup>* process_start p" and "readyz acts p"
  shows "pr_listening p \<and> pr_cachesSynced p"
proof -
  from assms(1,2) obtain mgr h r where "acts = wired_calls (manager_options_of co env cl) mgr h r"
    by (blast elim: main_cases)
  with assms(3,4) process_ok_reachable [of acts p] show ?thesis
    by (simp add: readyz_wired process_ok_def)
qed

lemma ready_only_when_serving_witness: "pr_listening ex_ready \<and> pr_cachesSynced ex_ready"
proof (rule ready_only_when_serving [OF ex_main_run ex_ready_reachable])
  show "readyz (snd ex_main) ex_ready"
    by (rule main_cases [OF ex_main_run(1)])
      (simp_all add: readyz_wired ex_ready_def)
qed

text \<open>
  C31.  Every started replica can still become ready from any state it reaches, without being elected
  leader, and once ready it stays ready: the signal channel is closed once and never twice.
\<close>

theorem every_replica_becomes_ready:
  assumes "main co newManager env cl = (code, acts)" and "StartManager \<in> set acts"
    and "(manager_step acts)\<^sup>*\<^sup>* process_start p"
  shows "\<exists>p'. (standby_step acts)\<^sup>*\<^sup>* p p' \<and> readyz acts p' \<and>
    (\<forall>p''. (manager_step acts)\<^sup>*\<^sup>* p' p'' \<longrightarrow> readyz acts p'')"
proof -
  from assms(1,2) obtain mgr h r where
    acts: "acts = wired_calls (manager_options_of co env cl) mgr h r"
    by (blast elim: main_cases)
  from standby_becomes_ready [OF process_ok_reachable [OF assms(3)] acts]
  obtain p' where p': "(standby_step acts)\<^sup>*\<^sup>* p p'" "readyz acts p'" by blast
  have "readyz acts p''" if "(manager_step acts)\<^sup>*\<^sup>* p' p''" for p''
    using that by (induction rule: rtranclp_induct) (auto intro: p' ready_stays [OF _ acts])
  with p' show ?thesis by blast
qed

lemma every_replica_becomes_ready_witness:
  "\<exists>p'. (standby_step (snd ex_main))\<^sup>*\<^sup>* process_start p' \<and> readyz (snd ex_main) p'"
  using every_replica_becomes_ready [OF ex_main_run rtranclp.rtrancl_refl] by blast

section \<open>Properties: the webhook configuration\<close>

text \<open>
  C32.  The API server sends a write to one of the two webhook entries exactly when it is a
  \<open>CREATE\<close>, \<open>UPDATE\<close> or \<open>DELETE\<close> of a main resource (none of a subresource, and no \<open>CONNECT\<close>), of any
  version and scope, outside the excluded groups and namespaces, on an object that carries a Flux
  ownership label before or after it: removing the labels does not evade interception.
\<close>

theorem webhook_intercepts_managed_writes:
  assumes "api_dispatch S"
  shows "(\<exists>vw\<in>set (vwc_Webhooks (desired_configuration r)). as_calls S vw a) \<longleftrightarrow>
     aw_Operation a \<in> {''CREATE'', ''UPDATE'', ''DELETE''} \<and> aw_SubResource a = [] \<and>
     aw_Group a \<notin> set ExcludedGroups \<and>
     (\<forall>ns. aw_NamespaceLabels a ''kubernetes.io/metadata.name'' = Some ns \<longrightarrow>
        ns \<notin> set (excludedNamespaces r)) \<and>
     (IsManaged (GetFluxManagementInfo (aw_Labels a)) \<or>
      IsManaged (GetFluxManagementInfo (aw_OldLabels a)))"
  unfolding api_dispatch.calls_desired_iff [OF assms] by (simp add: Create_def Update_def Delete_def)

lemma webhook_intercepts_managed_writes_witness:
  "\<exists>vw\<in>set (vwc_Webhooks (desired_configuration ex_reconciler)). as_calls reference_server vw ex_write"
proof -
  have "excludedNamespaces ex_reconciler =
      [''kube-system'', ''kube-public'', ''kube-node-lease'', ''flux-system'', ''monitoring'']"
    by code_simp
  then show ?thesis
    unfolding webhook_intercepts_managed_writes [OF ref_server.api_dispatch_axioms]
    by (simp add: ex_write_def config_defs IsManaged_iff Update_def)
qed

text \<open>
  C33.  The configuration and the handler of a started program filter alike, when no namespace label
  is configured: the writes that are both sent to the handler and examined by it are exactly those
  of a main resource on a managed object outside the excluded groups, the three built-in
  namespaces, \<open>flux-system\<close>, the Flux namespace and the extra ones.  The only writes that are sent
  and passed over are those in \<open>flux-system\<close> when Flux lives in another namespace.
\<close>

theorem configuration_and_handler_agree:
  assumes "api_dispatch S" and "startup env cl mgr = Inr (h, r)" and "NamespaceLabel h = []"
  shows "(called S D r req \<and> in_scope h req w w \<longleftrightarrow>
      req_Operation req \<in> {Create, Update, Delete} \<and> req_SubResource req = [] \<and>
      gvr_Group (req_Resource req) \<notin> set ExcludedGroups \<and>
      (req_Namespace req = [] \<or>
       req_Namespace req \<notin> {''kube-system'', ''kube-public'', ''kube-node-lease'', ''flux-system'',
         FluxNamespace h} \<union> set (rc_ExtraExcludedNamespaces r)) \<and>
      managed_write D req) \<and>
    (called S D r req \<longrightarrow>
      in_scope h req w w \<or> req_Namespace req = ''flux-system'' \<and> FluxNamespace h \<noteq> ''flux-system'')"
  using filters_agree [OF assms] by blast

lemma configuration_and_handler_agree_witness:
  "\<exists>h r. ex_serving = Inr (h, r) \<and> called reference_server ex_deps r (ex_update ''stripped'') \<and>
     in_scope h (ex_update ''stripped'') ex_world ex_world"
proof -
  obtain h r where hr: "ex_serving = Inr (h, r)" using ex_serving_started by blast
  have "case ex_serving of Inl _ \<Rightarrow> False | Inr (h, r) \<Rightarrow>
      NamespaceLabel h = [] \<and> ''shop'' \<notin> {FluxNamespace h} \<union> set (rc_ExtraExcludedNamespaces r)"
    "managed_write ex_deps (ex_update ''stripped'')"
    by code_simp+
  then have "called reference_server ex_deps r (ex_update ''stripped'') \<and>
      in_scope h (ex_update ''stripped'') ex_world ex_world"
    using configuration_and_handler_agree [OF ref_server.api_dispatch_axioms hr [unfolded ex_serving_def],
        where D = ex_deps and req = "ex_update ''stripped''" and w = ex_world]
    by (auto simp: hr ex_request_def config_defs)
  with hr show ?thesis by blast
qed

text \<open>
  C34.  A reconcile step counts exactly one configuration update, a success exactly when the converted
  configuration was applied, with forced ownership under the controller's field owner; it requeues
  then after the interval, and reports a recreation exactly when the configuration was absent
  before.  Every event it emits is about the configuration.
\<close>

theorem reconcile_outcome:
  "let (res, w') = Reconcile r client w;
       applied = (case vc_ToUnstructured client (desired_configuration r) of
           Inl err \<Rightarrow> None
         | Inr uns \<Rightarrow>
             if vc_Apply client uns [ForceOwnership, FieldOwner ''flux-drift-webhook''] = None
             then Some uns else None)
   in (case applied of
        Some uns \<Rightarrow>
          res = Inr (rc_ResyncInterval r) \<and> rw_applied w' = rw_applied w @ [uns] \<and>
          w_metrics (rw_world w') = w_metrics (rw_world w) @
            [CounterInc (col_Name configUpdatesTotal) [''success'']] \<and>
          map ev_Reason (rw_events w') = map ev_Reason (rw_events w) @
            (if \<not> HasEventRecorder r then []
             else if vc_Get client (rc_WebhookName r) = Some NotFound
             then [''ConfigRecreated'', ''ConfigUpdated''] else [''ConfigUpdated''])
      | None \<Rightarrow>
          isl res \<and> rw_applied w' = rw_applied w \<and>
          w_metrics (rw_world w') = w_metrics (rw_world w) @
            [CounterInc (col_Name configUpdatesTotal) [''error'']] \<and>
          map ev_Reason (rw_events w') = map ev_Reason (rw_events w) @
            (if HasEventRecorder r then [''ConfigUpdateFailed''] else [])) \<and>
      list_all (\<lambda>e. ev_Regarding e =
          \<lparr>ref_APIVersion = ''admissionregistration.k8s.io/v1'',
           ref_Kind = ''ValidatingWebhookConfiguration'', ref_Name = rc_WebhookName r\<rparr>)
        (drop (length (rw_events w)) (rw_events w'))"
  by (auto simp: Reconcile_def Let_def record_metrics split: sum.splits option.splits)

text \<open>
  C35.  With a positive resync interval and a configuration that existed at the start, the controller
  always has a step of its own to take, whatever others did before; and after at most
  \<open>patience\<close> of its own steps, and one more for every touch of the configuration or write of
  another one that comes in between, the stored configuration is the desired one, when the
  API server accepts the controller's writes and nobody tampers with the configuration.
\<close>

theorem controller_converges:
  assumes "work_queue requeue" and "conv (desired_configuration r) = Inr uns"
    and "0 < rc_ResyncInterval r"
    and "loop_trace r requeue conv before (loop_start r (Some stored) w) s"
  shows "(\<exists>a s'. own_action a \<and> loop_step r requeue conv a s s') \<and>
    (\<forall>as s'. list_all (\<lambda>a. own_action a \<or> noise a) as \<and>
       patience s + length (filter noise as) \<le> length (filter own_action as) \<and>
       loop_trace r requeue conv as s s' \<longrightarrow> lp_stored s' = Some uns)"
proof -
  have "awake r s"
    using work_queue.awake_trace [OF assms(1,4) _ assms(3,2)] by (simp add: awake_start)
  then show ?thesis
    using noisy_trace_converges [where conv = conv and r = r] assms(2) awake_progress by blast
qed

lemma ex_recreation:
  "\<exists>s. loop_trace ex_reconciler reference_requeue ex_conv [Deliver, OutsideDelete]
     (loop_start ex_reconciler (Some ex_uns) \<lparr>rw_world = ex_world, rw_events = [], rw_applied = []\<rparr>) s \<and>
   patience s = 2 \<and> lp_queued s \<and> lp_stored s = None \<and> lp_events s = [DeleteEvent (rc_WebhookName ex_reconciler)]"
  by (auto simp: loop_trace_Cons loop_start_def patience_def intro!: exI loop_step.intros)

lemma controller_converges_witness:
  "\<exists>s s'. lp_stored s = None \<and>
     loop_trace ex_reconciler reference_requeue ex_conv [Deliver, Run None] s s' \<and>
     lp_stored s' = Some ex_uns"
proof -
  obtain s where s: "loop_trace ex_reconciler reference_requeue ex_conv [Deliver, OutsideDelete]
      (loop_start ex_reconciler (Some ex_uns)
        \<lparr>rw_world = ex_world, rw_events = [], rw_applied = []\<rparr>) s"
    and p: "patience s = 2" "lp_queued s" "lp_stored s = None"
      "lp_events s = [DeleteEvent (rc_WebhookName ex_reconciler)]"
    using ex_recreation by blast
  obtain s1 where "loop_step ex_reconciler reference_requeue ex_conv Deliver s s1" "lp_queued s1"
    using loop_step.deliver [OF p(4)] p(2) by force
  then obtain s' where t: "loop_trace ex_reconciler reference_requeue ex_conv [Deliver, Run None] s s'"
    using loop_step.run by (blast intro: trace_Cons trace_Nil)
  have "ex_conv (desired_configuration ex_reconciler) = Inr ex_uns" "0 < rc_ResyncInterval ex_reconciler"
    by (simp_all add: ex_conv_def ex_reconciler_def)
  from controller_converges [OF ref_queue.work_queue_axioms this s, THEN conjunct2,
      THEN spec [of _ "[Deliver, Run None]"], THEN spec [of _ s']] t p
  have "lp_stored s' = Some ex_uns" by simp
  with t p show ?thesis by blast
qed

text \<open>
  C36.  There is no reconcile loop: the number of runs is bounded by the state and by the timer
  expiries and the creations, edits and deletions of the configuration by others.  Foreign
  updates of fields the controller does not apply, such as the CA injector's, cause none, and
  the work on hand ends after a bounded number of steps.
\<close>

theorem reconcile_runs_bounded:
  assumes "conv (desired_configuration r) = Inr uns" and "loop_trace r requeue conv as s s'"
  shows "length (filter is_run as) \<le> run_budget r uns s + sum_list (map run_cost as) \<and>
    (list_all immediate as \<longrightarrow> length as \<le> length (lp_events s) + 2 * run_budget r uns s)"
proof -
  have runs: "length (filter is_run as) \<le> run_budget r uns s + sum_list (map run_cost as)"
    using run_budget_trace [OF assms(2,1)] by simp
  have "sum_list (map run_cost as) = 0" if "list_all immediate as"
    using that
  proof (induction as)
    case (Cons a as)
    then show ?case by (cases a) auto
  qed simp
  with runs immediate_length [OF assms(2) _ assms(1)] show ?thesis by fastforce
qed

lemma reconcile_runs_bounded_witness:
  "\<exists>s. \<forall>n. \<not> (\<exists>s'. loop_trace ex_reconciler reference_requeue ex_conv
      (replicate n OutsideTouch @ replicate n Deliver @ [Run None, Run None]) s s')"
proof -
  have conv: "ex_conv (desired_configuration ex_reconciler) = Inr ex_uns" by (simp add: ex_conv_def)
  let ?s = "loop_start ex_reconciler (Some ex_uns)
    \<lparr>rw_world = ex_world, rw_events = [], rw_applied = []\<rparr>"
  have "run_budget ex_reconciler ex_uns ?s = 1" by (simp add: run_budget_def loop_start_def)
  then have "\<not> loop_trace ex_reconciler reference_requeue ex_conv
      (replicate n OutsideTouch @ replicate n Deliver @ [Run None, Run None]) ?s s'" for n s'
    using reconcile_runs_bounded [where conv = ex_conv and r = ex_reconciler and uns = ex_uns and
        requeue = reference_requeue and as =
        "replicate n OutsideTouch @ replicate n Deliver @ [Run None, Run None]" and s = ?s and s' = s'] conv
    by (auto simp: sum_list_replicate)
  then show ?thesis by blast
qed

end
